(* ===== verification/Topic_Pattern.thy ===== *)
theory Topic_Pattern
  imports Trabbits_Prelude
begin

text \<open>
  Routing-key patterns: \<^verbatim>\<open>src/pattern/match.go\<close>. The two backtracking matchers of the
  file, on the dot-separated words of a key and on the characters of one word, are translated with
  their index arguments. Both have the same shape, which the locale \<open>wildcard_matcher\<close> states
  once; inside it a matcher is shown to decide membership in the language of its pattern.
\<close>

section \<open>The matchers\<close>

text \<open>\<^verbatim>\<open>matchPercentPattern\<close>: characters of one word, \<open>%\<close> for any substring.\<close>

function matchPercentPattern :: "string \<Rightarrow> string \<Rightarrow> nat \<Rightarrow> nat \<Rightarrow> bool" where
  "matchPercentPattern text pattern textIdx patternIdx =
     (if length pattern \<le> patternIdx then length text \<le> textIdx
      else if length text \<le> textIdx
      then list_all (\<lambda>c. c = CHR ''%'') (drop patternIdx pattern)
      else if pattern ! patternIdx = CHR ''%'' then
        (if matchPercentPattern text pattern textIdx (patternIdx + 1) then True
         else matchPercentPattern text pattern (textIdx + 1) patternIdx)
      else if pattern ! patternIdx = text ! textIdx
      then matchPercentPattern text pattern (textIdx + 1) (patternIdx + 1)
      else False)"
  by pat_completeness auto
termination
  by (relation "measure (\<lambda>(t, p, i, j). (length t - i) + (length p - j))") auto

definition matchTokenWithPercent :: "string \<Rightarrow> string \<Rightarrow> bool" where
  "matchTokenWithPercent token pattern = matchPercentPattern token pattern 0 0"

text \<open>\<^verbatim>\<open>matchTokens\<close>: the words of a routing key against the words of a pattern.\<close>

function matchTokens :: "string list \<Rightarrow> string list \<Rightarrow> nat \<Rightarrow> nat \<Rightarrow> bool" where
  "matchTokens routingTokens bindingTokens rIdx bIdx =
     (if length bindingTokens \<le> bIdx then length routingTokens \<le> rIdx
      else if length routingTokens \<le> rIdx
      then list_all (\<lambda>t. t = ''#'') (drop bIdx bindingTokens)
      else
        if bindingTokens ! bIdx = ''#'' then
          (if matchTokens routingTokens bindingTokens rIdx (bIdx + 1) then True
           else matchTokens routingTokens bindingTokens (rIdx + 1) bIdx)
        else if bindingTokens ! bIdx = ''*''
        then matchTokens routingTokens bindingTokens (rIdx + 1) (bIdx + 1)
        else if CHR ''%'' \<in> set (bindingTokens ! bIdx) then
          (if matchTokenWithPercent (routingTokens ! rIdx) (bindingTokens ! bIdx)
           then matchTokens routingTokens bindingTokens (rIdx + 1) (bIdx + 1)
           else False)
        else if routingTokens ! rIdx = bindingTokens ! bIdx
        then matchTokens routingTokens bindingTokens (rIdx + 1) (bIdx + 1)
        else False)"
  by pat_completeness auto
termination
  by (relation "measure (\<lambda>(r, b, i, j). (length r - i) + (length b - j))") auto

declare matchPercentPattern.simps [simp del] matchTokens.simps [simp del]

text \<open>\<^verbatim>\<open>Match(routingKey, bindingPattern)\<close>.\<close>

definition Match :: "string \<Rightarrow> string \<Rightarrow> bool" where
  "Match routingKey bindingPattern =
     (let routingTokens = split_on CHR ''.'' routingKey;
          bindingTokens = split_on CHR ''.'' bindingPattern
      in if 1 < length bindingTokens \<and> length routingTokens = 1 \<and> CHR ''.'' \<notin> set routingKey
         then False
         else matchTokens routingTokens bindingTokens 0 0)"

section \<open>What a pattern means\<close>

text \<open>
  The language of a sequence of pattern elements, given the language of one element: the
  concatenations of one word from each.
\<close>

fun seq_lang :: "('p \<Rightarrow> 'a list set) \<Rightarrow> 'p list \<Rightarrow> 'a list set" where
  "seq_lang L [] = {[]}"
| "seq_lang L (p # ps) = {us @ vs | us vs. us \<in> L p \<and> vs \<in> seq_lang L ps}"

text \<open>Within a word: \<open>%\<close> stands for any substring, every other character for itself.\<close>

definition char_lang :: "char \<Rightarrow> string set" where
  "char_lang c = (if c = CHR ''%'' then UNIV else {[c]})"

definition word_glob :: "string \<Rightarrow> string set" where
  "word_glob p = seq_lang char_lang p"

text \<open>
  Within a key: \<open>#\<close> stands for any number of words, \<open>*\<close> for one word, a word with
  \<open>%\<close> for one word of its glob, any other word for itself.
\<close>

definition word_lang :: "string \<Rightarrow> string list set" where
  "word_lang b = (if b = ''#'' then UNIV
     else if b = ''*'' then {[w] | w. True}
     else if CHR ''%'' \<in> set b then {[w] | w. w \<in> word_glob b}
     else {[b]})"

definition topic_lang :: "string list \<Rightarrow> string list set" where
  "topic_lang bs = seq_lang word_lang bs"

section \<open>The shape the two matchers share\<close>

locale wildcard_matcher =
  fixes m :: "'a list \<Rightarrow> 'p list \<Rightarrow> nat \<Rightarrow> nat \<Rightarrow> bool"
    and wild :: "'p \<Rightarrow> bool"
    and lit :: "'p \<Rightarrow> 'a \<Rightarrow> bool"
  assumes step: "m xs ps i j \<longleftrightarrow>
     (if length ps \<le> j then length xs \<le> i
      else if length xs \<le> i then list_all wild (drop j ps)
      else if wild (ps ! j) then m xs ps i (j + 1) \<or> m xs ps (i + 1) j
      else lit (ps ! j) (xs ! i) \<and> m xs ps (i + 1) (j + 1))"
begin

definition elem_lang :: "'p \<Rightarrow> 'a list set" where
  "elem_lang p = (if wild p then UNIV else {[x] | x. lit p x})"

lemma nil_in_lang: "[] \<in> seq_lang elem_lang ps \<longleftrightarrow> list_all wild ps"
  by (induction ps) (auto simp: elem_lang_def)

lemma wild_lang:
  assumes "wild p"
  shows "x # xs \<in> seq_lang elem_lang (p # ps) \<longleftrightarrow>
    x # xs \<in> seq_lang elem_lang ps \<or> xs \<in> seq_lang elem_lang (p # ps)"
proof
  assume "x # xs \<in> seq_lang elem_lang (p # ps)"
  then obtain us vs where "x # xs = us @ vs" and vs: "vs \<in> seq_lang elem_lang ps"
    by auto
  then show "x # xs \<in> seq_lang elem_lang ps \<or> xs \<in> seq_lang elem_lang (p # ps)"
    using assms by (cases us) (auto simp: elem_lang_def)
next
  assume "x # xs \<in> seq_lang elem_lang ps \<or> xs \<in> seq_lang elem_lang (p # ps)"
  then obtain us vs where "x # xs = us @ vs" "vs \<in> seq_lang elem_lang ps"
    by simp (metis append_Cons self_append_conv2)
  then show "x # xs \<in> seq_lang elem_lang (p # ps)"
    using assms by (auto simp: elem_lang_def)
qed

lemma lit_lang:
  assumes "\<not> wild p"
  shows "x # xs \<in> seq_lang elem_lang (p # ps) \<longleftrightarrow> lit p x \<and> xs \<in> seq_lang elem_lang ps"
  using assms by (auto simp: elem_lang_def intro: exI [of _ "[x]"])

lemma match_from:
  "m xs ps i j \<longleftrightarrow> drop i xs \<in> seq_lang elem_lang (drop j ps)"
proof (induction "(length xs - i) + (length ps - j)" arbitrary: i j rule: less_induct)
  case less
  show ?case
  proof (cases "length ps \<le> j \<or> length xs \<le> i")
    case True
    then show ?thesis
      by (subst step) (auto simp: nil_in_lang)
  next
    case False
    then have dj: "drop j ps = ps ! j # drop (j + 1) ps"
      and di: "drop i xs = xs ! i # drop (i + 1) xs"
      by (simp_all add: Cons_nth_drop_Suc)
    have ih: "m xs ps i (j + 1) \<longleftrightarrow> drop i xs \<in> seq_lang elem_lang (drop (j + 1) ps)"
      "m xs ps (i + 1) j \<longleftrightarrow> drop (i + 1) xs \<in> seq_lang elem_lang (drop j ps)"
      "m xs ps (i + 1) (j + 1) \<longleftrightarrow> drop (i + 1) xs \<in> seq_lang elem_lang (drop (j + 1) ps)"
      using False less [of i "j + 1"] less [of "i + 1" j] less [of "i + 1" "j + 1"] by auto
    show ?thesis
      using False ih wild_lang [of "ps ! j" "xs ! i" "drop (i + 1) xs" "drop (j + 1) ps"]
        lit_lang [of "ps ! j" "xs ! i" "drop (i + 1) xs" "drop (j + 1) ps"]
      by (subst step) (auto simp: di dj simp del: seq_lang.simps)
  qed
qed

lemma match_iff: "m xs ps 0 0 \<longleftrightarrow> xs \<in> seq_lang elem_lang ps"
  using match_from [of xs ps 0 0] by simp

end

interpretation percent: wildcard_matcher matchPercentPattern "\<lambda>c. c = CHR ''%''" "\<lambda>c d. c = d"
  by unfold_locales (subst matchPercentPattern.simps, auto)

definition word_lit :: "string \<Rightarrow> string \<Rightarrow> bool" where
  "word_lit b w \<longleftrightarrow> b = ''*'' \<or>
     (if CHR ''%'' \<in> set b then matchTokenWithPercent w b else w = b)"

interpretation tokens: wildcard_matcher matchTokens "\<lambda>b. b = ''#''" word_lit
  by unfold_locales (subst matchTokens.simps, auto simp: word_lit_def Let_def)

lemma percent_elem_lang: "percent.elem_lang = char_lang"
  by (rule ext) (auto simp: percent.elem_lang_def char_lang_def)

lemma matchTokenWithPercent_iff: "matchTokenWithPercent w b \<longleftrightarrow> w \<in> word_glob b"
  by (simp add: matchTokenWithPercent_def word_glob_def percent.match_iff percent_elem_lang)

lemma tokens_elem_lang: "tokens.elem_lang = word_lang"
  by (rule ext)
    (auto simp: tokens.elem_lang_def word_lang_def word_lit_def matchTokenWithPercent_iff)

lemma matchTokens_iff: "matchTokens ws bs 0 0 \<longleftrightarrow> ws \<in> topic_lang bs"
  by (simp add: topic_lang_def tokens.match_iff tokens_elem_lang)

section \<open>Properties\<close>

lemma word_glob_self: "w \<in> word_glob w"
proof -
  have "w \<in> seq_lang char_lang w"
  proof (induction w)
    case (Cons c w)
    then show ?case by (auto simp: char_lang_def intro: exI [of _ "[c]"])
  qed simp
  then show ?thesis by (simp add: word_glob_def)
qed


text \<open>The documented meaning of the hash, zero or more words, is not what the code does for a
  key without a dot: the key followed by a dot and a hash does not match the key, although its
  words are in the language of the pattern.\<close>

theorem Match_dotless_hash:
  assumes "CHR ''.'' \<notin> set k"
  shows "\<not> Match k (k @ ''.#'') \<and> split_on CHR ''.'' k \<in> topic_lang (split_on CHR ''.'' (k @ ''.#''))"
proof -
  have s: "split_on CHR ''.'' (k @ ''.#'') = [k, ''#'']" "split_on CHR ''.'' k = [k]"
    using assms split_on_append [of "CHR ''.''" k "''#''"]
    by (simp_all add: split_on_absent)
  have "[k] \<in> word_lang k"
    by (simp add: word_lang_def word_glob_self)
  moreover have "[] \<in> seq_lang word_lang [''#'']"
    by (simp add: word_lang_def)
  ultimately have "[k] \<in> topic_lang [k, ''#'']"
    unfolding topic_lang_def seq_lang.simps(2) [of _ k] by force
  moreover have "\<not> Match k (k @ ''.#'')"
    using assms by (simp add: Match_def s)
  ultimately show ?thesis
    by (simp add: s)
qed

theorem Match_dotless_hash_witness:
  "\<not> Match ''logs'' ''logs.#'' \<and>
    split_on CHR ''.'' ''logs'' \<in> topic_lang (split_on CHR ''.'' ''logs.#'')"
  using Match_dotless_hash [of "''logs''"] by simp

end
