(* ===== verification/Amqp_Wire.thy ===== *)
theory Amqp_Wire
  imports Trabbits_Prelude
begin

unbundle bit_operations_syntax

text \<open>
  The primitive encodings of AMQP 0-9-1: \<^verbatim>\<open>src/amqp091/read.go\<close> and
  \<^verbatim>\<open>src/amqp091/write.go\<close> up to field tables.

  A reader is a function of the bytes still to be read. It gives the value or the error, and the
  bytes left after it, because some callers go on reading after an error. The stream is finite
  and ends in \<^verbatim>\<open>io.EOF\<close>, as a connection that the peer closes does.

  \<^verbatim>\<open>readField\<close>, \<^verbatim>\<open>readTable\<close> and \<^verbatim>\<open>readArray\<close>
  call each other on what an earlier call left over; they take fuel here, and
  \<open>readField_fuel\<close> and its companions show that the length of the input plus two is always enough.
\<close>

section \<open>Readers\<close>

datatype read_error =
    EOF
  | UnexpectedEOF
  | ErrSyntax
  | ErrFrame
  | ErrHeartbeatPayload
  | BadMethodClass u16
  | BadMethod u16 u16
  | PanicMakeslice
  | OutOfFuel

type_synonym 'a reader = "bytes \<Rightarrow> (read_error + 'a) \<times> bytes"

definition rret :: "'a \<Rightarrow> 'a reader" where
  "rret x bs = (Inr x, bs)"

definition rfail :: "read_error \<Rightarrow> 'a reader" where
  "rfail e bs = (Inl e, bs)"

definition rbind :: "'a reader \<Rightarrow> ('a \<Rightarrow> 'b reader) \<Rightarrow> 'b reader" where
  "rbind m f bs = (case m bs of (Inl e, r) \<Rightarrow> (Inl e, r) | (Inr x, r) \<Rightarrow> f x r)"

text \<open>\<^verbatim>\<open>io.ReadFull\<close>: all or an error, and a partial read uses up the stream.\<close>

definition read_full :: "nat \<Rightarrow> bytes reader" where
  "read_full n bs =
     (if n \<le> length bs then (Inr (take n bs), drop n bs)
      else (Inl (if bs = [] then EOF else UnexpectedEOF), []))"

text \<open>Big-endian words: \<^verbatim>\<open>binary.BigEndian\<close>.\<close>

primrec to_be :: "nat \<Rightarrow> 'a::len word \<Rightarrow> bytes" where
  "to_be 0 v = []"
| "to_be (Suc n) v = ucast (drop_bit (8 * n) v) # to_be n v"

definition of_be :: "bytes \<Rightarrow> 'a::len word" where
  "of_be bs = foldl (\<lambda>acc b. push_bit 8 acc OR ucast b) 0 bs"

definition read_u8 :: "u8 reader" where
  "read_u8 = rbind (read_full 1) (\<lambda>b. rret (of_be b))"

definition read_u16 :: "u16 reader" where
  "read_u16 = rbind (read_full 2) (\<lambda>b. rret (of_be b))"

definition read_u32 :: "u32 reader" where
  "read_u32 = rbind (read_full 4) (\<lambda>b. rret (of_be b))"

definition read_u64 :: "u64 reader" where
  "read_u64 = rbind (read_full 8) (\<lambda>b. rret (of_be b))"

section \<open>Field values and tables\<close>

text \<open>
  A Go \<^verbatim>\<open>time.Time\<close>: its Unix seconds (an int64) and its nanoseconds. The zero time
  is the first second of the year 1.
\<close>

datatype gotime = GoTime (unix_sec: u64) (nanos: u32)

definition zero_time :: gotime where
  "zero_time = GoTime (word_of_int (- 62135596800)) 0"

text \<open>
  The dynamic types that \<^verbatim>\<open>writeField\<close> switches on; \<open>FInt\<close> is Go's \<^verbatim>\<open>int\<close>
  (64 bits), floats are their bit patterns, \<open>FOther\<close> stands for any other type. A table is an
  association list: Go ranges over a map in no fixed order, and the list is the order of one run.
\<close>

datatype field =
    FBool bool
  | FByte u8
  | FInt8 u8
  | FInt16 u16
  | FInt u64
  | FInt32 u32
  | FInt64 u64
  | FFloat32 u32
  | FFloat64 u64
  | FDecimal u8 u32
  | FString string
  | FArray "field list"
  | FTime gotime
  | FTable "(string \<times> field) list"
  | FBytes bytes
  | FNil
  | FOther

type_synonym table = "(string \<times> field) list"

section \<open>Writers\<close>

datatype write_error = ErrFieldType | MissingMethod

definition writeShortstr :: "string \<Rightarrow> bytes" where
  "writeShortstr s =
     (let b = bytes_of_string s; len = (word_of_nat (length b) :: u8)
      in to_be 1 len @ take (unat len) b)"

definition writeLongstr :: "string \<Rightarrow> bytes" where
  "writeLongstr s =
     (let b = bytes_of_string s; len = (word_of_nat (length b) :: u32)
      in to_be 4 len @ take (unat len) b)"

fun writeField :: "field \<Rightarrow> write_error + bytes"
  and writeElems :: "field list \<Rightarrow> write_error + bytes"
  and writeEntries :: "(string \<times> field) list \<Rightarrow> write_error + bytes"
where
  "writeField (FBool v) = Inr [byte_of_char CHR ''t'', if v then 1 else 0]"
| "writeField (FByte v) = Inr [byte_of_char CHR ''B'', v]"
| "writeField (FInt8 v) = Inr [byte_of_char CHR ''b'', v]"
| "writeField (FInt16 v) = Inr (byte_of_char CHR ''s'' # to_be 2 v)"
| "writeField (FInt v) = Inr (byte_of_char CHR ''I'' # to_be 4 (ucast v :: u32))"
| "writeField (FInt32 v) = Inr (byte_of_char CHR ''I'' # to_be 4 v)"
| "writeField (FInt64 v) = Inr (byte_of_char CHR ''l'' # to_be 8 v)"
| "writeField (FFloat32 v) = Inr (byte_of_char CHR ''f'' # to_be 4 v)"
| "writeField (FFloat64 v) = Inr (byte_of_char CHR ''d'' # to_be 8 v)"
| "writeField (FDecimal scale value) = Inr (byte_of_char CHR ''D'' # scale # to_be 4 value)"
| "writeField (FString s) =
     Inr (byte_of_char CHR ''S'' # to_be 4 (word_of_nat (length s) :: u32) @ bytes_of_string s)"
| "writeField (FArray xs) =
     (case writeElems xs of Inl e \<Rightarrow> Inl e
      | Inr sec \<Rightarrow>
          Inr (byte_of_char CHR ''A'' # to_be 4 (word_of_nat (length sec) :: u32) @ sec))"
| "writeField (FTime t) = Inr (byte_of_char CHR ''T'' # to_be 8 (unix_sec t))"
| "writeField (FTable es) =
     (case writeEntries es of Inl e \<Rightarrow> Inl e
      | Inr buf \<Rightarrow> Inr (byte_of_char CHR ''F'' # writeLongstr (string_of_bytes buf)))"
| "writeField (FBytes v) =
     Inr (byte_of_char CHR ''x'' # to_be 4 (word_of_nat (length v) :: u32) @ v)"
| "writeField FNil = Inr [byte_of_char CHR ''V'']"
| "writeField FOther = Inl ErrFieldType"
| "writeElems [] = Inr []"
| "writeElems (x # xs) =
     (case writeField x of Inl e \<Rightarrow> Inl e
      | Inr b \<Rightarrow> (case writeElems xs of Inl e \<Rightarrow> Inl e | Inr bs \<Rightarrow> Inr (b @ bs)))"
| "writeEntries [] = Inr []"
| "writeEntries ((k, v) # es) =
     (case writeField v of Inl e \<Rightarrow> Inl e
      | Inr b \<Rightarrow> (case writeEntries es of Inl e \<Rightarrow> Inl e
         | Inr bs \<Rightarrow> Inr (writeShortstr k @ b @ bs)))"

definition writeTable :: "table \<Rightarrow> write_error + bytes" where
  "writeTable es = (case writeEntries es of Inl e \<Rightarrow> Inl e
     | Inr buf \<Rightarrow> Inr (writeLongstr (string_of_bytes buf)))"

section \<open>Reading fields and tables\<close>

definition readShortstr :: "string reader" where
  "readShortstr = rbind read_u8 (\<lambda>len. rbind (read_full (unat len)) (\<lambda>b. rret (string_of_bytes b)))"

text \<open>A length that does not fit an int32 gives the empty string and no error.\<close>

definition readLongstr :: "string reader" where
  "readLongstr = rbind read_u32 (\<lambda>len.
     if len > drop_bit 1 (NOT 0) then rret []
     else rbind (read_full (unat len)) (\<lambda>b. rret (string_of_bytes b)))"

definition readDecimal :: "field reader" where
  "readDecimal = rbind read_u8 (\<lambda>scale. rbind read_u32 (\<lambda>value. rret (FDecimal scale value)))"

definition readTimestamp :: "gotime reader" where
  "readTimestamp = rbind read_u64 (\<lambda>sec. rret (GoTime sec 0))"

definition readBytes :: "bytes reader" where
  "readBytes = rbind read_u32 (\<lambda>len.
     if sint len < 0 then rfail PanicMakeslice else read_full (unat len))"

text \<open>
  The bodies of \<^verbatim>\<open>readTable\<close>, \<^verbatim>\<open>readArray\<close> and
  \<^verbatim>\<open>readField\<close>, given the reader \<open>rf\<close> they call for the values inside and
  the fuel \<open>n\<close> of their loops.
\<close>

primrec entries_loop :: "field reader \<Rightarrow> nat \<Rightarrow> table \<Rightarrow> table reader" where
  "entries_loop rf 0 t bs = (Inl OutOfFuel, bs)"
| "entries_loop rf (Suc n) t bs =
     (if bs = [] then (Inr t, bs)
      else rbind readShortstr (\<lambda>key. rbind rf (\<lambda>v.
             entries_loop rf n (AList.update key v t))) bs)"

definition readTable_with :: "field reader \<Rightarrow> nat \<Rightarrow> table reader" where
  "readTable_with rf n = rbind readLongstr (\<lambda>str r.
     (case entries_loop rf n [] (bytes_of_string str) of (res, _) \<Rightarrow> (res, r)))"

primrec elems_loop :: "field reader \<Rightarrow> nat \<Rightarrow> field list \<Rightarrow> field list reader" where
  "elems_loop rf 0 arr bs = (Inl OutOfFuel, bs)"
| "elems_loop rf (Suc n) arr bs =
     (case rf bs of
        (Inl e, r) \<Rightarrow> if e = EOF then (Inr arr, r) else (Inl e, r)
      | (Inr v, r) \<Rightarrow> elems_loop rf n (arr @ [v]) r)"

text \<open>The limited reader of \<^verbatim>\<open>readArray\<close> sees the next \<open>size\<close> bytes only.\<close>

definition readArray_with :: "field reader \<Rightarrow> nat \<Rightarrow> field list reader" where
  "readArray_with rf n = rbind read_u32 (\<lambda>size r.
     (case elems_loop rf n [] (take (unat size) r) of
        (res, r') \<Rightarrow> (res, r' @ drop (unat size) r)))"

definition readField_with :: "field reader \<Rightarrow> nat \<Rightarrow> field reader" where
  "readField_with rf n = rbind read_u8 (\<lambda>typ.
     if typ = byte_of_char CHR ''t'' then rbind read_u8 (\<lambda>v. rret (FBool (v \<noteq> 0)))
     else if typ = byte_of_char CHR ''B'' then rbind read_u8 (\<lambda>v. rret (FByte v))
     else if typ = byte_of_char CHR ''b'' then rbind read_u8 (\<lambda>v. rret (FInt8 v))
     else if typ = byte_of_char CHR ''s'' then rbind read_u16 (\<lambda>v. rret (FInt16 v))
     else if typ = byte_of_char CHR ''I'' then rbind read_u32 (\<lambda>v. rret (FInt32 v))
     else if typ = byte_of_char CHR ''l'' then rbind read_u64 (\<lambda>v. rret (FInt64 v))
     else if typ = byte_of_char CHR ''f'' then rbind read_u32 (\<lambda>v. rret (FFloat32 v))
     else if typ = byte_of_char CHR ''d'' then rbind read_u64 (\<lambda>v. rret (FFloat64 v))
     else if typ = byte_of_char CHR ''D'' then readDecimal
     else if typ = byte_of_char CHR ''S'' then rbind readLongstr (\<lambda>v. rret (FString v))
     else if typ = byte_of_char CHR ''A'' then rbind (readArray_with rf n) (\<lambda>v. rret (FArray v))
     else if typ = byte_of_char CHR ''T'' then rbind readTimestamp (\<lambda>v. rret (FTime v))
     else if typ = byte_of_char CHR ''F'' then rbind (readTable_with rf n) (\<lambda>v. rret (FTable v))
     else if typ = byte_of_char CHR ''x'' then rbind readBytes (\<lambda>v. rret (FBytes v))
     else if typ = byte_of_char CHR ''V'' then rret FNil
     else rfail ErrSyntax)"

primrec readFieldF :: "nat \<Rightarrow> field reader" where
  "readFieldF 0 = rfail OutOfFuel"
| "readFieldF (Suc n) = readField_with (readFieldF n) n"

definition readField :: "field reader" where
  "readField bs = readFieldF (length bs + 2) bs"

definition readTable :: "table reader" where
  "readTable bs = readTable_with (readFieldF (length bs + 2)) (length bs + 2) bs"

definition readArray :: "field list reader" where
  "readArray bs = readArray_with (readFieldF (length bs + 2)) (length bs + 2) bs"

section \<open>Big-endian words\<close>

lemma length_to_be [simp]: "length (to_be n v) = n"
  by (induction n) auto

lemma foldl_to_be:
  "foldl (\<lambda>acc b. push_bit 8 acc OR ucast b) acc (to_be n (v :: 'a::len word)) =
    push_bit (8 * n) acc OR take_bit (8 * n) v"
proof (induction n arbitrary: acc)
  case (Suc n)
  have "push_bit (8 * n) (push_bit 8 acc OR ucast (ucast (drop_bit (8 * n) v) :: u8)) OR
      take_bit (8 * n) v = push_bit (8 * Suc n) acc OR take_bit (8 * Suc n) v"
    by (rule bit_word_eqI)
      (auto simp: bit_or_iff bit_push_bit_iff bit_take_bit_iff bit_drop_bit_eq bit_ucast_iff
        add.commute le_Suc_ex)
  then show ?case
    using Suc by simp
qed simp

lemma of_be_to_be [simp]: "LENGTH('a) \<le> 8 * n \<Longrightarrow> of_be (to_be n v) = (v :: 'a::len word)"
  by (simp add: of_be_def foldl_to_be take_bit_word_eq_self)

lemma of_be_single [simp]: "of_be [b] = (b :: u8)"
  by (simp add: of_be_def)

lemma to_be_1_u8 [simp]: "to_be (Suc 0) (v :: u8) = [v]"
  by simp

section \<open>Laws of the readers\<close>

lemma rbind_rret [simp]: "rbind (rret x) f = f x"
  by (rule ext) (simp add: rbind_def rret_def)

lemma rbind_rret_right [simp]: "rbind m rret = m"
  by (rule ext) (auto simp: rbind_def rret_def split: prod.splits sum.splits)

lemma rbind_assoc: "rbind (rbind m f) g = rbind m (\<lambda>x. rbind (f x) g)"
  by (rule ext) (auto simp: rbind_def split: prod.splits sum.splits)

lemma rbind_Inr: "m bs = (Inr x, r) \<Longrightarrow> rbind m f bs = f x r"
  by (simp add: rbind_def)

lemma rbind_Inl: "m bs = (Inl e, r) \<Longrightarrow> rbind m f bs = (Inl e, r)"
  by (simp add: rbind_def)

lemma rbind_eq_InrE:
  assumes "rbind m f bs = (Inr y, r)"
  obtains x r' where "m bs = (Inr x, r')" and "f x r' = (Inr y, r)"
  using assms by (auto simp: rbind_def split: prod.splits sum.splits)

lemma read_full_append: "length b = n \<Longrightarrow> read_full n (b @ r) = (Inr b, r)"
  by (simp add: read_full_def)

lemma read_full_bind_append [decode]:
  "length b = n \<Longrightarrow> rbind (read_full n) f (b @ r) = f b r"
  by (simp add: rbind_def read_full_append)

lemma read_u8_append [decode]: "rbind read_u8 f (v # r) = f v r"
  by (simp add: read_u8_def rbind_def read_full_def rret_def)

lemma read_u16_append [decode]: "rbind read_u16 f (to_be 2 v @ r) = f v r"
  by (simp add: read_u16_def rbind_def read_full_append rret_def)

lemma read_u32_append [decode]: "rbind read_u32 f (to_be 4 v @ r) = f v r"
  by (simp add: read_u32_def rbind_def read_full_append rret_def)

lemma read_u64_append [decode]: "rbind read_u64 f (to_be 8 v @ r) = f v r"
  by (simp add: read_u64_def rbind_def read_full_append rret_def)

text \<open>A reader that only moves forward: what it leaves is a suffix of what it was given.\<close>

definition suffix_reader :: "'a reader \<Rightarrow> bool" where
  "suffix_reader m \<longleftrightarrow> (\<forall>bs x r. m bs = (x, r) \<longrightarrow> (\<exists>p. bs = p @ r))"

named_theorems suffix_intros \<open>closure of forward readers\<close>

lemma suffix_readerD: "suffix_reader m \<Longrightarrow> m bs = (x, r) \<Longrightarrow> \<exists>p. bs = p @ r"
  by (auto simp: suffix_reader_def)

lemma suffix_reader_length: "suffix_reader m \<Longrightarrow> m bs = (x, r) \<Longrightarrow> length r \<le> length bs"
  by (auto dest: suffix_readerD)

lemma suffix_rret [suffix_intros]: "suffix_reader (rret x)"
  by (auto simp: suffix_reader_def rret_def)

lemma suffix_rfail [suffix_intros]: "suffix_reader (rfail e)"
  by (auto simp: suffix_reader_def rfail_def)

lemma suffix_rbind [suffix_intros]:
  assumes m: "suffix_reader m" and f: "\<And>x. suffix_reader (f x)"
  shows "suffix_reader (rbind m f)"
  unfolding suffix_reader_def
proof (intro allI impI)
  fix bs y r
  assume eq: "rbind m f bs = (y, r)"
  obtain x r' where mx: "m bs = (x, r')"
    by (cases "m bs")
  then obtain p where p: "bs = p @ r'"
    using m by (auto dest: suffix_readerD)
  show "\<exists>p. bs = p @ r"
  proof (cases x)
    case (Inl e)
    with mx eq p show ?thesis by (auto simp: rbind_def)
  next
    case (Inr a)
    with mx eq have "f a r' = (y, r)"
      by (simp add: rbind_def)
    then obtain q where "r' = q @ r"
      using f by (auto dest: suffix_readerD)
    with p show ?thesis by auto
  qed
qed

lemma suffix_if [suffix_intros]:
  "(b \<Longrightarrow> suffix_reader m) \<Longrightarrow> (\<not> b \<Longrightarrow> suffix_reader m') \<Longrightarrow> suffix_reader (if b then m else m')"
  by auto

lemma suffix_read_full [suffix_intros]: "suffix_reader (read_full n)"
  unfolding suffix_reader_def read_full_def
  by (auto split: if_splits) (metis append_take_drop_id)

lemma suffix_words [suffix_intros]:
  "suffix_reader read_u8" "suffix_reader read_u16" "suffix_reader read_u32" "suffix_reader read_u64"
  unfolding read_u8_def read_u16_def read_u32_def read_u64_def
  by (intro suffix_intros)+

lemma suffix_strings [suffix_intros]:
  "suffix_reader readShortstr" "suffix_reader readLongstr" "suffix_reader readDecimal"
  "suffix_reader readTimestamp" "suffix_reader readBytes"
  unfolding readShortstr_def readLongstr_def readDecimal_def readTimestamp_def readBytes_def
  by (intro suffix_intros)+

lemma suffix_entries_loop: "suffix_reader rf \<Longrightarrow> suffix_reader (entries_loop rf n t)"
proof (induction n arbitrary: t)
  case 0
  then show ?case by (auto simp: suffix_reader_def)
next
  case (Suc n)
  let ?body = "rbind readShortstr (\<lambda>key. rbind rf (\<lambda>v. entries_loop rf n (AList.update key v t)))"
  have "suffix_reader ?body"
    using Suc by (intro suffix_intros) auto
  then show ?case
    by (auto simp: suffix_reader_def)
qed

lemma suffix_elems_loop: "suffix_reader rf \<Longrightarrow> suffix_reader (elems_loop rf n arr)"
proof (induction n arbitrary: arr)
  case (Suc n)
  show ?case
    unfolding suffix_reader_def
  proof (intro allI impI)
    fix bs x r
    assume eq: "elems_loop rf (Suc n) arr bs = (x, r)"
    obtain y r' where y: "rf bs = (y, r')"
      by (cases "rf bs")
    then obtain p where p: "bs = p @ r'"
      using Suc.prems by (auto dest: suffix_readerD)
    show "\<exists>p. bs = p @ r"
    proof (cases y)
      case (Inl e)
      with eq y p show ?thesis by (auto split: if_splits)
    next
      case (Inr v)
      with eq y have "elems_loop rf n (arr @ [v]) r' = (x, r)" by simp
      then obtain q where "r' = q @ r"
        using Suc by (auto dest: suffix_readerD)
      with p show ?thesis by auto
    qed
  qed
qed (auto simp: suffix_reader_def)

lemma suffix_readTable_with [suffix_intros]: "suffix_reader (readTable_with rf n)"
  unfolding readTable_with_def
  by (intro suffix_rbind suffix_intros) (auto simp: suffix_reader_def split: prod.splits)

lemma suffix_readArray_with [suffix_intros]:
  assumes "suffix_reader rf"
  shows "suffix_reader (readArray_with rf n)"
  unfolding readArray_with_def
proof (intro suffix_rbind suffix_words)
  fix size :: u32
  show "suffix_reader (\<lambda>r. case elems_loop rf n [] (take (unat size) r) of
      (res, r') \<Rightarrow> (res, r' @ drop (unat size) r))"
    unfolding suffix_reader_def
  proof (intro allI impI)
    fix bs x r
    assume eq: "(case elems_loop rf n [] (take (unat size) bs) of
      (res, r') \<Rightarrow> (res, r' @ drop (unat size) bs)) = (x, r)"
    obtain y r' where y: "elems_loop rf n [] (take (unat size) bs) = (y, r')"
      by (cases "elems_loop rf n [] (take (unat size) bs)")
    then obtain p where "take (unat size) bs = p @ r'"
      using suffix_elems_loop [OF assms] by (blast dest: suffix_readerD)
    then have "bs = p @ r' @ drop (unat size) bs"
      by (metis append.assoc append_take_drop_id)
    with eq y show "\<exists>p. bs = p @ r" by auto
  qed
qed

lemma suffix_readField_with [suffix_intros]: "suffix_reader rf \<Longrightarrow> suffix_reader (readField_with rf n)"
  unfolding readField_with_def by (intro suffix_intros)

lemma suffix_readFieldF [suffix_intros]: "suffix_reader (readFieldF n)"
  by (induction n) (auto intro: suffix_intros)

lemma readField_with_progress:
  assumes "suffix_reader rf" and "readField_with rf n bs = (Inr v, r)"
  shows "length r < length bs"
proof -
  from assms(2) obtain ty r' where u8: "read_u8 bs = (Inr ty, r')"
    unfolding readField_with_def by (rule rbind_eq_InrE)
  then have "length r' < length bs"
    by (auto simp: read_u8_def rbind_def read_full_def rret_def split: if_splits)
  moreover have "length r \<le> length r'"
  proof -
    from u8 obtain b where bs: "bs = b # r'"
      by (cases bs) (auto simp: read_u8_def rbind_def read_full_def rret_def)
    have "suffix_reader (\<lambda>r'. readField_with rf n (b # r'))"
      using assms(1) unfolding readField_with_def read_u8_append
      by (intro suffix_intros)
    then show ?thesis
      using assms(2) bs by (auto dest: suffix_reader_length)
  qed
  ultimately show ?thesis by simp
qed

lemma readFieldF_progress: "readFieldF n bs = (Inr v, r) \<Longrightarrow> length r < length bs"
  by (cases n) (auto simp: rfail_def intro: readField_with_progress suffix_intros)

section \<open>The fuel is enough\<close>

definition fuel_ok :: "'a reader \<Rightarrow> bytes \<Rightarrow> bool" where
  "fuel_ok m bs \<longleftrightarrow> fst (m bs) \<noteq> Inl OutOfFuel"

named_theorems fuel_intros \<open>readers that do not run out of fuel\<close>

lemma fuel_ok_rbind:
  assumes "fuel_ok m bs" and "\<And>x r. m bs = (Inr x, r) \<Longrightarrow> fuel_ok (f x) r"
  shows "fuel_ok (rbind m f) bs"
  using assms by (auto simp: fuel_ok_def rbind_def split: prod.splits sum.splits)

lemma fuel_ok_if [fuel_intros]:
  "(b \<Longrightarrow> fuel_ok m bs) \<Longrightarrow> (\<not> b \<Longrightarrow> fuel_ok m' bs) \<Longrightarrow> fuel_ok (if b then m else m') bs"
  by auto

lemma fuel_ok_simple [fuel_intros]:
  "fuel_ok (rret x) bs" "fuel_ok (rfail ErrSyntax) bs" "fuel_ok (rfail PanicMakeslice) bs"
  "fuel_ok (read_full k) bs"
  by (auto simp: fuel_ok_def rret_def rfail_def read_full_def)

lemma fuel_ok_words [fuel_intros]:
  "fuel_ok read_u8 bs" "fuel_ok read_u16 bs" "fuel_ok read_u32 bs" "fuel_ok read_u64 bs"
  unfolding read_u8_def read_u16_def read_u32_def read_u64_def
  by (intro fuel_ok_rbind fuel_intros)+

lemma fuel_ok_strings [fuel_intros]:
  "fuel_ok readShortstr bs" "fuel_ok readLongstr bs" "fuel_ok readDecimal bs"
  "fuel_ok readTimestamp bs" "fuel_ok readBytes bs"
  unfolding readShortstr_def readLongstr_def readDecimal_def readTimestamp_def readBytes_def
  by (intro fuel_ok_rbind fuel_intros)+

lemma readShortstr_progress: "readShortstr bs = (Inr v, r) \<Longrightarrow> length r < length bs"
  by (auto simp: readShortstr_def rbind_def read_u8_def read_full_def rret_def
      split: if_splits sum.splits prod.splits)

lemma readLongstr_length: "readLongstr bs = (Inr v, r) \<Longrightarrow> 4 + length v \<le> length bs"
  by (auto simp: readLongstr_def rbind_def read_u32_def read_full_def rret_def
      split: if_splits sum.splits prod.splits)

lemma read_u32_length: "read_u32 bs = (Inr v, r) \<Longrightarrow> 4 + length r = length bs"
  by (auto simp: rbind_def read_u32_def read_full_def rret_def
      split: if_splits sum.splits prod.splits)

lemma read_u8_length: "read_u8 bs = (Inr v, r) \<Longrightarrow> Suc (length r) = length bs"
  by (auto simp: rbind_def read_u8_def read_full_def rret_def
      split: if_splits sum.splits prod.splits)

lemma fuel_entries_loop:
  assumes "\<And>bs. length bs < k \<Longrightarrow> fuel_ok rf bs"
    and "\<And>bs v r. rf bs = (Inr v, r) \<Longrightarrow> length r < length bs"
  shows "length bs < n \<Longrightarrow> length bs \<le> k \<Longrightarrow> fuel_ok (entries_loop rf n t) bs"
proof (induction n arbitrary: bs t)
  case (Suc n)
  show ?case
  proof (cases "bs = []")
    case True
    then show ?thesis by (simp add: fuel_ok_def)
  next
    case False
    have "fuel_ok (rbind readShortstr (\<lambda>key. rbind rf (\<lambda>v.
        entries_loop rf n (AList.update key v t)))) bs"
    proof (intro fuel_ok_rbind fuel_intros)
      fix key r
      assume "readShortstr bs = (Inr key, r)"
      then have r: "length r < length bs" by (rule readShortstr_progress)
      with Suc.prems show "fuel_ok rf r" by (intro assms(1)) simp
      fix v r'
      assume "rf r = (Inr v, r')"
      then have "length r' < length r" by (rule assms(2))
      with Suc.prems r show "fuel_ok (entries_loop rf n (AList.update key v t)) r'"
        by (intro Suc.IH) auto
    qed
    with False show ?thesis by (simp add: fuel_ok_def)
  qed
qed simp

lemma fuel_elems_loop:
  assumes "\<And>bs. length bs < k \<Longrightarrow> fuel_ok rf bs"
    and "\<And>bs v r. rf bs = (Inr v, r) \<Longrightarrow> length r < length bs"
  shows "length bs < n \<Longrightarrow> length bs < k \<Longrightarrow> fuel_ok (elems_loop rf n arr) bs"
proof (induction n arbitrary: bs arr)
  case (Suc n)
  have rf: "fuel_ok rf bs" using Suc.prems by (intro assms(1))
  obtain y r where y: "rf bs = (y, r)" by (cases "rf bs")
  show ?case
  proof (cases y)
    case (Inl e)
    with y rf show ?thesis by (auto simp: fuel_ok_def)
  next
    case (Inr v)
    with y have "length r < length bs" using assms(2) by auto
    with Suc.prems have "fuel_ok (elems_loop rf n (arr @ [v])) r"
      by (intro Suc.IH) auto
    with y Inr show ?thesis by (simp add: fuel_ok_def)
  qed
qed simp

lemma fuel_readTable_with:
  assumes "\<And>bs. length bs < k \<Longrightarrow> fuel_ok rf bs"
    and "\<And>bs v r. rf bs = (Inr v, r) \<Longrightarrow> length r < length bs"
    and "length bs \<le> n" and "length bs \<le> k"
  shows "fuel_ok (readTable_with rf n) bs"
  unfolding readTable_with_def
proof (intro fuel_ok_rbind fuel_intros)
  fix str r
  assume "readLongstr bs = (Inr str, r)"
  then have "4 + length str \<le> length bs" by (rule readLongstr_length)
  with assms have "fuel_ok (entries_loop rf n []) (bytes_of_string str)"
    by (intro fuel_entries_loop [where k = k]) auto
  then show "fuel_ok (\<lambda>r. case entries_loop rf n [] (bytes_of_string str) of (res, _) \<Rightarrow> (res, r)) r"
    by (auto simp: fuel_ok_def split: prod.splits)
qed

lemma fuel_readArray_with:
  assumes "\<And>bs. length bs < k \<Longrightarrow> fuel_ok rf bs"
    and "\<And>bs v r. rf bs = (Inr v, r) \<Longrightarrow> length r < length bs"
    and "length bs \<le> n" and "length bs \<le> k"
  shows "fuel_ok (readArray_with rf n) bs"
  unfolding readArray_with_def
proof (intro fuel_ok_rbind fuel_intros)
  fix size r
  assume "read_u32 bs = (Inr size, r)"
  then have "4 + length r = length bs" by (rule read_u32_length)
  with assms have "fuel_ok (elems_loop rf n []) (take (unat size) r)"
    by (intro fuel_elems_loop [where k = k]) auto
  then show "fuel_ok (\<lambda>r. case elems_loop rf n [] (take (unat size) r) of
      (res, r') \<Rightarrow> (res, r' @ drop (unat size) r)) r"
    by (auto simp: fuel_ok_def split: prod.splits)
qed

lemma fuel_readFieldF: "length bs < n \<Longrightarrow> fuel_ok (readFieldF n) bs"
proof (induction n arbitrary: bs)
  case (Suc n)
  have "fuel_ok (readField_with (readFieldF n) n) bs"
    unfolding readField_with_def
  proof (rule fuel_ok_rbind)
    fix ty r
    assume "read_u8 bs = (Inr ty, r)"
    then have "Suc (length r) = length bs" by (rule read_u8_length)
    with Suc.prems have r: "length r \<le> n" by simp
    note table = fuel_readTable_with [OF Suc.IH readFieldF_progress r r]
    note array = fuel_readArray_with [OF Suc.IH readFieldF_progress r r]
    show "fuel_ok (if ty = byte_of_char CHR ''t'' then rbind read_u8 (\<lambda>v. rret (FBool (v \<noteq> 0)))
     else if ty = byte_of_char CHR ''B'' then rbind read_u8 (\<lambda>v. rret (FByte v))
     else if ty = byte_of_char CHR ''b'' then rbind read_u8 (\<lambda>v. rret (FInt8 v))
     else if ty = byte_of_char CHR ''s'' then rbind read_u16 (\<lambda>v. rret (FInt16 v))
     else if ty = byte_of_char CHR ''I'' then rbind read_u32 (\<lambda>v. rret (FInt32 v))
     else if ty = byte_of_char CHR ''l'' then rbind read_u64 (\<lambda>v. rret (FInt64 v))
     else if ty = byte_of_char CHR ''f'' then rbind read_u32 (\<lambda>v. rret (FFloat32 v))
     else if ty = byte_of_char CHR ''d'' then rbind read_u64 (\<lambda>v. rret (FFloat64 v))
     else if ty = byte_of_char CHR ''D'' then readDecimal
     else if ty = byte_of_char CHR ''S'' then rbind readLongstr (\<lambda>v. rret (FString v))
     else if ty = byte_of_char CHR ''A''
       then rbind (readArray_with (readFieldF n) n) (\<lambda>v. rret (FArray v))
     else if ty = byte_of_char CHR ''T'' then rbind readTimestamp (\<lambda>v. rret (FTime v))
     else if ty = byte_of_char CHR ''F''
       then rbind (readTable_with (readFieldF n) n) (\<lambda>v. rret (FTable v))
     else if ty = byte_of_char CHR ''x'' then rbind readBytes (\<lambda>v. rret (FBytes v))
     else if ty = byte_of_char CHR ''V'' then rret FNil
     else rfail ErrSyntax) r"
      by (intro fuel_intros fuel_ok_rbind table array)
  qed (rule fuel_intros)
  then show ?case by simp
qed simp

section \<open>Writing then reading\<close>

text \<open>
  The values that survive the wire: no Go \<^verbatim>\<open>int\<close> (it comes back as an int32), no
  nanoseconds, strings and tables whose lengths fit their prefix, distinct keys.
\<close>

definition wf_shortstr :: "string \<Rightarrow> bool" where
  "wf_shortstr s \<longleftrightarrow> length s < 256"

definition wf_longstr :: "string \<Rightarrow> bool" where
  "wf_longstr s \<longleftrightarrow> length s < 2 ^ 31"

definition sized :: "nat \<Rightarrow> write_error + bytes \<Rightarrow> bool" where
  "sized k w = (case w of Inl _ \<Rightarrow> False | Inr b \<Rightarrow> length b < k)"

fun wf_field :: "field \<Rightarrow> bool"
  and wf_elems :: "field list \<Rightarrow> bool"
  and wf_entries :: "table \<Rightarrow> bool"
where
  "wf_field (FInt v) = False"
| "wf_field FOther = False"
| "wf_field (FString s) = wf_longstr s"
| "wf_field (FArray xs) = (wf_elems xs \<and> sized (2 ^ 32) (writeElems xs))"
| "wf_field (FTime t) = (nanos t = 0)"
| "wf_field (FTable es) = (wf_entries es \<and> distinct (map fst es) \<and> sized (2 ^ 31) (writeEntries es))"
| "wf_field (FBytes v) = (length v < 2 ^ 31)"
| "wf_field _ = True"
| "wf_elems [] = True"
| "wf_elems (x # xs) = (wf_field x \<and> wf_elems xs)"
| "wf_entries [] = True"
| "wf_entries ((k, v) # es) = (wf_shortstr k \<and> wf_field v \<and> wf_entries es)"

definition wf_table :: "table \<Rightarrow> bool" where
  "wf_table es \<longleftrightarrow> wf_entries es \<and> distinct (map fst es) \<and> sized (2 ^ 31) (writeEntries es)"

lemma writeShortstr_wf:
  "wf_shortstr s \<Longrightarrow> writeShortstr s = (word_of_nat (length s) :: u8) # bytes_of_string s"
  by (simp add: writeShortstr_def wf_shortstr_def Let_def unat_of_nat)

lemma writeLongstr_wf:
  "wf_longstr s \<Longrightarrow> writeLongstr s = to_be 4 (word_of_nat (length s) :: u32) @ bytes_of_string s"
  by (simp add: writeLongstr_def wf_longstr_def Let_def unat_of_nat)

lemma readShortstr_write [decode]:
  "wf_shortstr s \<Longrightarrow> rbind readShortstr f (writeShortstr s @ r) = f s r"
  unfolding readShortstr_def
  by (simp add: writeShortstr_wf rbind_def read_u8_def read_full_def rret_def wf_shortstr_def unat_of_nat)

lemma small_longstr: "n < 2 ^ 31 \<Longrightarrow> \<not> drop_bit 1 (NOT 0) < (word_of_nat n :: u32)"
proof -
  assume "n < 2 ^ 31"
  then have "unat (word_of_nat n :: u32) = n"
    by (simp add: unat_of_nat)
  moreover have "drop_bit 1 (NOT 0) = (0x7FFFFFFF :: u32)"
    by (simp add: drop_bit_eq_div)
  ultimately show ?thesis
    using \<open>n < 2 ^ 31\<close> by (simp add: word_less_nat_alt)
qed

lemma readLongstr_sized:
  assumes "length s < 2 ^ 31"
  shows "rbind readLongstr f (to_be 4 (word_of_nat (length s) :: u32) @ bytes_of_string s @ r) = f s r"
proof -
  have "unat (word_of_nat (length s) :: u32) = length s"
    using assms by (simp add: unat_of_nat)
  then have "readLongstr (to_be 4 (word_of_nat (length s) :: u32) @ bytes_of_string s @ r) = (Inr s, r)"
    unfolding readLongstr_def
    using small_longstr [OF assms] by (simp add: decode read_full_bind_append rret_def)
  then show ?thesis by (simp add: rbind_def)
qed

lemma readLongstr_write [decode]:
  "wf_longstr s \<Longrightarrow> rbind readLongstr f (writeLongstr s @ r) = f s r"
  using readLongstr_sized [of s f r] by (simp add: writeLongstr_wf wf_longstr_def)

lemma sint_small: "n < 2 ^ 31 \<Longrightarrow> \<not> sint (word_of_nat n :: u32) < 0"
  by (simp add: sint_uint signed_take_bit_eq_if_positive bit_iff_odd uint_nat unat_of_nat)

lemma readBytes_write:
  assumes "length b < 2 ^ 31"
  shows "rbind readBytes f (to_be 4 (word_of_nat (length b) :: u32) @ b @ r) = f b r"
proof -
  have "unat (word_of_nat (length b) :: u32) = length b"
    using assms by (simp add: unat_of_nat)
  then have "readBytes (to_be 4 (word_of_nat (length b) :: u32) @ b @ r) = (Inr b, r)"
    unfolding readBytes_def
    using sint_small [OF assms] by (simp add: decode read_full_append)
  then show ?thesis by (simp add: rbind_def)
qed

lemma readTimestamp_write:
  "nanos t = 0 \<Longrightarrow> rbind readTimestamp f (to_be 8 (unix_sec t) @ r) = f t r"
  by (cases t) (simp add: readTimestamp_def rbind_def read_u64_def read_full_append rret_def)

lemma sizedE: "sized k w \<Longrightarrow> (\<And>b. w = Inr b \<Longrightarrow> length b < k \<Longrightarrow> P) \<Longrightarrow> P"
  by (auto simp: sized_def split: sum.splits)

lemma read_u32_write: "read_u32 (to_be 4 v @ r) = (Inr v, r)"
  by (simp add: read_u32_def decode read_full_bind_append rret_def)

lemma tag_bytes [simp]:
  "(byte_of_char c = byte_of_char d) = (c = d)"
  by (metis char_of_byte_of_char)

lemma readFieldF_tag:
  "readFieldF (Suc n) (byte_of_char c # r) =
     (if c = CHR ''t'' then rbind read_u8 (\<lambda>v. rret (FBool (v \<noteq> 0)))
     else if c = CHR ''B'' then rbind read_u8 (\<lambda>v. rret (FByte v))
     else if c = CHR ''b'' then rbind read_u8 (\<lambda>v. rret (FInt8 v))
     else if c = CHR ''s'' then rbind read_u16 (\<lambda>v. rret (FInt16 v))
     else if c = CHR ''I'' then rbind read_u32 (\<lambda>v. rret (FInt32 v))
     else if c = CHR ''l'' then rbind read_u64 (\<lambda>v. rret (FInt64 v))
     else if c = CHR ''f'' then rbind read_u32 (\<lambda>v. rret (FFloat32 v))
     else if c = CHR ''d'' then rbind read_u64 (\<lambda>v. rret (FFloat64 v))
     else if c = CHR ''D'' then readDecimal
     else if c = CHR ''S'' then rbind readLongstr (\<lambda>v. rret (FString v))
     else if c = CHR ''A'' then rbind (readArray_with (readFieldF n) n) (\<lambda>v. rret (FArray v))
     else if c = CHR ''T'' then rbind readTimestamp (\<lambda>v. rret (FTime v))
     else if c = CHR ''F'' then rbind (readTable_with (readFieldF n) n) (\<lambda>v. rret (FTable v))
     else if c = CHR ''x'' then rbind readBytes (\<lambda>v. rret (FBytes v))
     else if c = CHR ''V'' then rret FNil
     else rfail ErrSyntax) r"
  by (simp only: readFieldF.simps readField_with_def read_u8_append tag_bytes)

declare readFieldF.simps(2) [simp del]

definition reads_back :: "field \<Rightarrow> bytes \<Rightarrow> bool" where
  "reads_back v b \<longleftrightarrow> b \<noteq> [] \<and> (\<forall>n r. length b < n \<longrightarrow> readFieldF n (b @ r) = (Inr v, r))"

lemma reads_backI:
  assumes "\<And>m r. length b \<le> m \<Longrightarrow> readFieldF (Suc m) (byte_of_char c # b @ r) = (Inr v, r)"
  shows "reads_back v (byte_of_char c # b)"
  unfolding reads_back_def
proof (intro conjI allI impI)
  fix n r
  assume "length (byte_of_char c # b) < n"
  then obtain m where "n = Suc m" "length b \<le> m"
    by (cases n) auto
  then show "readFieldF n ((byte_of_char c # b) @ r) = (Inr v, r)"
    using assms by simp
qed simp

lemma readFieldF_empty: "0 < n \<Longrightarrow> readFieldF n [] = (Inl EOF, [])"
  by (cases n) (auto simp: readFieldF.simps readField_with_def rbind_def read_u8_def read_full_def)

lemma elems_loop_back:
  assumes "list_all2 reads_back xs bs" and "length (concat bs) < n" and "length (concat bs) < k"
  shows "elems_loop (readFieldF k) n arr (concat bs) = (Inr (arr @ xs), [])"
  using assms
proof (induction arbitrary: n arr rule: list_all2_induct)
  case Nil
  then show ?case by (cases n) (auto simp: readFieldF_empty)
next
  case (Cons x xs b bs)
  from Cons.hyps(1) have b: "0 < length b"
    and read: "\<And>r. length b < k \<Longrightarrow> readFieldF k (b @ r) = (Inr x, r)"
    by (auto simp: reads_back_def)
  from Cons.prems obtain m where n: "n = Suc m" by (cases n) auto
  have "length b + length (concat bs) < n" "length b + length (concat bs) < k"
    using Cons.prems by simp_all
  then have "length (concat bs) < m" "length (concat bs) < k"
    using b n by linarith+
  then have "elems_loop (readFieldF k) m (arr @ [x]) (concat bs) = (Inr ((arr @ [x]) @ xs), [])"
    by (rule Cons.IH)
  then show ?case
    using Cons.prems read n by simp
qed

lemma entries_loop_back:
  assumes "list_all2 (\<lambda>(k, v) b. wf_shortstr k \<and> reads_back v b) es bs"
    and "length (concat (map2 (\<lambda>(k, v) b. writeShortstr k @ b) es bs)) < n"
    and "length (concat (map2 (\<lambda>(k, v) b. writeShortstr k @ b) es bs)) \<le> f"
    and "distinct (map fst (t @ es))"
  shows "entries_loop (readFieldF f) n t (concat (map2 (\<lambda>(k, v) b. writeShortstr k @ b) es bs)) =
    (Inr (t @ es), [])"
  using assms
proof (induction arbitrary: n t rule: list_all2_induct)
  case Nil
  then show ?case by (cases n) auto
next
  case (Cons e es b bs)
  obtain k v where e: "e = (k, v)" by (cases e)
  from Cons.hyps(1) e have k: "wf_shortstr k" and b: "0 < length b"
    and read: "\<And>r. length b < f \<Longrightarrow> readFieldF f (b @ r) = (Inr v, r)"
    by (auto simp: reads_back_def)
  have ks: "0 < length (writeShortstr k)"
    using k by (simp add: writeShortstr_wf)
  let ?rest = "concat (map2 (\<lambda>(k, v) b. writeShortstr k @ b) es bs)"
  from Cons.prems obtain m where n: "n = Suc m" by (cases n) auto
  have "length (writeShortstr k) + length b + length ?rest < n"
    "length (writeShortstr k) + length b + length ?rest \<le> f"
    using Cons.prems e by simp_all
  then have "length ?rest < m" "length ?rest \<le> f"
    using ks b n by linarith+
  moreover have "distinct (map fst ((t @ [(k, v)]) @ es))"
    using Cons.prems e by simp
  ultimately have "entries_loop (readFieldF f) m (t @ [(k, v)]) ?rest =
      (Inr ((t @ [(k, v)]) @ es), [])"
    by (rule Cons.IH)
  moreover have "AList.update k v t = t @ [(k, v)]"
    using Cons.prems e by (intro distinct_update_new) auto
  moreover have "length b < f"
    using \<open>length (writeShortstr k) + length b + length ?rest \<le> f\<close> ks by linarith
  moreover from this have "rbind (readFieldF f) g (b @ r) = g v r" for g :: "field \<Rightarrow> table reader" and r
    by (simp add: rbind_def read)
  ultimately show ?case
    using k ks n e by (simp add: decode)
qed

lemma readArray_with_back:
  assumes "list_all2 reads_back xs bs" and "length (concat bs) < 2 ^ 32"
    and "length (concat bs) < n" and "length (concat bs) < k"
  shows "readArray_with (readFieldF k) n
    (to_be 4 (word_of_nat (length (concat bs)) :: u32) @ concat bs @ r) = (Inr xs, r)"
proof -
  have "unat (word_of_nat (length (concat bs)) :: u32) = length (concat bs)"
    using assms(2) by (simp add: unat_of_nat)
  then show ?thesis
    using elems_loop_back [OF assms(1,3,4), of "[]"]
    by (simp add: readArray_with_def decode)
qed

lemma readTable_with_back:
  assumes "list_all2 (\<lambda>(k, v) b. wf_shortstr k \<and> reads_back v b) es bs"
    and buf: "buf = concat (map2 (\<lambda>(k, v) b. writeShortstr k @ b) es bs)"
    and "length buf < 2 ^ 31" and "length buf < n" and "length buf \<le> f"
    and "distinct (map fst es)"
  shows "readTable_with (readFieldF f) n (writeLongstr (string_of_bytes buf) @ r) = (Inr es, r)"
  using entries_loop_back [OF assms(1), of n f "[]"] assms(3-6)
  by (simp add: readTable_with_def readLongstr_write wf_longstr_def buf)

lemma table_reads_back:
  assumes bs: "list_all2 (\<lambda>(k, v) b. wf_shortstr k \<and> reads_back v b) es bs"
    and buf: "buf = concat (map2 (\<lambda>(k, v) b. writeShortstr k @ b) es bs)"
    and len: "length buf < 2 ^ 31" and d: "distinct (map fst es)"
  shows "reads_back (FTable es) (byte_of_char CHR ''F'' # writeLongstr (string_of_bytes buf))"
proof (rule reads_backI)
  fix m r
  assume m: "length (writeLongstr (string_of_bytes buf)) \<le> m"
  have "length (writeLongstr (string_of_bytes buf)) = 4 + length buf"
    using len by (simp add: writeLongstr_wf wf_longstr_def)
  with m show "readFieldF (Suc m)
      (byte_of_char CHR ''F'' # writeLongstr (string_of_bytes buf) @ r) = (Inr (FTable es), r)"
    using len d by (simp add: readFieldF_tag rbind_def rret_def readTable_with_back [OF bs buf])
qed

lemma write_parts:
  shows "wf_field v \<Longrightarrow> \<exists>b. writeField v = Inr b \<and> reads_back v b"
    and "wf_elems xs \<Longrightarrow> \<exists>bs. writeElems xs = Inr (concat bs) \<and> list_all2 reads_back xs bs"
    and "wf_entries es \<Longrightarrow>
      \<exists>bs. writeEntries es = Inr (concat (map2 (\<lambda>(k, v) b. writeShortstr k @ b) es bs)) \<and>
        list_all2 (\<lambda>(k, v) b. wf_shortstr k \<and> reads_back v b) es bs"
proof (induction v and xs and es rule: writeField_writeElems_writeEntries.induct)
  case (12 xs)
  then obtain bs where w: "writeElems xs = Inr (concat bs)" and bs: "list_all2 reads_back xs bs"
    by auto
  have len: "length (concat bs) < 2 ^ 32"
    using 12 w by (auto simp: sized_def)
  have "reads_back (FArray xs)
    (byte_of_char CHR ''A'' # to_be 4 (word_of_nat (length (concat bs)) :: u32) @ concat bs)"
    using len by (intro reads_backI)
      (simp add: readFieldF_tag rbind_def rret_def readArray_with_back [OF bs] del: length_concat)
  with w show ?case by simp
next
  case (14 es)
  then obtain bs where w: "writeEntries es =
      Inr (concat (map2 (\<lambda>(k, v) b. writeShortstr k @ b) es bs))"
    and bs: "list_all2 (\<lambda>(k, v) b. wf_shortstr k \<and> reads_back v b) es bs"
    by auto
  define buf where buf: "buf = concat (map2 (\<lambda>(k, v) b. writeShortstr k @ b) es bs)"
  have len: "length buf < 2 ^ 31" and d: "distinct (map fst es)"
    using 14 w by (auto simp: sized_def buf)
  have "reads_back (FTable es) (byte_of_char CHR ''F'' # writeLongstr (string_of_bytes buf))"
    by (rule table_reads_back [OF bs buf len d])
  with w show ?case by (simp add: buf)
next
  case (19 x xs)
  then obtain b bs where "writeField x = Inr b" "reads_back x b"
    "writeElems xs = Inr (concat bs)" "list_all2 reads_back xs bs"
    by auto
  then show ?case by (auto intro!: exI [of _ "b # bs"])
next
  case (21 k v es)
  then obtain b bs where "writeField v = Inr b" "reads_back v b" "wf_shortstr k"
    "writeEntries es = Inr (concat (map2 (\<lambda>(k, v) b. writeShortstr k @ b) es bs))"
    "list_all2 (\<lambda>(k, v) b. wf_shortstr k \<and> reads_back v b) es bs"
    by auto
  then show ?case by (auto intro!: exI [of _ "b # bs"])
qed (auto intro!: reads_backI
  simp: readFieldF_tag decode rret_def readLongstr_sized readBytes_write wf_longstr_def
    readDecimal_def readTimestamp_write)

section \<open>Codecs\<close>

text \<open>
  The contract of a writer and a reader of one kind of value. What is derived from it: no
  encoding is a prefix of another, and a sequence of values is read back from the concatenation
  of their encodings.
\<close>

primrec write_seq :: "('a \<Rightarrow> write_error + bytes) \<Rightarrow> 'a list \<Rightarrow> write_error + bytes" where
  "write_seq enc [] = Inr []"
| "write_seq enc (x # xs) =
     (case enc x of Inl e \<Rightarrow> Inl e
      | Inr b \<Rightarrow> (case write_seq enc xs of Inl e \<Rightarrow> Inl e | Inr bs \<Rightarrow> Inr (b @ bs)))"

primrec read_seq :: "'a reader \<Rightarrow> nat \<Rightarrow> 'a list reader" where
  "read_seq dec 0 = rret []"
| "read_seq dec (Suc n) = rbind dec (\<lambda>x. rbind (read_seq dec n) (\<lambda>xs. rret (x # xs)))"

locale wire_codec =
  fixes enc :: "'a \<Rightarrow> write_error + bytes"
    and dec :: "'a reader"
    and ok :: "'a \<Rightarrow> bool"
  assumes enc_ok: "ok x \<Longrightarrow> \<exists>b. enc x = Inr b"
    and dec_enc: "ok x \<Longrightarrow> enc x = Inr b \<Longrightarrow> dec (b @ r) = (Inr x, r)"
begin

lemma dec_enc_bind: "ok x \<Longrightarrow> enc x = Inr b \<Longrightarrow> rbind dec f (b @ r) = f x r"
  by (simp add: rbind_def dec_enc)

lemma round_trip: "ok x \<Longrightarrow> \<exists>b. enc x = Inr b \<and> (\<forall>r. dec (b @ r) = (Inr x, r))"
  using enc_ok dec_enc by blast

lemma prefix_free:
  assumes "ok x" "ok y" "enc x = Inr b" "enc y = Inr c" "b @ r = c @ s"
  shows "x = y \<and> r = s"
  using dec_enc [OF assms(1,3), of r] dec_enc [OF assms(2,4), of s] assms(5) by simp

lemma seq_round_trip:
  "list_all ok xs \<Longrightarrow>
    \<exists>b. write_seq enc xs = Inr b \<and> (\<forall>r. read_seq dec (length xs) (b @ r) = (Inr xs, r))"
proof (induction xs)
  case Nil
  show ?case by (simp add: rret_def)
next
  case (Cons x xs)
  then obtain bs where "write_seq enc xs = Inr bs"
    "\<And>r. read_seq dec (length xs) (bs @ r) = (Inr xs, r)"
    by auto
  moreover obtain b where "enc x = Inr b"
    using Cons.prems enc_ok by auto
  ultimately show ?case
    using Cons.prems by (auto simp: rbind_def rret_def dec_enc)
qed

end

lemma readTable_write:
  assumes "wf_table es" and "writeTable es = Inr b"
  shows "readTable (b @ r) = (Inr es, r)"
proof -
  from assms(1) have wf: "wf_entries es" "distinct (map fst es)" "sized (2 ^ 31) (writeEntries es)"
    by (auto simp: wf_table_def)
  then obtain bs where w: "writeEntries es =
      Inr (concat (map2 (\<lambda>(k, v) b. writeShortstr k @ b) es bs))"
    and bs: "list_all2 (\<lambda>(k, v) b. wf_shortstr k \<and> reads_back v b) es bs"
    using write_parts(3) by blast
  define buf where buf: "buf = concat (map2 (\<lambda>(k, v) b. writeShortstr k @ b) es bs)"
  have len: "length buf < 2 ^ 31"
    using wf(3) w by (simp add: sized_def buf)
  moreover have b: "b = writeLongstr (string_of_bytes buf)"
    using assms(2) w by (simp add: writeTable_def buf)
  moreover have "length b = 4 + length buf"
    using len by (simp add: b writeLongstr_wf wf_longstr_def)
  ultimately show ?thesis
    using wf(2) by (simp add: readTable_def readTable_with_back [OF bs buf])
qed

interpretation shortstr: wire_codec "\<lambda>s. Inr (writeShortstr s)" readShortstr wf_shortstr
  using readShortstr_write [of _ rret] by unfold_locales (auto simp: rret_def)

interpretation longstr: wire_codec "\<lambda>s. Inr (writeLongstr s)" readLongstr wf_longstr
  using readLongstr_write [of _ rret] by unfold_locales (auto simp: rret_def)

interpretation fieldc: wire_codec writeField readField wf_field
proof unfold_locales
  fix v
  assume "wf_field v"
  then show "\<exists>b. writeField v = Inr b"
    using write_parts(1) by blast
next
  fix v b r
  assume "wf_field v" "writeField v = Inr b"
  then have "reads_back v b"
    using write_parts(1) by fastforce
  then show "readField (b @ r) = (Inr v, r)"
    by (simp add: readField_def reads_back_def)
qed

interpretation tablec: wire_codec writeTable readTable wf_table
proof unfold_locales
  fix es
  assume "wf_table es"
  then show "\<exists>b. writeTable es = Inr b"
    by (auto simp: wf_table_def writeTable_def sized_def split: sum.splits)
qed (rule readTable_write)

lemma suffix_top [suffix_intros]:
  "suffix_reader readField" "suffix_reader readTable" "suffix_reader readArray"
proof -
  have "suffix_reader (readArray_with (readFieldF n) n)" for n
    by (intro suffix_intros)
  then show "suffix_reader readField" "suffix_reader readTable" "suffix_reader readArray"
    using suffix_readFieldF suffix_readTable_with
    by (auto simp: suffix_reader_def readField_def readTable_def readArray_def)
qed

lemma fuel_ok_top [fuel_intros]:
  "fuel_ok readField bs" "fuel_ok readTable bs" "fuel_ok readArray bs"
proof -
  let ?n = "length bs + 2"
  have rf: "fuel_ok (readFieldF ?n) bs" 
    by (rule fuel_readFieldF) simp
  have "fuel_ok (readTable_with (readFieldF ?n) ?n) bs"
    by (rule fuel_readTable_with [OF fuel_readFieldF readFieldF_progress]) auto
  moreover have "fuel_ok (readArray_with (readFieldF ?n) ?n) bs"
    by (rule fuel_readArray_with [OF fuel_readFieldF readFieldF_progress]) auto
  ultimately show "fuel_ok readField bs" "fuel_ok readTable bs" "fuel_ok readArray bs"
    using rf by (simp_all add: fuel_ok_def readField_def readTable_def readArray_def)
qed

section \<open>Which input makes a reader panic\<close>

text \<open>
  Input that contains the type octet of a byte-array field followed by a length with the top bit set. Only such
  input makes a reader panic; it is a superset of what does, since the octets may be part of something else.
\<close>

definition bad_length :: "bytes \<Rightarrow> bool" where
  "bad_length bs \<longleftrightarrow> (\<exists>p (len :: u32) r. bs = p @ byte_of_char CHR ''x'' # to_be 4 len @ r \<and> 2 ^ 31 \<le> unat len)"

lemma bad_length_append: "bad_length bs \<Longrightarrow> bad_length (p @ bs @ r)"
  unfolding bad_length_def by (metis append.assoc append_Cons)

lemma bad_length_suffix: "bad_length bs \<Longrightarrow> bad_length (p @ bs)"
  using bad_length_append [of bs p "[]"] by simp

lemma bad_length_take: "bad_length (take n bs) \<Longrightarrow> bad_length bs"
  using bad_length_append [of "take n bs" "[]" "drop n bs"] by simp

definition calm :: "'a reader \<Rightarrow> bool" where
  "calm m \<longleftrightarrow> suffix_reader m \<and> (\<forall>bs r. m bs = (Inl PanicMakeslice, r) \<longrightarrow> bad_length bs)"

named_theorems calm_intros \<open>readers that panic on bad lengths only\<close>

lemma calmD: "calm m \<Longrightarrow> m bs = (Inl PanicMakeslice, r) \<Longrightarrow> bad_length bs"
  by (auto simp: calm_def)

lemma calm_suffix: "calm m \<Longrightarrow> suffix_reader m"
  by (simp add: calm_def)

lemma calm_rbind [calm_intros]:
  assumes "calm m" and "\<And>x. calm (f x)" shows "calm (rbind m f)"
  unfolding calm_def
proof (intro conjI allI impI)
  show "suffix_reader (rbind m f)"
    using assms by (intro suffix_rbind calm_suffix)
  fix bs r assume "rbind m f bs = (Inl PanicMakeslice, r)"
  then consider "m bs = (Inl PanicMakeslice, r)" | x r' where "m bs = (Inr x, r')" "f x r' = (Inl PanicMakeslice, r)"
    by (auto simp: rbind_def split: prod.splits sum.splits)
  then show "bad_length bs"
  proof cases
    case 2
    then show ?thesis
      using calmD [OF assms(2)] suffix_readerD [OF calm_suffix [OF assms(1)] 2(1)] bad_length_suffix by blast
  qed (use assms(1) calmD in blast)
qed

lemma calm_if [calm_intros]: "(b \<Longrightarrow> calm m) \<Longrightarrow> (\<not> b \<Longrightarrow> calm m') \<Longrightarrow> calm (if b then m else m')"
  by auto

lemma calm_simple [calm_intros]:
  "calm (rret x)" "calm (read_full k)" "e \<noteq> PanicMakeslice \<Longrightarrow> calm (rfail e)"
  unfolding calm_def by (auto intro: suffix_intros simp: rret_def rfail_def read_full_def split: if_splits)

lemma calm_words [calm_intros]: "calm read_u8" "calm read_u16" "calm read_u32" "calm read_u64"
  unfolding read_u8_def read_u16_def read_u32_def read_u64_def
  by (intro calm_intros)+

lemma calm_strings [calm_intros]: "calm readShortstr" "calm readLongstr" "calm readDecimal" "calm readTimestamp"
  unfolding readShortstr_def readLongstr_def readDecimal_def readTimestamp_def
  by (intro calm_intros)+

lemma to_be_of_be:
  assumes "length bs = 4" shows "to_be 4 (of_be bs :: u32) = bs"
proof -
  let ?B = "{xs :: u8 list. set xs \<subseteq> UNIV \<and> length xs = 4}" and ?f = "\<lambda>v :: u32. to_be 4 v"
  have "inj ?f"
    by (rule inj_on_inverseI [where g = of_be]) simp
  then have "card (range ?f) = card ?B"
    using card_image [of ?f UNIV] card_lists_length_eq [of "UNIV :: u8 set" 4] by (simp add: card_word)
  moreover have "range ?f \<subseteq> ?B" "finite ?B"
    using finite_lists_length_eq [of "UNIV :: u8 set" 4] by auto
  ultimately have "range ?f = ?B" by (intro card_subset_eq) auto
  then obtain v where "bs = to_be 4 (v :: u32)" using assms by blast
  then show ?thesis by simp
qed

lemma negative_unat:
  assumes "sint (len :: u32) < 0" shows "2 ^ 31 \<le> unat len"
proof -
  have "bit len (LENGTH(32) - Suc 0)"
    using assms by (simp only: bit_last_iff)
  then have "bit (unat len) 31"
    by (simp add: bit_unsigned_iff)
  then have "unat len div 2 ^ 31 \<noteq> 0"
    unfolding bit_iff_odd by (metis even_zero)
  then show ?thesis by (simp add: div_eq_0_iff)
qed

lemma readBytes_panic: "readBytes bs = (Inl PanicMakeslice, r) \<Longrightarrow> bad_length (byte_of_char CHR ''x'' # bs)"
proof -
  assume eq: "readBytes bs = (Inl PanicMakeslice, r)"
  obtain x r' where x: "read_u32 bs = (x, r')" by (cases "read_u32 bs")
  then obtain len where len: "x = Inr len" "sint len < 0"
    using eq calmD [OF calm_words(3)]
    by (auto simp: readBytes_def rbind_def rfail_def read_full_def read_u32_def rret_def split: sum.splits if_splits prod.splits)
  then have b: "length (take 4 bs) = 4" "len = of_be (take 4 bs)" "r' = drop 4 bs"
    using x by (auto simp: read_u32_def rbind_def read_full_def rret_def split: if_splits)
  have "bs = to_be 4 len @ drop 4 bs"
    using to_be_of_be [OF b(1)] b(2) by (metis append_take_drop_id)
  moreover have "2 ^ 31 \<le> unat len"
    using len(2) by (rule negative_unat)
  ultimately show ?thesis
    unfolding bad_length_def by (metis append_Nil)
qed

lemma calm_entries_loop: "calm rf \<Longrightarrow> calm (entries_loop rf n t)"
proof (induction n arbitrary: t)
  case 0
  then show ?case by (auto simp: calm_def suffix_reader_def)
next
  case (Suc n)
  have "calm (rbind readShortstr (\<lambda>key. rbind rf (\<lambda>v. entries_loop rf n (AList.update key v t))))"
    using Suc by (intro calm_intros) auto
  then have "bad_length bs" if "entries_loop rf (Suc n) t bs = (Inl PanicMakeslice, r)" for bs r
    using that by (auto dest: calmD split: if_splits)
  then show ?case
    using suffix_entries_loop [OF calm_suffix [OF Suc.prems], of "Suc n" t] unfolding calm_def by blast
qed

lemma calm_elems_loop: "calm rf \<Longrightarrow> calm (elems_loop rf n arr)"
proof (induction n arbitrary: arr)
  case (Suc n)
  have "bad_length bs" if eq: "elems_loop rf (Suc n) arr bs = (Inl PanicMakeslice, r)" for bs r
  proof (cases "rf bs")
    case (Pair y r')
    show ?thesis
    proof (cases y)
      case (Inl e)
      then show ?thesis using eq Pair calmD [OF Suc.prems] by (auto split: if_splits)
    next
      case (Inr v)
      then have "bad_length r'" using eq Pair calmD [OF Suc.IH [OF Suc.prems]] by simp
      then show ?thesis
        using suffix_readerD [OF calm_suffix [OF Suc.prems] Pair] bad_length_suffix by blast
    qed
  qed
  then show ?case
    using suffix_elems_loop [OF calm_suffix [OF Suc.prems]] by (auto simp: calm_def simp del: elems_loop.simps)
qed (auto simp: calm_def suffix_reader_def)

lemma readLongstr_inside:
  assumes "readLongstr bs = (Inr str, r)" and "bad_length (bytes_of_string str)" shows "bad_length bs"
proof -
  obtain len r' where len: "read_u32 bs = (Inr len, r')"
    using assms(1) unfolding readLongstr_def by (rule rbind_eq_InrE)
  then obtain p where p: "bs = p @ r'"
    using suffix_readerD [OF suffix_words(3)] by blast
  have "bytes_of_string str = [] \<or> bytes_of_string str = take (unat len) r'"
    using assms(1) len by (auto simp: readLongstr_def rbind_def rret_def read_full_def split: if_splits)
      (simp add: bytes_of_string_def)
  moreover have "\<not> bad_length []" by (simp add: bad_length_def)
  ultimately have "bad_length r'"
    using assms(2) bad_length_take [of "unat len" r'] by metis
  then show ?thesis by (simp add: p bad_length_suffix)
qed

lemma calm_readTable_with [calm_intros]:
  assumes "calm rf" shows "calm (readTable_with rf n)"
  unfolding calm_def
proof (intro conjI allI impI suffix_readTable_with)
  fix bs r assume "readTable_with rf n bs = (Inl PanicMakeslice, r)"
  then consider "readLongstr bs = (Inl PanicMakeslice, r)"
    | str r' q where "readLongstr bs = (Inr str, r')" "entries_loop rf n [] (bytes_of_string str) = (Inl PanicMakeslice, q)"
    by (auto simp: readTable_with_def rbind_def split: prod.splits sum.splits)
  then show "bad_length bs"
  proof cases
    case 2
    then show ?thesis
      using readLongstr_inside [OF 2(1)] calmD [OF calm_entries_loop [OF assms]] by blast
  qed (use calmD [OF calm_strings(2)] in blast)
qed

lemma calm_readArray_with [calm_intros]:
  assumes "calm rf" shows "calm (readArray_with rf n)"
  unfolding calm_def
proof (intro conjI allI impI suffix_readArray_with calm_suffix assms)
  fix bs r assume "readArray_with rf n bs = (Inl PanicMakeslice, r)"
  then consider "read_u32 bs = (Inl PanicMakeslice, r)"
    | len r' q where "read_u32 bs = (Inr len, r')" "elems_loop rf n [] (take (unat len) r') = (Inl PanicMakeslice, q)"
    by (auto simp: readArray_with_def rbind_def split: prod.splits sum.splits)
  then show "bad_length bs"
  proof cases
    case 2
    then show ?thesis
      using calmD [OF calm_elems_loop [OF assms]] bad_length_take suffix_readerD [OF suffix_words(3) 2(1)] bad_length_suffix
      by blast
  qed (use calmD [OF calm_words(3)] in blast)
qed

lemma calm_readField_with:
  assumes rf: "calm rf" shows "calm (readField_with rf n)"
  unfolding calm_def
proof (intro conjI allI impI suffix_readField_with calm_suffix rf)
  fix bs r assume eq: "readField_with rf n bs = (Inl PanicMakeslice, r)"
  show "bad_length bs"
  proof (cases bs)
    case Nil
    then show ?thesis using eq by (simp add: readField_with_def rbind_def read_u8_def read_full_def)
  next
    case (Cons b q)
    show ?thesis
    proof (cases "b = byte_of_char CHR ''x''")
      case True
      then have "rbind readBytes (\<lambda>v. rret (FBytes v)) q = (Inl PanicMakeslice, r)"
        using eq unfolding Cons by (simp add: readField_with_def decode byte_of_char_def)
      then have "readBytes q = (Inl PanicMakeslice, r)"
        by (auto simp: rbind_def rret_def split: prod.splits sum.splits)
      then show ?thesis
        using readBytes_panic Cons True by simp
    next
      case False
      have "calm (\<lambda>r'. readField_with rf n (b # r'))"
        unfolding readField_with_def decode using False
        by (simp only: if_False) (intro calm_intros rf; simp)
      then show ?thesis
        using calmD [of "\<lambda>r'. readField_with rf n (b # r')" q r] eq bad_length_suffix [of q "[b]"] Cons by simp
    qed
  qed
qed

lemma calm_readFieldF [calm_intros]: "calm (readFieldF n)"
  by (induction n) (simp_all only: readFieldF.simps calm_readField_with calm_simple(3) read_error.distinct not_False_eq_True)

lemma calm_top [calm_intros]: "calm readField" "calm readTable" "calm readArray"
proof -
  have "calm (readTable_with (readFieldF n) n)" "calm (readArray_with (readFieldF n) n)" for n
    by (intro calm_intros)+
  then show "calm readField" "calm readTable" "calm readArray"
    using calm_readFieldF suffix_top unfolding calm_def readField_def readTable_def readArray_def by blast+
qed

section \<open>Properties\<close>

text \<open>C21. Every field value that fits its encoding is read back by \<^verbatim>\<open>readField\<close> from what
  \<^verbatim>\<open>writeField\<close> wrote, whatever follows it on the stream, nested arrays and tables
  included.\<close>

theorem field_round_trip:
  assumes "wf_field v"
  shows "\<exists>b. writeField v = Inr b \<and> (\<forall>r. readField (b @ r) = (Inr v, r))"
  using assms by (rule fieldc.round_trip)

theorem field_round_trip_witness:
  "\<exists>b. writeField (FTable [(''a'', FArray [FInt32 7, FNil]), (''b'', FString ''x'')]) = Inr b \<and>
    (\<forall>r. readField (b @ r) = (Inr (FTable [(''a'', FArray [FInt32 7, FNil]), (''b'', FString ''x'')]), r))"
  by (rule field_round_trip) (simp add: wf_shortstr_def wf_longstr_def sized_def writeShortstr_def)

text \<open>\<^verbatim>\<open>readField\<close>, \<^verbatim>\<open>readTable\<close> and \<^verbatim>\<open>readArray\<close>
  return on every input, with a value or an error of the code and never by running out of the
  model's fuel, and they only move forward: what is left is a suffix of the input.\<close>

theorem readers_return:
  "fst (readField bs) \<noteq> Inl OutOfFuel \<and> fst (readTable bs) \<noteq> Inl OutOfFuel \<and>
   fst (readArray bs) \<noteq> Inl OutOfFuel \<and>
   (\<exists>p. bs = p @ snd (readField bs)) \<and> (\<exists>p. bs = p @ snd (readTable bs)) \<and>
   (\<exists>p. bs = p @ snd (readArray bs))"
  using fuel_ok_top [of bs] suffix_readerD [OF suffix_top(1), of bs] suffix_readerD [OF suffix_top(2), of bs]
    suffix_readerD [OF suffix_top(3), of bs]
  by (auto simp: fuel_ok_def prod_eq_iff)

text \<open>A short string is cut, not rejected: \<^verbatim>\<open>writeShortstr\<close> writes the length modulo 256
  and that many bytes, so the reader gets the first bytes of the string, and a string of 256 bytes
  comes back empty.\<close>

theorem shortstr_truncates:
  "readShortstr (writeShortstr s @ r) = (Inr (take (length s mod 256) s), r)"
proof -
  have "unat (word_of_nat (length s) :: u8) = length s mod 256"
    by (simp add: unat_of_nat)
  moreover have "take n (bytes_of_string s) = bytes_of_string (take n s)" for n
    by (simp add: bytes_of_string_def take_map)
  moreover have "length s mod 256 \<le> length s" by (rule mod_less_eq_dividend)
  ultimately show ?thesis
    by (simp add: writeShortstr_def readShortstr_def Let_def decode rret_def)
qed

text \<open>A byte-array field whose length has the top bit set makes \<^verbatim>\<open>readField\<close> panic: the
  length is read as an int32 and handed to \<^verbatim>\<open>make\<close>. Any client can send one.\<close>

theorem bytes_field_panics:
  assumes "2 ^ 31 \<le> unat (len :: u32)"
  shows "fst (readField (byte_of_char CHR ''x'' # to_be 4 len @ r)) = Inl PanicMakeslice"
proof -
  have "unat len div 2 ^ 31 = 1"
    using assms unsigned_less [of len, where ?'a = nat] by (intro div_nat_eqI) simp_all
  then have "bit (unat len) 31"
    by (simp add: bit_iff_odd)
  then have "bit len (LENGTH(32) - Suc 0)"
    by (simp add: bit_unsigned_iff)
  then have "sint len < 0"
    by (simp only: bit_last_iff)
  then show ?thesis
    using readFieldF_tag [of "6 + length r" "CHR ''x''" "to_be 4 len @ r"]
    by (simp add: readField_def readBytes_def rbind_assoc decode) (simp add: rbind_def rfail_def)
qed

theorem bytes_field_panics_witness:
  "fst (readField (byte_of_char CHR ''x'' # to_be 4 (0x80000000 :: u32) @ [])) = Inl PanicMakeslice"
  by (rule bytes_field_panics) simp

end
