(* ===== verification/Amqp_Messages.thy ===== *)
theory Amqp_Messages
  imports Amqp_Wire
begin

unbundle bit_operations_syntax

text \<open>
  The messages (methods) of AMQP 0-9-1: \<^verbatim>\<open>src/amqp091/spec091.go\<close>. One
  constructor per message struct, its arguments the struct's fields in their order; for every
  message its \<^verbatim>\<open>Write\<close> and \<^verbatim>\<open>Read\<close> method; and
  \<^verbatim>\<open>ParseMethodFrame\<close>, which reads the class and method numbers and then the
  arguments of the message they name. The writers and readers are collected in
  \<open>msg_write\<close> and \<open>msg_read\<close>, over which the round trip of all messages is one proof.
\<close>

section \<open>Content properties and Go maps that may be nil\<close>

text \<open>A \<^verbatim>\<open>Table\<close> variable: \<open>None\<close> is the nil map, which is written as an empty table.\<close>

type_synonym gotable = "table option"

definition entries :: "gotable \<Rightarrow> table" where
  "entries t = (case t of None \<Rightarrow> [] | Some es \<Rightarrow> es)"

definition writeGoTable :: "gotable \<Rightarrow> write_error + bytes" where
  "writeGoTable t = writeTable (entries t)"

text \<open>\<^verbatim>\<open>amqp091.Properties\<close>.\<close>

record properties =
  ContentType :: string
  ContentEncoding :: string
  Headers :: gotable
  DeliveryMode :: u8
  Priority :: u8
  CorrelationId :: string
  ReplyTo :: string
  Expiration :: string
  MessageId :: string
  Timestamp :: gotime
  Type :: string
  UserId :: string
  AppId :: string
  Reserved1 :: string

text \<open>The zero value of the struct.\<close>

definition no_properties :: properties where
  "no_properties = \<lparr>ContentType = [], ContentEncoding = [], Headers = None, DeliveryMode = 0,
     Priority = 0, CorrelationId = [], ReplyTo = [], Expiration = [], MessageId = [],
     Timestamp = zero_time, Type = [], UserId = [], AppId = [], Reserved1 = []\<rparr>"

section \<open>The messages\<close>

datatype (plugins only: code) message =
    ConnectionStart u8 u8 gotable string string
  | ConnectionStartOk gotable string string string
  | ConnectionSecure string
  | ConnectionSecureOk string
  | ConnectionTune u16 u32 u16
  | ConnectionTuneOk u16 u32 u16
  | ConnectionOpen string string bool
  | ConnectionOpenOk string
  | ConnectionClose u16 string u16 u16
  | ConnectionCloseOk
  | ConnectionBlocked string
  | ConnectionUnblocked
  | ConnectionUpdateSecret string string
  | ConnectionUpdateSecretOk
  | ChannelOpen string
  | ChannelOpenOk string
  | ChannelFlow bool
  | ChannelFlowOk bool
  | ChannelClose u16 string u16 u16
  | ChannelCloseOk
  | ExchangeDeclare u16 string string bool bool bool bool bool gotable
  | ExchangeDeclareOk
  | ExchangeDelete u16 string bool bool
  | ExchangeDeleteOk
  | ExchangeBind u16 string string string bool gotable
  | ExchangeBindOk
  | ExchangeUnbind u16 string string string bool gotable
  | ExchangeUnbindOk
  | QueueDeclare u16 string bool bool bool bool bool gotable
  | QueueDeclareOk string u32 u32
  | QueueBind u16 string string string bool gotable
  | QueueBindOk
  | QueueUnbind u16 string string string gotable
  | QueueUnbindOk
  | QueuePurge u16 string bool
  | QueuePurgeOk u32
  | QueueDelete u16 string bool bool bool
  | QueueDeleteOk u32
  | BasicQos u32 u16 bool
  | BasicQosOk
  | BasicConsume u16 string string bool bool bool bool gotable
  | BasicConsumeOk string
  | BasicCancel string bool
  | BasicCancelOk string
  | BasicPublish u16 string string bool bool properties bytes
  | BasicReturn u16 string string string properties bytes
  | BasicDeliver string u64 bool string string properties bytes
  | BasicGet u16 string bool
  | BasicGetOk u64 bool string string u32 properties bytes
  | BasicGetEmpty string
  | BasicAck u64 bool
  | BasicReject u64 bool
  | BasicRecoverAsync bool
  | BasicRecover bool
  | BasicRecoverOk
  | BasicNack u64 bool bool
  | TxSelect
  | TxSelectOk
  | TxCommit
  | TxCommitOk
  | TxRollback
  | TxRollbackOk
  | ConfirmSelect bool
  | ConfirmSelectOk

section \<open>Flag octets and sequences of writes\<close>

text \<open>
  \<^verbatim>\<open>bits |= 1 << i\<close> for each flag in order, and \<^verbatim>\<open>bits & (1 << i) > 0\<close>.
\<close>

definition pack_bits :: "bool list \<Rightarrow> u8" where
  "pack_bits fs = foldl (\<lambda>bits (i, f). if f then bits OR push_bit i 1 else bits) 0 (enumerate 0 fs)"

definition has_bit :: "nat \<Rightarrow> u8 \<Rightarrow> bool" where
  "has_bit i bits \<longleftrightarrow> bits AND push_bit i 1 > 0"

text \<open>Writes to one buffer, given up at the first error.\<close>

fun wconcat :: "(write_error + bytes) list \<Rightarrow> write_error + bytes" where
  "wconcat [] = Inr []"
| "wconcat (w # ws) =
     (case w of Inl e \<Rightarrow> Inl e
      | Inr b \<Rightarrow> (case wconcat ws of Inl e \<Rightarrow> Inl e | Inr bs \<Rightarrow> Inr (b @ bs)))"

named_theorems msg_write \<open>the Write methods of the messages\<close>
named_theorems msg_read \<open>the Read methods of the messages\<close>

section \<open>Connection messages\<close>

definition ConnectionStart_Write :: "u8 \<Rightarrow> u8 \<Rightarrow> gotable \<Rightarrow> string \<Rightarrow> string \<Rightarrow> write_error + bytes" where
  [msg_write]: "ConnectionStart_Write VersionMajor VersionMinor ServerProperties Mechanisms Locales =
     wconcat [Inr (to_be 1 VersionMajor), Inr (to_be 1 VersionMinor), writeGoTable
     ServerProperties, Inr (writeLongstr Mechanisms), Inr (writeLongstr Locales)]"

definition ConnectionStart_Read :: "message reader" where
  [msg_read]: "ConnectionStart_Read = rbind read_u8 (\<lambda>VersionMajor. rbind read_u8
     (\<lambda>VersionMinor. rbind readTable (\<lambda>ServerProperties. rbind readLongstr
     (\<lambda>Mechanisms. rbind readLongstr (\<lambda>Locales. rret (ConnectionStart
     VersionMajor VersionMinor (Some ServerProperties) Mechanisms Locales))))))"

definition ConnectionStartOk_Write :: "gotable \<Rightarrow> string \<Rightarrow> string \<Rightarrow> string \<Rightarrow> write_error + bytes" where
  [msg_write]: "ConnectionStartOk_Write ClientProperties Mechanism Response Locale = wconcat
     [writeGoTable ClientProperties, Inr (writeShortstr Mechanism), Inr (writeLongstr
     Response), Inr (writeShortstr Locale)]"

definition ConnectionStartOk_Read :: "message reader" where
  [msg_read]: "ConnectionStartOk_Read = rbind readTable (\<lambda>ClientProperties. rbind readShortstr
     (\<lambda>Mechanism. rbind readLongstr (\<lambda>Response. rbind readShortstr
     (\<lambda>Locale. rret (ConnectionStartOk (Some ClientProperties) Mechanism Response
     Locale)))))"

definition ConnectionSecure_Write :: "string \<Rightarrow> write_error + bytes" where
  [msg_write]: "ConnectionSecure_Write Challenge = wconcat [Inr (writeLongstr Challenge)]"

definition ConnectionSecure_Read :: "message reader" where
  [msg_read]: "ConnectionSecure_Read = rbind readLongstr (\<lambda>Challenge. rret (ConnectionSecure
     Challenge))"

definition ConnectionSecureOk_Write :: "string \<Rightarrow> write_error + bytes" where
  [msg_write]: "ConnectionSecureOk_Write Response = wconcat [Inr (writeLongstr Response)]"

definition ConnectionSecureOk_Read :: "message reader" where
  [msg_read]: "ConnectionSecureOk_Read = rbind readLongstr (\<lambda>Response. rret (ConnectionSecureOk
     Response))"

definition ConnectionTune_Write :: "u16 \<Rightarrow> u32 \<Rightarrow> u16 \<Rightarrow> write_error + bytes" where
  [msg_write]: "ConnectionTune_Write ChannelMax FrameMax Heartbeat = wconcat [Inr (to_be 2 ChannelMax),
     Inr (to_be 4 FrameMax), Inr (to_be 2 Heartbeat)]"

definition ConnectionTune_Read :: "message reader" where
  [msg_read]: "ConnectionTune_Read = rbind read_u16 (\<lambda>ChannelMax. rbind read_u32
     (\<lambda>FrameMax. rbind read_u16 (\<lambda>Heartbeat. rret (ConnectionTune ChannelMax
     FrameMax Heartbeat))))"

definition ConnectionTuneOk_Write :: "u16 \<Rightarrow> u32 \<Rightarrow> u16 \<Rightarrow> write_error + bytes" where
  [msg_write]: "ConnectionTuneOk_Write ChannelMax FrameMax Heartbeat = wconcat [Inr (to_be 2 ChannelMax),
     Inr (to_be 4 FrameMax), Inr (to_be 2 Heartbeat)]"

definition ConnectionTuneOk_Read :: "message reader" where
  [msg_read]: "ConnectionTuneOk_Read = rbind read_u16 (\<lambda>ChannelMax. rbind read_u32
     (\<lambda>FrameMax. rbind read_u16 (\<lambda>Heartbeat. rret (ConnectionTuneOk ChannelMax
     FrameMax Heartbeat))))"

definition ConnectionOpen_Write :: "string \<Rightarrow> string \<Rightarrow> bool \<Rightarrow> write_error + bytes" where
  [msg_write]: "ConnectionOpen_Write VirtualHost reserved1 reserved2 = wconcat [Inr (writeShortstr
     VirtualHost), Inr (writeShortstr reserved1), Inr [pack_bits [reserved2]]]"

definition ConnectionOpen_Read :: "message reader" where
  [msg_read]: "ConnectionOpen_Read = rbind readShortstr (\<lambda>VirtualHost. rbind readShortstr
     (\<lambda>reserved1. rbind read_u8 (\<lambda>bits. rret (ConnectionOpen VirtualHost
     reserved1 (has_bit 0 bits)))))"

definition ConnectionOpenOk_Write :: "string \<Rightarrow> write_error + bytes" where
  [msg_write]: "ConnectionOpenOk_Write reserved1 = wconcat [Inr (writeShortstr reserved1)]"

definition ConnectionOpenOk_Read :: "message reader" where
  [msg_read]: "ConnectionOpenOk_Read = rbind readShortstr (\<lambda>reserved1. rret (ConnectionOpenOk
     reserved1))"

definition ConnectionClose_Write :: "u16 \<Rightarrow> string \<Rightarrow> u16 \<Rightarrow> u16 \<Rightarrow> write_error + bytes" where
  [msg_write]: "ConnectionClose_Write ReplyCode ReplyText ClassId MethodId = wconcat [Inr (to_be 2
     ReplyCode), Inr (writeShortstr ReplyText), Inr (to_be 2 ClassId), Inr (to_be 2
     MethodId)]"

definition ConnectionClose_Read :: "message reader" where
  [msg_read]: "ConnectionClose_Read = rbind read_u16 (\<lambda>ReplyCode. rbind readShortstr
     (\<lambda>ReplyText. rbind read_u16 (\<lambda>ClassId. rbind read_u16 (\<lambda>MethodId.
     rret (ConnectionClose ReplyCode ReplyText ClassId MethodId)))))"

definition ConnectionCloseOk_Write :: "write_error + bytes" where
  [msg_write]: "ConnectionCloseOk_Write = wconcat []"

definition ConnectionCloseOk_Read :: "message reader" where
  [msg_read]: "ConnectionCloseOk_Read = rret ConnectionCloseOk"

definition ConnectionBlocked_Write :: "string \<Rightarrow> write_error + bytes" where
  [msg_write]: "ConnectionBlocked_Write Reason = wconcat [Inr (writeShortstr Reason)]"

definition ConnectionBlocked_Read :: "message reader" where
  [msg_read]: "ConnectionBlocked_Read = rbind readShortstr (\<lambda>Reason. rret (ConnectionBlocked
     Reason))"

definition ConnectionUnblocked_Write :: "write_error + bytes" where
  [msg_write]: "ConnectionUnblocked_Write = wconcat []"

definition ConnectionUnblocked_Read :: "message reader" where
  [msg_read]: "ConnectionUnblocked_Read = rret ConnectionUnblocked"

definition ConnectionUpdateSecret_Write :: "string \<Rightarrow> string \<Rightarrow> write_error + bytes" where
  [msg_write]: "ConnectionUpdateSecret_Write NewSecret Reason = wconcat [Inr (writeLongstr NewSecret),
     Inr (writeShortstr Reason)]"

definition ConnectionUpdateSecret_Read :: "message reader" where
  [msg_read]: "ConnectionUpdateSecret_Read = rbind readLongstr (\<lambda>NewSecret. rbind readShortstr
     (\<lambda>Reason. rret (ConnectionUpdateSecret NewSecret Reason)))"

definition ConnectionUpdateSecretOk_Write :: "write_error + bytes" where
  [msg_write]: "ConnectionUpdateSecretOk_Write = wconcat []"

definition ConnectionUpdateSecretOk_Read :: "message reader" where
  [msg_read]: "ConnectionUpdateSecretOk_Read = rret ConnectionUpdateSecretOk"

section \<open>Channel messages\<close>

definition ChannelOpen_Write :: "string \<Rightarrow> write_error + bytes" where
  [msg_write]: "ChannelOpen_Write reserved1 = wconcat [Inr (writeShortstr reserved1)]"

definition ChannelOpen_Read :: "message reader" where
  [msg_read]: "ChannelOpen_Read = rbind readShortstr (\<lambda>reserved1. rret (ChannelOpen reserved1))"

definition ChannelOpenOk_Write :: "string \<Rightarrow> write_error + bytes" where
  [msg_write]: "ChannelOpenOk_Write reserved1 = wconcat [Inr (writeLongstr reserved1)]"

definition ChannelOpenOk_Read :: "message reader" where
  [msg_read]: "ChannelOpenOk_Read = rbind readLongstr (\<lambda>reserved1. rret (ChannelOpenOk
     reserved1))"

definition ChannelFlow_Write :: "bool \<Rightarrow> write_error + bytes" where
  [msg_write]: "ChannelFlow_Write Active = wconcat [Inr [pack_bits [Active]]]"

definition ChannelFlow_Read :: "message reader" where
  [msg_read]: "ChannelFlow_Read = rbind read_u8 (\<lambda>bits. rret (ChannelFlow (has_bit 0 bits)))"

definition ChannelFlowOk_Write :: "bool \<Rightarrow> write_error + bytes" where
  [msg_write]: "ChannelFlowOk_Write Active = wconcat [Inr [pack_bits [Active]]]"

definition ChannelFlowOk_Read :: "message reader" where
  [msg_read]: "ChannelFlowOk_Read = rbind read_u8 (\<lambda>bits. rret (ChannelFlowOk (has_bit 0
     bits)))"

definition ChannelClose_Write :: "u16 \<Rightarrow> string \<Rightarrow> u16 \<Rightarrow> u16 \<Rightarrow> write_error + bytes" where
  [msg_write]: "ChannelClose_Write ReplyCode ReplyText ClassId MethodId = wconcat [Inr (to_be 2
     ReplyCode), Inr (writeShortstr ReplyText), Inr (to_be 2 ClassId), Inr (to_be 2
     MethodId)]"

definition ChannelClose_Read :: "message reader" where
  [msg_read]: "ChannelClose_Read = rbind read_u16 (\<lambda>ReplyCode. rbind readShortstr
     (\<lambda>ReplyText. rbind read_u16 (\<lambda>ClassId. rbind read_u16 (\<lambda>MethodId.
     rret (ChannelClose ReplyCode ReplyText ClassId MethodId)))))"

definition ChannelCloseOk_Write :: "write_error + bytes" where
  [msg_write]: "ChannelCloseOk_Write = wconcat []"

definition ChannelCloseOk_Read :: "message reader" where
  [msg_read]: "ChannelCloseOk_Read = rret ChannelCloseOk"

section \<open>Exchange messages\<close>

definition ExchangeDeclare_Write :: "u16 \<Rightarrow> string \<Rightarrow> string \<Rightarrow> bool \<Rightarrow> bool \<Rightarrow> bool \<Rightarrow> bool \<Rightarrow> bool \<Rightarrow> gotable \<Rightarrow> write_error + bytes" where
  [msg_write]: "ExchangeDeclare_Write reserved1 Exchange Kind Passive Durable AutoDelete Internal NoWait
     Arguments = wconcat [Inr (to_be 2 reserved1), Inr (writeShortstr Exchange), Inr
     (writeShortstr Kind), Inr [pack_bits [Passive, Durable, AutoDelete, Internal, NoWait]],
     writeGoTable Arguments]"

definition ExchangeDeclare_Read :: "message reader" where
  [msg_read]: "ExchangeDeclare_Read = rbind read_u16 (\<lambda>reserved1. rbind readShortstr
     (\<lambda>Exchange. rbind readShortstr (\<lambda>Kind. rbind read_u8 (\<lambda>bits.
     rbind readTable (\<lambda>Arguments. rret (ExchangeDeclare reserved1 Exchange Kind
     (has_bit 0 bits) (has_bit 1 bits) (has_bit 2 bits) (has_bit 3 bits) (has_bit 4 bits)
     (Some Arguments)))))))"

definition ExchangeDeclareOk_Write :: "write_error + bytes" where
  [msg_write]: "ExchangeDeclareOk_Write = wconcat []"

definition ExchangeDeclareOk_Read :: "message reader" where
  [msg_read]: "ExchangeDeclareOk_Read = rret ExchangeDeclareOk"

definition ExchangeDelete_Write :: "u16 \<Rightarrow> string \<Rightarrow> bool \<Rightarrow> bool \<Rightarrow> write_error + bytes" where
  [msg_write]: "ExchangeDelete_Write reserved1 Exchange IfUnused NoWait = wconcat [Inr (to_be 2
     reserved1), Inr (writeShortstr Exchange), Inr [pack_bits [IfUnused, NoWait]]]"

definition ExchangeDelete_Read :: "message reader" where
  [msg_read]: "ExchangeDelete_Read = rbind read_u16 (\<lambda>reserved1. rbind readShortstr
     (\<lambda>Exchange. rbind read_u8 (\<lambda>bits. rret (ExchangeDelete reserved1 Exchange
     (has_bit 0 bits) (has_bit 1 bits)))))"

definition ExchangeDeleteOk_Write :: "write_error + bytes" where
  [msg_write]: "ExchangeDeleteOk_Write = wconcat []"

definition ExchangeDeleteOk_Read :: "message reader" where
  [msg_read]: "ExchangeDeleteOk_Read = rret ExchangeDeleteOk"

definition ExchangeBind_Write :: "u16 \<Rightarrow> string \<Rightarrow> string \<Rightarrow> string \<Rightarrow> bool \<Rightarrow> gotable \<Rightarrow> write_error + bytes" where
  [msg_write]: "ExchangeBind_Write reserved1 Destination Source RoutingKey NoWait Arguments = wconcat
     [Inr (to_be 2 reserved1), Inr (writeShortstr Destination), Inr (writeShortstr Source),
     Inr (writeShortstr RoutingKey), Inr [pack_bits [NoWait]], writeGoTable Arguments]"

definition ExchangeBind_Read :: "message reader" where
  [msg_read]: "ExchangeBind_Read = rbind read_u16 (\<lambda>reserved1. rbind readShortstr
     (\<lambda>Destination. rbind readShortstr (\<lambda>Source. rbind readShortstr
     (\<lambda>RoutingKey. rbind read_u8 (\<lambda>bits. rbind readTable (\<lambda>Arguments.
     rret (ExchangeBind reserved1 Destination Source RoutingKey (has_bit 0 bits) (Some
     Arguments))))))))"

definition ExchangeBindOk_Write :: "write_error + bytes" where
  [msg_write]: "ExchangeBindOk_Write = wconcat []"

definition ExchangeBindOk_Read :: "message reader" where
  [msg_read]: "ExchangeBindOk_Read = rret ExchangeBindOk"

definition ExchangeUnbind_Write :: "u16 \<Rightarrow> string \<Rightarrow> string \<Rightarrow> string \<Rightarrow> bool \<Rightarrow> gotable \<Rightarrow> write_error + bytes" where
  [msg_write]: "ExchangeUnbind_Write reserved1 Destination Source RoutingKey NoWait Arguments = wconcat
     [Inr (to_be 2 reserved1), Inr (writeShortstr Destination), Inr (writeShortstr Source),
     Inr (writeShortstr RoutingKey), Inr [pack_bits [NoWait]], writeGoTable Arguments]"

definition ExchangeUnbind_Read :: "message reader" where
  [msg_read]: "ExchangeUnbind_Read = rbind read_u16 (\<lambda>reserved1. rbind readShortstr
     (\<lambda>Destination. rbind readShortstr (\<lambda>Source. rbind readShortstr
     (\<lambda>RoutingKey. rbind read_u8 (\<lambda>bits. rbind readTable (\<lambda>Arguments.
     rret (ExchangeUnbind reserved1 Destination Source RoutingKey (has_bit 0 bits) (Some
     Arguments))))))))"

definition ExchangeUnbindOk_Write :: "write_error + bytes" where
  [msg_write]: "ExchangeUnbindOk_Write = wconcat []"

definition ExchangeUnbindOk_Read :: "message reader" where
  [msg_read]: "ExchangeUnbindOk_Read = rret ExchangeUnbindOk"

section \<open>Queue messages\<close>

definition QueueDeclare_Write :: "u16 \<Rightarrow> string \<Rightarrow> bool \<Rightarrow> bool \<Rightarrow> bool \<Rightarrow> bool \<Rightarrow> bool \<Rightarrow> gotable \<Rightarrow> write_error + bytes" where
  [msg_write]: "QueueDeclare_Write reserved1 Queue Passive Durable Exclusive AutoDelete NoWait Arguments
     = wconcat [Inr (to_be 2 reserved1), Inr (writeShortstr Queue), Inr [pack_bits [Passive,
     Durable, Exclusive, AutoDelete, NoWait]], writeGoTable Arguments]"

definition QueueDeclare_Read :: "message reader" where
  [msg_read]: "QueueDeclare_Read = rbind read_u16 (\<lambda>reserved1. rbind readShortstr
     (\<lambda>Queue. rbind read_u8 (\<lambda>bits. rbind readTable (\<lambda>Arguments. rret
     (QueueDeclare reserved1 Queue (has_bit 0 bits) (has_bit 1 bits) (has_bit 2 bits) (has_bit
     3 bits) (has_bit 4 bits) (Some Arguments))))))"

definition QueueDeclareOk_Write :: "string \<Rightarrow> u32 \<Rightarrow> u32 \<Rightarrow> write_error + bytes" where
  [msg_write]: "QueueDeclareOk_Write Queue MessageCount ConsumerCount = wconcat [Inr (writeShortstr
     Queue), Inr (to_be 4 MessageCount), Inr (to_be 4 ConsumerCount)]"

definition QueueDeclareOk_Read :: "message reader" where
  [msg_read]: "QueueDeclareOk_Read = rbind readShortstr (\<lambda>Queue. rbind read_u32
     (\<lambda>MessageCount. rbind read_u32 (\<lambda>ConsumerCount. rret (QueueDeclareOk
     Queue MessageCount ConsumerCount))))"

definition QueueBind_Write :: "u16 \<Rightarrow> string \<Rightarrow> string \<Rightarrow> string \<Rightarrow> bool \<Rightarrow> gotable \<Rightarrow> write_error + bytes" where
  [msg_write]: "QueueBind_Write reserved1 Queue Exchange RoutingKey NoWait Arguments = wconcat [Inr
     (to_be 2 reserved1), Inr (writeShortstr Queue), Inr (writeShortstr Exchange), Inr
     (writeShortstr RoutingKey), Inr [pack_bits [NoWait]], writeGoTable Arguments]"

definition QueueBind_Read :: "message reader" where
  [msg_read]: "QueueBind_Read = rbind read_u16 (\<lambda>reserved1. rbind readShortstr (\<lambda>Queue.
     rbind readShortstr (\<lambda>Exchange. rbind readShortstr (\<lambda>RoutingKey. rbind
     read_u8 (\<lambda>bits. rbind readTable (\<lambda>Arguments. rret (QueueBind reserved1
     Queue Exchange RoutingKey (has_bit 0 bits) (Some Arguments))))))))"

definition QueueBindOk_Write :: "write_error + bytes" where
  [msg_write]: "QueueBindOk_Write = wconcat []"

definition QueueBindOk_Read :: "message reader" where
  [msg_read]: "QueueBindOk_Read = rret QueueBindOk"

definition QueueUnbind_Write :: "u16 \<Rightarrow> string \<Rightarrow> string \<Rightarrow> string \<Rightarrow> gotable \<Rightarrow> write_error + bytes" where
  [msg_write]: "QueueUnbind_Write reserved1 Queue Exchange RoutingKey Arguments = wconcat [Inr (to_be 2
     reserved1), Inr (writeShortstr Queue), Inr (writeShortstr Exchange), Inr (writeShortstr
     RoutingKey), writeGoTable Arguments]"

definition QueueUnbind_Read :: "message reader" where
  [msg_read]: "QueueUnbind_Read = rbind read_u16 (\<lambda>reserved1. rbind readShortstr
     (\<lambda>Queue. rbind readShortstr (\<lambda>Exchange. rbind readShortstr
     (\<lambda>RoutingKey. rbind readTable (\<lambda>Arguments. rret (QueueUnbind reserved1
     Queue Exchange RoutingKey (Some Arguments)))))))"

definition QueueUnbindOk_Write :: "write_error + bytes" where
  [msg_write]: "QueueUnbindOk_Write = wconcat []"

definition QueueUnbindOk_Read :: "message reader" where
  [msg_read]: "QueueUnbindOk_Read = rret QueueUnbindOk"

definition QueuePurge_Write :: "u16 \<Rightarrow> string \<Rightarrow> bool \<Rightarrow> write_error + bytes" where
  [msg_write]: "QueuePurge_Write reserved1 Queue NoWait = wconcat [Inr (to_be 2 reserved1), Inr
     (writeShortstr Queue), Inr [pack_bits [NoWait]]]"

definition QueuePurge_Read :: "message reader" where
  [msg_read]: "QueuePurge_Read = rbind read_u16 (\<lambda>reserved1. rbind readShortstr (\<lambda>Queue.
     rbind read_u8 (\<lambda>bits. rret (QueuePurge reserved1 Queue (has_bit 0 bits)))))"

definition QueuePurgeOk_Write :: "u32 \<Rightarrow> write_error + bytes" where
  [msg_write]: "QueuePurgeOk_Write MessageCount = wconcat [Inr (to_be 4 MessageCount)]"

definition QueuePurgeOk_Read :: "message reader" where
  [msg_read]: "QueuePurgeOk_Read = rbind read_u32 (\<lambda>MessageCount. rret (QueuePurgeOk
     MessageCount))"

definition QueueDelete_Write :: "u16 \<Rightarrow> string \<Rightarrow> bool \<Rightarrow> bool \<Rightarrow> bool \<Rightarrow> write_error + bytes" where
  [msg_write]: "QueueDelete_Write reserved1 Queue IfUnused IfEmpty NoWait = wconcat [Inr (to_be 2
     reserved1), Inr (writeShortstr Queue), Inr [pack_bits [IfUnused, IfEmpty, NoWait]]]"

definition QueueDelete_Read :: "message reader" where
  [msg_read]: "QueueDelete_Read = rbind read_u16 (\<lambda>reserved1. rbind readShortstr
     (\<lambda>Queue. rbind read_u8 (\<lambda>bits. rret (QueueDelete reserved1 Queue (has_bit
     0 bits) (has_bit 1 bits) (has_bit 2 bits)))))"

definition QueueDeleteOk_Write :: "u32 \<Rightarrow> write_error + bytes" where
  [msg_write]: "QueueDeleteOk_Write MessageCount = wconcat [Inr (to_be 4 MessageCount)]"

definition QueueDeleteOk_Read :: "message reader" where
  [msg_read]: "QueueDeleteOk_Read = rbind read_u32 (\<lambda>MessageCount. rret (QueueDeleteOk
     MessageCount))"

section \<open>Basic messages\<close>

definition BasicQos_Write :: "u32 \<Rightarrow> u16 \<Rightarrow> bool \<Rightarrow> write_error + bytes" where
  [msg_write]: "BasicQos_Write PrefetchSize PrefetchCount Global = wconcat [Inr (to_be 4 PrefetchSize),
     Inr (to_be 2 PrefetchCount), Inr [pack_bits [Global]]]"

definition BasicQos_Read :: "message reader" where
  [msg_read]: "BasicQos_Read = rbind read_u32 (\<lambda>PrefetchSize. rbind read_u16
     (\<lambda>PrefetchCount. rbind read_u8 (\<lambda>bits. rret (BasicQos PrefetchSize
     PrefetchCount (has_bit 0 bits)))))"

definition BasicQosOk_Write :: "write_error + bytes" where
  [msg_write]: "BasicQosOk_Write = wconcat []"

definition BasicQosOk_Read :: "message reader" where
  [msg_read]: "BasicQosOk_Read = rret BasicQosOk"

definition BasicConsume_Write :: "u16 \<Rightarrow> string \<Rightarrow> string \<Rightarrow> bool \<Rightarrow> bool \<Rightarrow> bool \<Rightarrow> bool \<Rightarrow> gotable \<Rightarrow> write_error + bytes" where
  [msg_write]: "BasicConsume_Write reserved1 Queue ConsumerTag NoLocal NoAck Exclusive NoWait Arguments =
     wconcat [Inr (to_be 2 reserved1), Inr (writeShortstr Queue), Inr (writeShortstr
     ConsumerTag), Inr [pack_bits [NoLocal, NoAck, Exclusive, NoWait]], writeGoTable
     Arguments]"

definition BasicConsume_Read :: "message reader" where
  [msg_read]: "BasicConsume_Read = rbind read_u16 (\<lambda>reserved1. rbind readShortstr
     (\<lambda>Queue. rbind readShortstr (\<lambda>ConsumerTag. rbind read_u8 (\<lambda>bits.
     rbind readTable (\<lambda>Arguments. rret (BasicConsume reserved1 Queue ConsumerTag
     (has_bit 0 bits) (has_bit 1 bits) (has_bit 2 bits) (has_bit 3 bits) (Some
     Arguments)))))))"

definition BasicConsumeOk_Write :: "string \<Rightarrow> write_error + bytes" where
  [msg_write]: "BasicConsumeOk_Write ConsumerTag = wconcat [Inr (writeShortstr ConsumerTag)]"

definition BasicConsumeOk_Read :: "message reader" where
  [msg_read]: "BasicConsumeOk_Read = rbind readShortstr (\<lambda>ConsumerTag. rret (BasicConsumeOk
     ConsumerTag))"

definition BasicCancel_Write :: "string \<Rightarrow> bool \<Rightarrow> write_error + bytes" where
  [msg_write]: "BasicCancel_Write ConsumerTag NoWait = wconcat [Inr (writeShortstr ConsumerTag), Inr
     [pack_bits [NoWait]]]"

definition BasicCancel_Read :: "message reader" where
  [msg_read]: "BasicCancel_Read = rbind readShortstr (\<lambda>ConsumerTag. rbind read_u8
     (\<lambda>bits. rret (BasicCancel ConsumerTag (has_bit 0 bits))))"

definition BasicCancelOk_Write :: "string \<Rightarrow> write_error + bytes" where
  [msg_write]: "BasicCancelOk_Write ConsumerTag = wconcat [Inr (writeShortstr ConsumerTag)]"

definition BasicCancelOk_Read :: "message reader" where
  [msg_read]: "BasicCancelOk_Read = rbind readShortstr (\<lambda>ConsumerTag. rret (BasicCancelOk
     ConsumerTag))"

definition BasicPublish_Write :: "u16 \<Rightarrow> string \<Rightarrow> string \<Rightarrow> bool \<Rightarrow> bool \<Rightarrow> write_error + bytes" where
  [msg_write]: "BasicPublish_Write reserved1 Exchange RoutingKey Mandatory Immediate = wconcat [Inr
     (to_be 2 reserved1), Inr (writeShortstr Exchange), Inr (writeShortstr RoutingKey), Inr
     [pack_bits [Mandatory, Immediate]]]"

definition BasicPublish_Read :: "message reader" where
  [msg_read]: "BasicPublish_Read = rbind read_u16 (\<lambda>reserved1. rbind readShortstr
     (\<lambda>Exchange. rbind readShortstr (\<lambda>RoutingKey. rbind read_u8
     (\<lambda>bits. rret (BasicPublish reserved1 Exchange RoutingKey (has_bit 0 bits)
     (has_bit 1 bits) no_properties [])))))"

definition BasicReturn_Write :: "u16 \<Rightarrow> string \<Rightarrow> string \<Rightarrow> string \<Rightarrow> write_error + bytes" where
  [msg_write]: "BasicReturn_Write ReplyCode ReplyText Exchange RoutingKey = wconcat [Inr (to_be 2
     ReplyCode), Inr (writeShortstr ReplyText), Inr (writeShortstr Exchange), Inr
     (writeShortstr RoutingKey)]"

definition BasicReturn_Read :: "message reader" where
  [msg_read]: "BasicReturn_Read = rbind read_u16 (\<lambda>ReplyCode. rbind readShortstr
     (\<lambda>ReplyText. rbind readShortstr (\<lambda>Exchange. rbind readShortstr
     (\<lambda>RoutingKey. rret (BasicReturn ReplyCode ReplyText Exchange RoutingKey
     no_properties [])))))"

definition BasicDeliver_Write :: "string \<Rightarrow> u64 \<Rightarrow> bool \<Rightarrow> string \<Rightarrow> string \<Rightarrow> write_error + bytes" where
  [msg_write]: "BasicDeliver_Write ConsumerTag DeliveryTag Redelivered Exchange RoutingKey = wconcat [Inr
     (writeShortstr ConsumerTag), Inr (to_be 8 DeliveryTag), Inr [pack_bits [Redelivered]],
     Inr (writeShortstr Exchange), Inr (writeShortstr RoutingKey)]"

definition BasicDeliver_Read :: "message reader" where
  [msg_read]: "BasicDeliver_Read = rbind readShortstr (\<lambda>ConsumerTag. rbind read_u64
     (\<lambda>DeliveryTag. rbind read_u8 (\<lambda>bits. rbind readShortstr
     (\<lambda>Exchange. rbind readShortstr (\<lambda>RoutingKey. rret (BasicDeliver
     ConsumerTag DeliveryTag (has_bit 0 bits) Exchange RoutingKey no_properties []))))))"

definition BasicGet_Write :: "u16 \<Rightarrow> string \<Rightarrow> bool \<Rightarrow> write_error + bytes" where
  [msg_write]: "BasicGet_Write reserved1 Queue NoAck = wconcat [Inr (to_be 2 reserved1), Inr
     (writeShortstr Queue), Inr [pack_bits [NoAck]]]"

definition BasicGet_Read :: "message reader" where
  [msg_read]: "BasicGet_Read = rbind read_u16 (\<lambda>reserved1. rbind readShortstr (\<lambda>Queue.
     rbind read_u8 (\<lambda>bits. rret (BasicGet reserved1 Queue (has_bit 0 bits)))))"

definition BasicGetOk_Write :: "u64 \<Rightarrow> bool \<Rightarrow> string \<Rightarrow> string \<Rightarrow> u32 \<Rightarrow> write_error + bytes" where
  [msg_write]: "BasicGetOk_Write DeliveryTag Redelivered Exchange RoutingKey MessageCount = wconcat [Inr
     (to_be 8 DeliveryTag), Inr [pack_bits [Redelivered]], Inr (writeShortstr Exchange), Inr
     (writeShortstr RoutingKey), Inr (to_be 4 MessageCount)]"

definition BasicGetOk_Read :: "message reader" where
  [msg_read]: "BasicGetOk_Read = rbind read_u64 (\<lambda>DeliveryTag. rbind read_u8 (\<lambda>bits.
     rbind readShortstr (\<lambda>Exchange. rbind readShortstr (\<lambda>RoutingKey. rbind
     read_u32 (\<lambda>MessageCount. rret (BasicGetOk DeliveryTag (has_bit 0 bits) Exchange
     RoutingKey MessageCount no_properties []))))))"

definition BasicGetEmpty_Write :: "string \<Rightarrow> write_error + bytes" where
  [msg_write]: "BasicGetEmpty_Write reserved1 = wconcat [Inr (writeShortstr reserved1)]"

definition BasicGetEmpty_Read :: "message reader" where
  [msg_read]: "BasicGetEmpty_Read = rbind readShortstr (\<lambda>reserved1. rret (BasicGetEmpty
     reserved1))"

definition BasicAck_Write :: "u64 \<Rightarrow> bool \<Rightarrow> write_error + bytes" where
  [msg_write]: "BasicAck_Write DeliveryTag Multiple = wconcat [Inr (to_be 8 DeliveryTag), Inr [pack_bits
     [Multiple]]]"

definition BasicAck_Read :: "message reader" where
  [msg_read]: "BasicAck_Read = rbind read_u64 (\<lambda>DeliveryTag. rbind read_u8 (\<lambda>bits. rret
     (BasicAck DeliveryTag (has_bit 0 bits))))"

definition BasicReject_Write :: "u64 \<Rightarrow> bool \<Rightarrow> write_error + bytes" where
  [msg_write]: "BasicReject_Write DeliveryTag Requeue = wconcat [Inr (to_be 8 DeliveryTag), Inr
     [pack_bits [Requeue]]]"

definition BasicReject_Read :: "message reader" where
  [msg_read]: "BasicReject_Read = rbind read_u64 (\<lambda>DeliveryTag. rbind read_u8 (\<lambda>bits.
     rret (BasicReject DeliveryTag (has_bit 0 bits))))"

definition BasicRecoverAsync_Write :: "bool \<Rightarrow> write_error + bytes" where
  [msg_write]: "BasicRecoverAsync_Write Requeue = wconcat [Inr [pack_bits [Requeue]]]"

definition BasicRecoverAsync_Read :: "message reader" where
  [msg_read]: "BasicRecoverAsync_Read = rbind read_u8 (\<lambda>bits. rret (BasicRecoverAsync (has_bit 0
     bits)))"

definition BasicRecover_Write :: "bool \<Rightarrow> write_error + bytes" where
  [msg_write]: "BasicRecover_Write Requeue = wconcat [Inr [pack_bits [Requeue]]]"

definition BasicRecover_Read :: "message reader" where
  [msg_read]: "BasicRecover_Read = rbind read_u8 (\<lambda>bits. rret (BasicRecover (has_bit 0 bits)))"

definition BasicRecoverOk_Write :: "write_error + bytes" where
  [msg_write]: "BasicRecoverOk_Write = wconcat []"

definition BasicRecoverOk_Read :: "message reader" where
  [msg_read]: "BasicRecoverOk_Read = rret BasicRecoverOk"

definition BasicNack_Write :: "u64 \<Rightarrow> bool \<Rightarrow> bool \<Rightarrow> write_error + bytes" where
  [msg_write]: "BasicNack_Write DeliveryTag Multiple Requeue = wconcat [Inr (to_be 8 DeliveryTag), Inr
     [pack_bits [Multiple, Requeue]]]"

definition BasicNack_Read :: "message reader" where
  [msg_read]: "BasicNack_Read = rbind read_u64 (\<lambda>DeliveryTag. rbind read_u8 (\<lambda>bits. rret
     (BasicNack DeliveryTag (has_bit 0 bits) (has_bit 1 bits))))"

section \<open>Tx messages\<close>

definition TxSelect_Write :: "write_error + bytes" where
  [msg_write]: "TxSelect_Write = wconcat []"

definition TxSelect_Read :: "message reader" where
  [msg_read]: "TxSelect_Read = rret TxSelect"

definition TxSelectOk_Write :: "write_error + bytes" where
  [msg_write]: "TxSelectOk_Write = wconcat []"

definition TxSelectOk_Read :: "message reader" where
  [msg_read]: "TxSelectOk_Read = rret TxSelectOk"

definition TxCommit_Write :: "write_error + bytes" where
  [msg_write]: "TxCommit_Write = wconcat []"

definition TxCommit_Read :: "message reader" where
  [msg_read]: "TxCommit_Read = rret TxCommit"

definition TxCommitOk_Write :: "write_error + bytes" where
  [msg_write]: "TxCommitOk_Write = wconcat []"

definition TxCommitOk_Read :: "message reader" where
  [msg_read]: "TxCommitOk_Read = rret TxCommitOk"

definition TxRollback_Write :: "write_error + bytes" where
  [msg_write]: "TxRollback_Write = wconcat []"

definition TxRollback_Read :: "message reader" where
  [msg_read]: "TxRollback_Read = rret TxRollback"

definition TxRollbackOk_Write :: "write_error + bytes" where
  [msg_write]: "TxRollbackOk_Write = wconcat []"

definition TxRollbackOk_Read :: "message reader" where
  [msg_read]: "TxRollbackOk_Read = rret TxRollbackOk"

section \<open>Confirm messages\<close>

definition ConfirmSelect_Write :: "bool \<Rightarrow> write_error + bytes" where
  [msg_write]: "ConfirmSelect_Write Nowait = wconcat [Inr [pack_bits [Nowait]]]"

definition ConfirmSelect_Read :: "message reader" where
  [msg_read]: "ConfirmSelect_Read = rbind read_u8 (\<lambda>bits. rret (ConfirmSelect (has_bit 0
     bits)))"

definition ConfirmSelectOk_Write :: "write_error + bytes" where
  [msg_write]: "ConfirmSelectOk_Write = wconcat []"

definition ConfirmSelectOk_Read :: "message reader" where
  [msg_read]: "ConfirmSelectOk_Read = rret ConfirmSelectOk"

section \<open>All messages\<close>

text \<open>The class and method numbers: the \<^verbatim>\<open>ID\<close> methods.\<close>

primrec message_ID :: "message \<Rightarrow> u16 \<times> u16" where
  "message_ID (ConnectionStart VersionMajor VersionMinor ServerProperties Mechanisms Locales) = (10, 10)"
| "message_ID (ConnectionStartOk ClientProperties Mechanism Response Locale) = (10, 11)"
| "message_ID (ConnectionSecure Challenge) = (10, 20)"
| "message_ID (ConnectionSecureOk Response) = (10, 21)"
| "message_ID (ConnectionTune ChannelMax FrameMax Heartbeat) = (10, 30)"
| "message_ID (ConnectionTuneOk ChannelMax FrameMax Heartbeat) = (10, 31)"
| "message_ID (ConnectionOpen VirtualHost reserved1 reserved2) = (10, 40)"
| "message_ID (ConnectionOpenOk reserved1) = (10, 41)"
| "message_ID (ConnectionClose ReplyCode ReplyText ClassId MethodId) = (10, 50)"
| "message_ID ConnectionCloseOk = (10, 51)"
| "message_ID (ConnectionBlocked Reason) = (10, 60)"
| "message_ID ConnectionUnblocked = (10, 61)"
| "message_ID (ConnectionUpdateSecret NewSecret Reason) = (10, 70)"
| "message_ID ConnectionUpdateSecretOk = (10, 71)"
| "message_ID (ChannelOpen reserved1) = (20, 10)"
| "message_ID (ChannelOpenOk reserved1) = (20, 11)"
| "message_ID (ChannelFlow Active) = (20, 20)"
| "message_ID (ChannelFlowOk Active) = (20, 21)"
| "message_ID (ChannelClose ReplyCode ReplyText ClassId MethodId) = (20, 40)"
| "message_ID ChannelCloseOk = (20, 41)"
| "message_ID (ExchangeDeclare reserved1 Exchange Kind Passive Durable AutoDelete Internal NoWait Arguments) = (40, 10)"
| "message_ID ExchangeDeclareOk = (40, 11)"
| "message_ID (ExchangeDelete reserved1 Exchange IfUnused NoWait) = (40, 20)"
| "message_ID ExchangeDeleteOk = (40, 21)"
| "message_ID (ExchangeBind reserved1 Destination Source RoutingKey NoWait Arguments) = (40, 30)"
| "message_ID ExchangeBindOk = (40, 31)"
| "message_ID (ExchangeUnbind reserved1 Destination Source RoutingKey NoWait Arguments) = (40, 40)"
| "message_ID ExchangeUnbindOk = (40, 51)"
| "message_ID (QueueDeclare reserved1 Queue Passive Durable Exclusive AutoDelete NoWait Arguments) = (50, 10)"
| "message_ID (QueueDeclareOk Queue MessageCount ConsumerCount) = (50, 11)"
| "message_ID (QueueBind reserved1 Queue Exchange RoutingKey NoWait Arguments) = (50, 20)"
| "message_ID QueueBindOk = (50, 21)"
| "message_ID (QueueUnbind reserved1 Queue Exchange RoutingKey Arguments) = (50, 50)"
| "message_ID QueueUnbindOk = (50, 51)"
| "message_ID (QueuePurge reserved1 Queue NoWait) = (50, 30)"
| "message_ID (QueuePurgeOk MessageCount) = (50, 31)"
| "message_ID (QueueDelete reserved1 Queue IfUnused IfEmpty NoWait) = (50, 40)"
| "message_ID (QueueDeleteOk MessageCount) = (50, 41)"
| "message_ID (BasicQos PrefetchSize PrefetchCount Global) = (60, 10)"
| "message_ID BasicQosOk = (60, 11)"
| "message_ID (BasicConsume reserved1 Queue ConsumerTag NoLocal NoAck Exclusive NoWait Arguments) = (60, 20)"
| "message_ID (BasicConsumeOk ConsumerTag) = (60, 21)"
| "message_ID (BasicCancel ConsumerTag NoWait) = (60, 30)"
| "message_ID (BasicCancelOk ConsumerTag) = (60, 31)"
| "message_ID (BasicPublish reserved1 Exchange RoutingKey Mandatory Immediate Properties Body) = (60, 40)"
| "message_ID (BasicReturn ReplyCode ReplyText Exchange RoutingKey Properties Body) = (60, 50)"
| "message_ID (BasicDeliver ConsumerTag DeliveryTag Redelivered Exchange RoutingKey Properties Body) = (60, 60)"
| "message_ID (BasicGet reserved1 Queue NoAck) = (60, 70)"
| "message_ID (BasicGetOk DeliveryTag Redelivered Exchange RoutingKey MessageCount Properties Body) = (60, 71)"
| "message_ID (BasicGetEmpty reserved1) = (60, 72)"
| "message_ID (BasicAck DeliveryTag Multiple) = (60, 80)"
| "message_ID (BasicReject DeliveryTag Requeue) = (60, 90)"
| "message_ID (BasicRecoverAsync Requeue) = (60, 100)"
| "message_ID (BasicRecover Requeue) = (60, 110)"
| "message_ID BasicRecoverOk = (60, 111)"
| "message_ID (BasicNack DeliveryTag Multiple Requeue) = (60, 120)"
| "message_ID TxSelect = (90, 10)"
| "message_ID TxSelectOk = (90, 11)"
| "message_ID TxCommit = (90, 20)"
| "message_ID TxCommitOk = (90, 21)"
| "message_ID TxRollback = (90, 30)"
| "message_ID TxRollbackOk = (90, 31)"
| "message_ID (ConfirmSelect Nowait) = (85, 10)"
| "message_ID ConfirmSelectOk = (85, 11)"

text \<open>Dynamic dispatch of \<^verbatim>\<open>Write\<close>.\<close>

primrec message_Write :: "message \<Rightarrow> write_error + bytes" where
  "message_Write (ConnectionStart VersionMajor VersionMinor ServerProperties Mechanisms
     Locales) = ConnectionStart_Write VersionMajor VersionMinor ServerProperties Mechanisms
     Locales"
| "message_Write (ConnectionStartOk ClientProperties Mechanism Response Locale) =
     ConnectionStartOk_Write ClientProperties Mechanism Response Locale"
| "message_Write (ConnectionSecure Challenge) = ConnectionSecure_Write Challenge"
| "message_Write (ConnectionSecureOk Response) = ConnectionSecureOk_Write Response"
| "message_Write (ConnectionTune ChannelMax FrameMax Heartbeat) = ConnectionTune_Write
     ChannelMax FrameMax Heartbeat"
| "message_Write (ConnectionTuneOk ChannelMax FrameMax Heartbeat) = ConnectionTuneOk_Write
     ChannelMax FrameMax Heartbeat"
| "message_Write (ConnectionOpen VirtualHost reserved1 reserved2) = ConnectionOpen_Write
     VirtualHost reserved1 reserved2"
| "message_Write (ConnectionOpenOk reserved1) = ConnectionOpenOk_Write reserved1"
| "message_Write (ConnectionClose ReplyCode ReplyText ClassId MethodId) =
     ConnectionClose_Write ReplyCode ReplyText ClassId MethodId"
| "message_Write ConnectionCloseOk = ConnectionCloseOk_Write"
| "message_Write (ConnectionBlocked Reason) = ConnectionBlocked_Write Reason"
| "message_Write ConnectionUnblocked = ConnectionUnblocked_Write"
| "message_Write (ConnectionUpdateSecret NewSecret Reason) = ConnectionUpdateSecret_Write
     NewSecret Reason"
| "message_Write ConnectionUpdateSecretOk = ConnectionUpdateSecretOk_Write"
| "message_Write (ChannelOpen reserved1) = ChannelOpen_Write reserved1"
| "message_Write (ChannelOpenOk reserved1) = ChannelOpenOk_Write reserved1"
| "message_Write (ChannelFlow Active) = ChannelFlow_Write Active"
| "message_Write (ChannelFlowOk Active) = ChannelFlowOk_Write Active"
| "message_Write (ChannelClose ReplyCode ReplyText ClassId MethodId) = ChannelClose_Write
     ReplyCode ReplyText ClassId MethodId"
| "message_Write ChannelCloseOk = ChannelCloseOk_Write"
| "message_Write (ExchangeDeclare reserved1 Exchange Kind Passive Durable AutoDelete
     Internal NoWait Arguments) = ExchangeDeclare_Write reserved1 Exchange Kind Passive
     Durable AutoDelete Internal NoWait Arguments"
| "message_Write ExchangeDeclareOk = ExchangeDeclareOk_Write"
| "message_Write (ExchangeDelete reserved1 Exchange IfUnused NoWait) = ExchangeDelete_Write
     reserved1 Exchange IfUnused NoWait"
| "message_Write ExchangeDeleteOk = ExchangeDeleteOk_Write"
| "message_Write (ExchangeBind reserved1 Destination Source RoutingKey NoWait Arguments) =
     ExchangeBind_Write reserved1 Destination Source RoutingKey NoWait Arguments"
| "message_Write ExchangeBindOk = ExchangeBindOk_Write"
| "message_Write (ExchangeUnbind reserved1 Destination Source RoutingKey NoWait Arguments)
     = ExchangeUnbind_Write reserved1 Destination Source RoutingKey NoWait Arguments"
| "message_Write ExchangeUnbindOk = ExchangeUnbindOk_Write"
| "message_Write (QueueDeclare reserved1 Queue Passive Durable Exclusive AutoDelete NoWait
     Arguments) = QueueDeclare_Write reserved1 Queue Passive Durable Exclusive AutoDelete
     NoWait Arguments"
| "message_Write (QueueDeclareOk Queue MessageCount ConsumerCount) = QueueDeclareOk_Write
     Queue MessageCount ConsumerCount"
| "message_Write (QueueBind reserved1 Queue Exchange RoutingKey NoWait Arguments) =
     QueueBind_Write reserved1 Queue Exchange RoutingKey NoWait Arguments"
| "message_Write QueueBindOk = QueueBindOk_Write"
| "message_Write (QueueUnbind reserved1 Queue Exchange RoutingKey Arguments) =
     QueueUnbind_Write reserved1 Queue Exchange RoutingKey Arguments"
| "message_Write QueueUnbindOk = QueueUnbindOk_Write"
| "message_Write (QueuePurge reserved1 Queue NoWait) = QueuePurge_Write reserved1 Queue
     NoWait"
| "message_Write (QueuePurgeOk MessageCount) = QueuePurgeOk_Write MessageCount"
| "message_Write (QueueDelete reserved1 Queue IfUnused IfEmpty NoWait) = QueueDelete_Write
     reserved1 Queue IfUnused IfEmpty NoWait"
| "message_Write (QueueDeleteOk MessageCount) = QueueDeleteOk_Write MessageCount"
| "message_Write (BasicQos PrefetchSize PrefetchCount Global) = BasicQos_Write PrefetchSize
     PrefetchCount Global"
| "message_Write BasicQosOk = BasicQosOk_Write"
| "message_Write (BasicConsume reserved1 Queue ConsumerTag NoLocal NoAck Exclusive NoWait
     Arguments) = BasicConsume_Write reserved1 Queue ConsumerTag NoLocal NoAck Exclusive
     NoWait Arguments"
| "message_Write (BasicConsumeOk ConsumerTag) = BasicConsumeOk_Write ConsumerTag"
| "message_Write (BasicCancel ConsumerTag NoWait) = BasicCancel_Write ConsumerTag NoWait"
| "message_Write (BasicCancelOk ConsumerTag) = BasicCancelOk_Write ConsumerTag"
| "message_Write (BasicPublish reserved1 Exchange RoutingKey Mandatory Immediate Properties
     Body) = BasicPublish_Write reserved1 Exchange RoutingKey Mandatory Immediate"
| "message_Write (BasicReturn ReplyCode ReplyText Exchange RoutingKey Properties Body) =
     BasicReturn_Write ReplyCode ReplyText Exchange RoutingKey"
| "message_Write (BasicDeliver ConsumerTag DeliveryTag Redelivered Exchange RoutingKey
     Properties Body) = BasicDeliver_Write ConsumerTag DeliveryTag Redelivered Exchange
     RoutingKey"
| "message_Write (BasicGet reserved1 Queue NoAck) = BasicGet_Write reserved1 Queue NoAck"
| "message_Write (BasicGetOk DeliveryTag Redelivered Exchange RoutingKey MessageCount
     Properties Body) = BasicGetOk_Write DeliveryTag Redelivered Exchange RoutingKey
     MessageCount"
| "message_Write (BasicGetEmpty reserved1) = BasicGetEmpty_Write reserved1"
| "message_Write (BasicAck DeliveryTag Multiple) = BasicAck_Write DeliveryTag Multiple"
| "message_Write (BasicReject DeliveryTag Requeue) = BasicReject_Write DeliveryTag Requeue"
| "message_Write (BasicRecoverAsync Requeue) = BasicRecoverAsync_Write Requeue"
| "message_Write (BasicRecover Requeue) = BasicRecover_Write Requeue"
| "message_Write BasicRecoverOk = BasicRecoverOk_Write"
| "message_Write (BasicNack DeliveryTag Multiple Requeue) = BasicNack_Write DeliveryTag
     Multiple Requeue"
| "message_Write TxSelect = TxSelect_Write"
| "message_Write TxSelectOk = TxSelectOk_Write"
| "message_Write TxCommit = TxCommit_Write"
| "message_Write TxCommitOk = TxCommitOk_Write"
| "message_Write TxRollback = TxRollback_Write"
| "message_Write TxRollbackOk = TxRollbackOk_Write"
| "message_Write (ConfirmSelect Nowait) = ConfirmSelect_Write Nowait"
| "message_Write ConfirmSelectOk = ConfirmSelectOk_Write"

text \<open>\<^verbatim>\<open>MessageWithContent\<close>: the messages followed by a header and a body.\<close>

definition GetContent :: "message \<Rightarrow> (properties \<times> bytes) option" where
  "GetContent m = (case m of
       BasicPublish _ _ _ _ _ Properties Body \<Rightarrow> Some (Properties, Body)
     | BasicReturn _ _ _ _ Properties Body \<Rightarrow> Some (Properties, Body)
     | BasicDeliver _ _ _ _ _ Properties Body \<Rightarrow> Some (Properties, Body)
     | BasicGetOk _ _ _ _ _ Properties Body \<Rightarrow> Some (Properties, Body)
     | _ \<Rightarrow> None)"

definition SetContent :: "properties \<Rightarrow> bytes \<Rightarrow> message \<Rightarrow> message" where
  "SetContent props body m = (case m of
       BasicPublish reserved1 Exchange RoutingKey Mandatory Immediate _ _ \<Rightarrow>
         BasicPublish reserved1 Exchange RoutingKey Mandatory Immediate props body
     | BasicReturn ReplyCode ReplyText Exchange RoutingKey _ _ \<Rightarrow> BasicReturn
         ReplyCode ReplyText Exchange RoutingKey props body
     | BasicDeliver ConsumerTag DeliveryTag Redelivered Exchange RoutingKey _ _
         \<Rightarrow> BasicDeliver ConsumerTag DeliveryTag Redelivered Exchange RoutingKey
         props body
     | BasicGetOk DeliveryTag Redelivered Exchange RoutingKey MessageCount _ _ \<Rightarrow>
         BasicGetOk DeliveryTag Redelivered Exchange RoutingKey MessageCount props body
     | _ \<Rightarrow> m)"

section \<open>ParseMethodFrame\<close>

definition ParseConnection :: "u16 \<Rightarrow> message reader" where
  [msg_read]: "ParseConnection MethodId =
     (if MethodId = 10 then ConnectionStart_Read
      else if MethodId = 11 then ConnectionStartOk_Read
      else if MethodId = 20 then ConnectionSecure_Read
      else if MethodId = 21 then ConnectionSecureOk_Read
      else if MethodId = 30 then ConnectionTune_Read
      else if MethodId = 31 then ConnectionTuneOk_Read
      else if MethodId = 40 then ConnectionOpen_Read
      else if MethodId = 41 then ConnectionOpenOk_Read
      else if MethodId = 50 then ConnectionClose_Read
      else if MethodId = 51 then ConnectionCloseOk_Read
      else if MethodId = 60 then ConnectionBlocked_Read
      else if MethodId = 61 then ConnectionUnblocked_Read
      else if MethodId = 70 then ConnectionUpdateSecret_Read
      else if MethodId = 71 then ConnectionUpdateSecretOk_Read
      else rfail (BadMethod 10 MethodId))"

definition ParseChannel :: "u16 \<Rightarrow> message reader" where
  [msg_read]: "ParseChannel MethodId =
     (if MethodId = 10 then ChannelOpen_Read
      else if MethodId = 11 then ChannelOpenOk_Read
      else if MethodId = 20 then ChannelFlow_Read
      else if MethodId = 21 then ChannelFlowOk_Read
      else if MethodId = 40 then ChannelClose_Read
      else if MethodId = 41 then ChannelCloseOk_Read
      else rfail (BadMethod 20 MethodId))"

definition ParseExchange :: "u16 \<Rightarrow> message reader" where
  [msg_read]: "ParseExchange MethodId =
     (if MethodId = 10 then ExchangeDeclare_Read
      else if MethodId = 11 then ExchangeDeclareOk_Read
      else if MethodId = 20 then ExchangeDelete_Read
      else if MethodId = 21 then ExchangeDeleteOk_Read
      else if MethodId = 30 then ExchangeBind_Read
      else if MethodId = 31 then ExchangeBindOk_Read
      else if MethodId = 40 then ExchangeUnbind_Read
      else if MethodId = 51 then ExchangeUnbindOk_Read
      else rfail (BadMethod 40 MethodId))"

definition ParseQueue :: "u16 \<Rightarrow> message reader" where
  [msg_read]: "ParseQueue MethodId =
     (if MethodId = 10 then QueueDeclare_Read
      else if MethodId = 11 then QueueDeclareOk_Read
      else if MethodId = 20 then QueueBind_Read
      else if MethodId = 21 then QueueBindOk_Read
      else if MethodId = 50 then QueueUnbind_Read
      else if MethodId = 51 then QueueUnbindOk_Read
      else if MethodId = 30 then QueuePurge_Read
      else if MethodId = 31 then QueuePurgeOk_Read
      else if MethodId = 40 then QueueDelete_Read
      else if MethodId = 41 then QueueDeleteOk_Read
      else rfail (BadMethod 50 MethodId))"

definition ParseBasic :: "u16 \<Rightarrow> message reader" where
  [msg_read]: "ParseBasic MethodId =
     (if MethodId = 10 then BasicQos_Read
      else if MethodId = 11 then BasicQosOk_Read
      else if MethodId = 20 then BasicConsume_Read
      else if MethodId = 21 then BasicConsumeOk_Read
      else if MethodId = 30 then BasicCancel_Read
      else if MethodId = 31 then BasicCancelOk_Read
      else if MethodId = 40 then BasicPublish_Read
      else if MethodId = 50 then BasicReturn_Read
      else if MethodId = 60 then BasicDeliver_Read
      else if MethodId = 70 then BasicGet_Read
      else if MethodId = 71 then BasicGetOk_Read
      else if MethodId = 72 then BasicGetEmpty_Read
      else if MethodId = 80 then BasicAck_Read
      else if MethodId = 90 then BasicReject_Read
      else if MethodId = 100 then BasicRecoverAsync_Read
      else if MethodId = 110 then BasicRecover_Read
      else if MethodId = 111 then BasicRecoverOk_Read
      else if MethodId = 120 then BasicNack_Read
      else rfail (BadMethod 60 MethodId))"

definition ParseTx :: "u16 \<Rightarrow> message reader" where
  [msg_read]: "ParseTx MethodId =
     (if MethodId = 10 then TxSelect_Read
      else if MethodId = 11 then TxSelectOk_Read
      else if MethodId = 20 then TxCommit_Read
      else if MethodId = 21 then TxCommitOk_Read
      else if MethodId = 30 then TxRollback_Read
      else if MethodId = 31 then TxRollbackOk_Read
      else rfail (BadMethod 90 MethodId))"

definition ParseConfirm :: "u16 \<Rightarrow> message reader" where
  [msg_read]: "ParseConfirm MethodId =
     (if MethodId = 10 then ConfirmSelect_Read
      else if MethodId = 11 then ConfirmSelectOk_Read
      else rfail (BadMethod 85 MethodId))"

text \<open>The class and method numbers that were read are kept with the message.\<close>

definition ParseMethodFrame :: "(u16 \<times> u16 \<times> message) reader" where
  [msg_read]: "ParseMethodFrame = rbind read_u16 (\<lambda>ClassId. rbind read_u16 (\<lambda>MethodId.
     rbind (if ClassId = 10 then ParseConnection MethodId
      else if ClassId = 20 then ParseChannel MethodId
      else if ClassId = 40 then ParseExchange MethodId
      else if ClassId = 50 then ParseQueue MethodId
      else if ClassId = 60 then ParseBasic MethodId
      else if ClassId = 90 then ParseTx MethodId
      else if ClassId = 85 then ParseConfirm MethodId
      else rfail (BadMethodClass ClassId))
     (\<lambda>Method. rret (ClassId, MethodId, Method))))"

section \<open>Round trip of the messages\<close>

text \<open>What the method frame carries of a message: everything but its content.\<close>

definition without_content :: "message \<Rightarrow> message" where
  "without_content m = SetContent no_properties [] m"

definition wf_gotable :: "gotable \<Rightarrow> bool" where
  "wf_gotable t = (case t of None \<Rightarrow> False | Some es \<Rightarrow> wf_table es)"

text \<open>Strings and tables that fit their length prefix.\<close>

primrec wf_message :: "message \<Rightarrow> bool" where
  "wf_message (ConnectionStart VersionMajor VersionMinor ServerProperties Mechanisms
     Locales) = (wf_gotable ServerProperties \<and> wf_longstr Mechanisms \<and> wf_longstr
     Locales)"
| "wf_message (ConnectionStartOk ClientProperties Mechanism Response Locale) = (wf_gotable
     ClientProperties \<and> wf_shortstr Mechanism \<and> wf_longstr Response \<and>
     wf_shortstr Locale)"
| "wf_message (ConnectionSecure Challenge) = (wf_longstr Challenge)"
| "wf_message (ConnectionSecureOk Response) = (wf_longstr Response)"
| "wf_message (ConnectionTune ChannelMax FrameMax Heartbeat) = True"
| "wf_message (ConnectionTuneOk ChannelMax FrameMax Heartbeat) = True"
| "wf_message (ConnectionOpen VirtualHost reserved1 reserved2) = (wf_shortstr VirtualHost
     \<and> wf_shortstr reserved1)"
| "wf_message (ConnectionOpenOk reserved1) = (wf_shortstr reserved1)"
| "wf_message (ConnectionClose ReplyCode ReplyText ClassId MethodId) = (wf_shortstr
     ReplyText)"
| "wf_message ConnectionCloseOk = True"
| "wf_message (ConnectionBlocked Reason) = (wf_shortstr Reason)"
| "wf_message ConnectionUnblocked = True"
| "wf_message (ConnectionUpdateSecret NewSecret Reason) = (wf_longstr NewSecret \<and>
     wf_shortstr Reason)"
| "wf_message ConnectionUpdateSecretOk = True"
| "wf_message (ChannelOpen reserved1) = (wf_shortstr reserved1)"
| "wf_message (ChannelOpenOk reserved1) = (wf_longstr reserved1)"
| "wf_message (ChannelFlow Active) = True"
| "wf_message (ChannelFlowOk Active) = True"
| "wf_message (ChannelClose ReplyCode ReplyText ClassId MethodId) = (wf_shortstr
     ReplyText)"
| "wf_message ChannelCloseOk = True"
| "wf_message (ExchangeDeclare reserved1 Exchange Kind Passive Durable AutoDelete Internal
     NoWait Arguments) = (wf_shortstr Exchange \<and> wf_shortstr Kind \<and> wf_gotable
     Arguments)"
| "wf_message ExchangeDeclareOk = True"
| "wf_message (ExchangeDelete reserved1 Exchange IfUnused NoWait) = (wf_shortstr Exchange)"
| "wf_message ExchangeDeleteOk = True"
| "wf_message (ExchangeBind reserved1 Destination Source RoutingKey NoWait Arguments) =
     (wf_shortstr Destination \<and> wf_shortstr Source \<and> wf_shortstr RoutingKey \<and>
     wf_gotable Arguments)"
| "wf_message ExchangeBindOk = True"
| "wf_message (ExchangeUnbind reserved1 Destination Source RoutingKey NoWait Arguments) =
     (wf_shortstr Destination \<and> wf_shortstr Source \<and> wf_shortstr RoutingKey \<and>
     wf_gotable Arguments)"
| "wf_message ExchangeUnbindOk = True"
| "wf_message (QueueDeclare reserved1 Queue Passive Durable Exclusive AutoDelete NoWait
     Arguments) = (wf_shortstr Queue \<and> wf_gotable Arguments)"
| "wf_message (QueueDeclareOk Queue MessageCount ConsumerCount) = (wf_shortstr Queue)"
| "wf_message (QueueBind reserved1 Queue Exchange RoutingKey NoWait Arguments) =
     (wf_shortstr Queue \<and> wf_shortstr Exchange \<and> wf_shortstr RoutingKey \<and>
     wf_gotable Arguments)"
| "wf_message QueueBindOk = True"
| "wf_message (QueueUnbind reserved1 Queue Exchange RoutingKey Arguments) = (wf_shortstr
     Queue \<and> wf_shortstr Exchange \<and> wf_shortstr RoutingKey \<and> wf_gotable
     Arguments)"
| "wf_message QueueUnbindOk = True"
| "wf_message (QueuePurge reserved1 Queue NoWait) = (wf_shortstr Queue)"
| "wf_message (QueuePurgeOk MessageCount) = True"
| "wf_message (QueueDelete reserved1 Queue IfUnused IfEmpty NoWait) = (wf_shortstr Queue)"
| "wf_message (QueueDeleteOk MessageCount) = True"
| "wf_message (BasicQos PrefetchSize PrefetchCount Global) = True"
| "wf_message BasicQosOk = True"
| "wf_message (BasicConsume reserved1 Queue ConsumerTag NoLocal NoAck Exclusive NoWait
     Arguments) = (wf_shortstr Queue \<and> wf_shortstr ConsumerTag \<and> wf_gotable
     Arguments)"
| "wf_message (BasicConsumeOk ConsumerTag) = (wf_shortstr ConsumerTag)"
| "wf_message (BasicCancel ConsumerTag NoWait) = (wf_shortstr ConsumerTag)"
| "wf_message (BasicCancelOk ConsumerTag) = (wf_shortstr ConsumerTag)"
| "wf_message (BasicPublish reserved1 Exchange RoutingKey Mandatory Immediate Properties
     Body) = (wf_shortstr Exchange \<and> wf_shortstr RoutingKey)"
| "wf_message (BasicReturn ReplyCode ReplyText Exchange RoutingKey Properties Body) =
     (wf_shortstr ReplyText \<and> wf_shortstr Exchange \<and> wf_shortstr RoutingKey)"
| "wf_message (BasicDeliver ConsumerTag DeliveryTag Redelivered Exchange RoutingKey
     Properties Body) = (wf_shortstr ConsumerTag \<and> wf_shortstr Exchange \<and>
     wf_shortstr RoutingKey)"
| "wf_message (BasicGet reserved1 Queue NoAck) = (wf_shortstr Queue)"
| "wf_message (BasicGetOk DeliveryTag Redelivered Exchange RoutingKey MessageCount
     Properties Body) = (wf_shortstr Exchange \<and> wf_shortstr RoutingKey)"
| "wf_message (BasicGetEmpty reserved1) = (wf_shortstr reserved1)"
| "wf_message (BasicAck DeliveryTag Multiple) = True"
| "wf_message (BasicReject DeliveryTag Requeue) = True"
| "wf_message (BasicRecoverAsync Requeue) = True"
| "wf_message (BasicRecover Requeue) = True"
| "wf_message BasicRecoverOk = True"
| "wf_message (BasicNack DeliveryTag Multiple Requeue) = True"
| "wf_message TxSelect = True"
| "wf_message TxSelectOk = True"
| "wf_message TxCommit = True"
| "wf_message TxCommitOk = True"
| "wf_message TxRollback = True"
| "wf_message TxRollbackOk = True"
| "wf_message (ConfirmSelect Nowait) = True"
| "wf_message ConfirmSelectOk = True"

lemma bit_flag: "bit (push_bit i (1 :: u8)) n \<longleftrightarrow> i = n \<and> n < 8"
  by (auto simp: bit_exp_iff possible_bit_word)

lemma has_bit_bit: "has_bit i bits \<longleftrightarrow> bit bits i"
proof -
  have "bits AND push_bit i 1 = (if bit bits i then push_bit i 1 else 0)"
    by (rule bit_word_eqI) (auto simp: bit_and_iff bit_flag simp del: push_bit_of_1)
  moreover have "bit bits i \<Longrightarrow> push_bit i (1 :: u8) \<noteq> 0"
    using bit_flag [of i i] bit_imp_le_length [of bits i] by (auto simp del: push_bit_of_1)
  ultimately show ?thesis
    by (simp add: has_bit_def word_neq_0_conv del: push_bit_of_1)
qed

lemma bit_pack_bits_from:
  "i < 8 \<Longrightarrow> bit (foldl (\<lambda>bits (i, f). if f then bits OR push_bit i 1 else bits) acc (enumerate k fs)) i
    \<longleftrightarrow> bit (acc :: u8) i \<or> (k \<le> i \<and> i < k + length fs \<and> fs ! (i - k))"
proof (induction fs arbitrary: acc k)
  case (Cons f fs)
  have "i - k = Suc (i - Suc k)" if "Suc k \<le> i"
    using that by simp
  then show ?case
    using Cons by (auto simp: bit_or_iff bit_flag nth_Cons' le_Suc_eq simp del: push_bit_of_1)
qed auto

lemma has_bit_pack_bits [decode]:
  "i < length fs \<Longrightarrow> length fs \<le> 8 \<Longrightarrow> has_bit i (pack_bits fs) = fs ! i"
  by (simp add: has_bit_bit pack_bits_def bit_pack_bits_from)

lemma writeGoTable_ok: "wf_gotable t \<Longrightarrow> \<exists>b. writeGoTable t = Inr b"
  by (auto simp: wf_gotable_def writeGoTable_def entries_def intro: tablec.enc_ok split: option.splits)

lemma readTable_writeGoTable [decode]:
  "wf_gotable t \<Longrightarrow> writeGoTable t = Inr b \<Longrightarrow> rbind readTable f (b @ r) = f (the t) r"
  by (auto simp: wf_gotable_def writeGoTable_def entries_def intro: tablec.dec_enc_bind
      split: option.splits)

lemma wf_gotable_Some: "wf_gotable t \<Longrightarrow> Some (the t) = t"
  by (auto simp: wf_gotable_def split: option.splits)

lemma message_Write_ok: "wf_message m \<Longrightarrow> \<exists>b. message_Write m = Inr b"
  by (cases m) (auto simp: msg_write dest!: writeGoTable_ok)

lemma ParseMethodFrame_message:
  assumes "wf_message m" and "message_Write m = Inr b" and "message_ID m = (c, mid)"
  shows "ParseMethodFrame (to_be 2 c @ to_be 2 mid @ b @ r) = (Inr (c, mid, without_content m), r)"
  using assms
  by (cases m)
    (auto simp: msg_write msg_read decode rbind_assoc without_content_def SetContent_def rret_def wf_gotable_Some
      split: sum.splits)

end
