(* ===== verification/Amqp_Frames.thy ===== *)
theory Amqp_Frames
  imports Amqp_Messages
begin

unbundle bit_operations_syntax

text \<open>
  Frames: the rest of \<^verbatim>\<open>src/amqp091/read.go\<close>,
  \<^verbatim>\<open>src/amqp091/write.go\<close> and \<^verbatim>\<open>src/amqp091/types.go\<close>. A frame
  is a type octet, a channel, a size, a payload and the frame-end octet. The size is used for body
  and heartbeat frames only: the payload of a method or header frame is read by its own grammar.
\<close>

section \<open>Frames and their constants\<close>

datatype frame =
    MethodFrame (fr_channel: u16) u16 u16 "message option"
  | HeaderFrame (fr_channel: u16) u16 u16 u64 properties
  | BodyFrame (fr_channel: u16) bytes
  | HeartbeatFrame (fr_channel: u16)

definition frameMethod :: u8 where "frameMethod = 1"
definition frameHeader :: u8 where "frameHeader = 2"
definition frameBody :: u8 where "frameBody = 3"
definition frameHeartbeat :: u8 where "frameHeartbeat = 8"
definition frameEnd :: u8 where "frameEnd = 206"

lemmas frame_consts = frameMethod_def frameHeader_def frameBody_def frameHeartbeat_def frameEnd_def

text \<open>The property flags, in the order of the property list.\<close>

definition flagContentType :: u16 where "flagContentType = 0x8000"
definition flagContentEncoding :: u16 where "flagContentEncoding = 0x4000"
definition flagHeaders :: u16 where "flagHeaders = 0x2000"
definition flagDeliveryMode :: u16 where "flagDeliveryMode = 0x1000"
definition flagPriority :: u16 where "flagPriority = 0x0800"
definition flagCorrelationId :: u16 where "flagCorrelationId = 0x0400"
definition flagReplyTo :: u16 where "flagReplyTo = 0x0200"
definition flagExpiration :: u16 where "flagExpiration = 0x0100"
definition flagMessageId :: u16 where "flagMessageId = 0x0080"
definition flagTimestamp :: u16 where "flagTimestamp = 0x0040"
definition flagType :: u16 where "flagType = 0x0020"
definition flagUserId :: u16 where "flagUserId = 0x0010"
definition flagAppId :: u16 where "flagAppId = 0x0008"
definition flagReserved1 :: u16 where "flagReserved1 = 0x0004"

lemmas flag_defs = flagContentType_def flagContentEncoding_def flagHeaders_def flagDeliveryMode_def
  flagPriority_def flagCorrelationId_def flagReplyTo_def flagExpiration_def flagMessageId_def
  flagTimestamp_def flagType_def flagUserId_def flagAppId_def flagReserved1_def

definition hasProperty :: "u16 \<Rightarrow> u16 \<Rightarrow> bool" where
  "hasProperty flags prop \<longleftrightarrow> flags AND prop > 0"

section \<open>Writing a frame\<close>

text \<open>Go's \<^verbatim>\<open>copy(buf[off:], src)\<close>.\<close>

definition copy_into :: "nat \<Rightarrow> bytes \<Rightarrow> bytes \<Rightarrow> bytes" where
  "copy_into off src buf =
     take off buf @ take (length buf - off) src @ drop (off + length src) buf"

text \<open>\<^verbatim>\<open>writeFrame\<close>: one buffer for the whole frame, filled by index.\<close>

definition writeFrame :: "u8 \<Rightarrow> u16 \<Rightarrow> bytes \<Rightarrow> bytes" where
  "writeFrame ty channel payload =
     (let sz = (word_of_nat (length payload) :: u32);
          buf = replicate (7 + length payload + 1) 0;
          buf = buf[0 := ty];
          buf = buf[1 := ucast (drop_bit 8 channel)];
          buf = buf[2 := ucast channel];
          buf = buf[3 := ucast (drop_bit 24 sz)];
          buf = buf[4 := ucast (drop_bit 16 sz)];
          buf = buf[5 := ucast (drop_bit 8 sz)];
          buf = buf[6 := ucast sz];
          buf = copy_into 7 payload buf
      in buf[length buf - 1 := frameEnd])"

text \<open>\<^verbatim>\<open>writeFrameBuffer\<close>: header, payload and end octet as separate writes.\<close>

definition writeFrameBuffer :: "u8 \<Rightarrow> u16 \<Rightarrow> bytes \<Rightarrow> bytes" where
  "writeFrameBuffer ty channel payload =
     (let sz = (word_of_nat (length payload) :: u32);
          header = [ty, ucast (drop_bit 8 channel), ucast channel, ucast (drop_bit 24 sz),
            ucast (drop_bit 16 sz), ucast (drop_bit 8 sz), ucast sz, frameEnd]
      in take 7 header @ (if 0 < length payload then payload else []) @ take 1 (drop 7 header))"

definition property_mask :: "properties \<Rightarrow> u16" where
  "property_mask p =
     (if ContentType p \<noteq> [] then flagContentType else 0) OR
     (if ContentEncoding p \<noteq> [] then flagContentEncoding else 0) OR
     (if 0 < length (entries (Headers p)) then flagHeaders else 0) OR
     (if DeliveryMode p > 0 then flagDeliveryMode else 0) OR
     (if Priority p > 0 then flagPriority else 0) OR
     (if CorrelationId p \<noteq> [] then flagCorrelationId else 0) OR
     (if ReplyTo p \<noteq> [] then flagReplyTo else 0) OR
     (if Expiration p \<noteq> [] then flagExpiration else 0) OR
     (if MessageId p \<noteq> [] then flagMessageId else 0) OR
     (if Timestamp p \<noteq> zero_time then flagTimestamp else 0) OR
     (if Type p \<noteq> [] then flagType else 0) OR
     (if UserId p \<noteq> [] then flagUserId else 0) OR
     (if AppId p \<noteq> [] then flagAppId else 0)"

definition write_if :: "u16 \<Rightarrow> u16 \<Rightarrow> write_error + bytes \<Rightarrow> write_error + bytes" where
  "write_if flags flag w = (if hasProperty flags flag then w else Inr [])"

definition HeaderFrame_payload :: "u16 \<Rightarrow> u16 \<Rightarrow> u64 \<Rightarrow> properties \<Rightarrow> write_error + bytes" where
  "HeaderFrame_payload ClassId weight Size p =
     (let flags = property_mask p in wconcat
       [Inr (to_be 2 ClassId), Inr (to_be 2 weight), Inr (to_be 8 Size), Inr (to_be 2 flags),
        write_if flags flagContentType (Inr (writeShortstr (ContentType p))),
        write_if flags flagContentEncoding (Inr (writeShortstr (ContentEncoding p))),
        write_if flags flagHeaders (writeGoTable (Headers p)),
        write_if flags flagDeliveryMode (Inr [DeliveryMode p]),
        write_if flags flagPriority (Inr [Priority p]),
        write_if flags flagCorrelationId (Inr (writeShortstr (CorrelationId p))),
        write_if flags flagReplyTo (Inr (writeShortstr (ReplyTo p))),
        write_if flags flagExpiration (Inr (writeShortstr (Expiration p))),
        write_if flags flagMessageId (Inr (writeShortstr (MessageId p))),
        write_if flags flagTimestamp (Inr (to_be 8 (unix_sec (Timestamp p)))),
        write_if flags flagType (Inr (writeShortstr (Type p))),
        write_if flags flagUserId (Inr (writeShortstr (UserId p))),
        write_if flags flagAppId (Inr (writeShortstr (AppId p)))])"

definition HeaderFrame_Write :: "u16 \<Rightarrow> u16 \<Rightarrow> u16 \<Rightarrow> u64 \<Rightarrow> properties \<Rightarrow> write_error + bytes" where
  "HeaderFrame_Write ChannelId ClassId weight Size p =
     (case HeaderFrame_payload ClassId weight Size p of Inl e \<Rightarrow> Inl e
      | Inr payload \<Rightarrow> Inr (writeFrameBuffer frameHeader ChannelId payload))"

definition MethodFrame_Write :: "u16 \<Rightarrow> message option \<Rightarrow> write_error + bytes" where
  "MethodFrame_Write ChannelId Method =
     (case Method of None \<Rightarrow> Inl MissingMethod
      | Some m \<Rightarrow>
          (case message_ID m of (class, method) \<Rightarrow>
            (case wconcat [Inr (to_be 2 class), Inr (to_be 2 method), message_Write m] of
               Inl e \<Rightarrow> Inl e
             | Inr payload \<Rightarrow> Inr (writeFrameBuffer frameMethod ChannelId payload))))"

definition BodyFrame_Write :: "u16 \<Rightarrow> bytes \<Rightarrow> write_error + bytes" where
  "BodyFrame_Write ChannelId Body = Inr (writeFrame frameBody ChannelId Body)"

definition HeartbeatFrame_Write :: "u16 \<Rightarrow> write_error + bytes" where
  "HeartbeatFrame_Write ChannelId = Inr (writeFrame frameHeartbeat ChannelId [])"

text \<open>\<^verbatim>\<open>WriteFrame\<close> and \<^verbatim>\<open>WriteFrameNoFlush\<close>: the bytes handed to the buffered writer.\<close>

primrec WriteFrame :: "frame \<Rightarrow> write_error + bytes" where
  "WriteFrame (MethodFrame ChannelId ClassId MethodId Method) = MethodFrame_Write ChannelId Method"
| "WriteFrame (HeaderFrame ChannelId ClassId weight Size p) =
     HeaderFrame_Write ChannelId ClassId weight Size p"
| "WriteFrame (BodyFrame ChannelId Body) = BodyFrame_Write ChannelId Body"
| "WriteFrame (HeartbeatFrame ChannelId) = HeartbeatFrame_Write ChannelId"

section \<open>Reading a frame\<close>

definition read_if :: "u16 \<Rightarrow> u16 \<Rightarrow> 'a reader \<Rightarrow> ('a \<Rightarrow> properties \<Rightarrow> properties) \<Rightarrow> properties \<Rightarrow>
    properties reader" where
  "read_if flags flag m upd p = (if hasProperty flags flag then rbind m (\<lambda>v. rret (upd v p)) else rret p)"

definition parseHeaderFrame :: "u16 \<Rightarrow> frame reader" where
  "parseHeaderFrame channel =
     rbind read_u16 (\<lambda>ClassId. rbind read_u16 (\<lambda>weight. rbind read_u64 (\<lambda>Size.
     rbind read_u16 (\<lambda>flags.
     rbind (read_if flags flagContentType readShortstr (\<lambda>v p. p\<lparr>ContentType := v\<rparr>) no_properties) (\<lambda>p.
     rbind (read_if flags flagContentEncoding readShortstr (\<lambda>v p. p\<lparr>ContentEncoding := v\<rparr>) p) (\<lambda>p.
     rbind (read_if flags flagHeaders readTable (\<lambda>v p. p\<lparr>Headers := Some v\<rparr>) p) (\<lambda>p.
     rbind (read_if flags flagDeliveryMode read_u8 (\<lambda>v p. p\<lparr>DeliveryMode := v\<rparr>) p) (\<lambda>p.
     rbind (read_if flags flagPriority read_u8 (\<lambda>v p. p\<lparr>Priority := v\<rparr>) p) (\<lambda>p.
     rbind (read_if flags flagCorrelationId readShortstr (\<lambda>v p. p\<lparr>CorrelationId := v\<rparr>) p) (\<lambda>p.
     rbind (read_if flags flagReplyTo readShortstr (\<lambda>v p. p\<lparr>ReplyTo := v\<rparr>) p) (\<lambda>p.
     rbind (read_if flags flagExpiration readShortstr (\<lambda>v p. p\<lparr>Expiration := v\<rparr>) p) (\<lambda>p.
     rbind (read_if flags flagMessageId readShortstr (\<lambda>v p. p\<lparr>MessageId := v\<rparr>) p) (\<lambda>p.
     rbind (read_if flags flagTimestamp readTimestamp (\<lambda>v p. p\<lparr>Timestamp := v\<rparr>) p) (\<lambda>p.
     rbind (read_if flags flagType readShortstr (\<lambda>v p. p\<lparr>Type := v\<rparr>) p) (\<lambda>p.
     rbind (read_if flags flagUserId readShortstr (\<lambda>v p. p\<lparr>UserId := v\<rparr>) p) (\<lambda>p.
     rbind (read_if flags flagAppId readShortstr (\<lambda>v p. p\<lparr>AppId := v\<rparr>) p) (\<lambda>p.
     rbind (read_if flags flagReserved1 readShortstr (\<lambda>v p. p\<lparr>Reserved1 := v\<rparr>) p) (\<lambda>p.
     rret (HeaderFrame channel ClassId weight Size p)))))))))))))))))))"

definition parseBodyFrame :: "u16 \<Rightarrow> u32 \<Rightarrow> frame reader" where
  "parseBodyFrame channel sz = rbind (read_full (unat sz)) (\<lambda>b. rret (BodyFrame channel b))"

definition parseHeartbeatFrame :: "u16 \<Rightarrow> u32 \<Rightarrow> frame reader" where
  "parseHeartbeatFrame channel sz =
     (if sz > 0 then rfail ErrHeartbeatPayload else rret (HeartbeatFrame channel))"

definition ReadFrame :: "frame reader" where
  "ReadFrame = rbind (read_full 7) (\<lambda>scratch.
     let ty = scratch ! 0;
         channel = of_be (take 2 (drop 1 scratch));
         sz = of_be (take 4 (drop 3 scratch))
     in rbind
       (if ty = frameMethod
        then rbind ParseMethodFrame (\<lambda>(c, m, msg). rret (MethodFrame channel c m (Some msg)))
        else if ty = frameHeader then parseHeaderFrame channel
        else if ty = frameBody then parseBodyFrame channel sz
        else if ty = frameHeartbeat then parseHeartbeatFrame channel sz
        else rfail ErrFrame)
       (\<lambda>frame. rbind (read_full 1) (\<lambda>e.
          if e ! 0 \<noteq> frameEnd then rfail ErrFrame else rret frame)))"

section \<open>Both frame writers produce the same bytes\<close>

lemma to_be_16: "to_be 2 (c :: u16) = [ucast (drop_bit 8 c), ucast c]"
  by (simp add: numeral_2_eq_2)

lemma to_be_32:
  "to_be 4 (s :: u32) = [ucast (drop_bit 24 s), ucast (drop_bit 16 s), ucast (drop_bit 8 s), ucast s]"
  by (simp add: numeral_eq_Suc)

lemma writeFrameBuffer_eq:
  "writeFrameBuffer ty channel payload =
    (ty # to_be 2 channel @ to_be 4 (word_of_nat (length payload) :: u32)) @ payload @ [frameEnd]"
  by (simp add: writeFrameBuffer_def Let_def to_be_16 to_be_32)

lemma list_update_prefix:
  "(replicate (7 + n + 1) (0 :: u8))[0 := a, 1 := b, 2 := c, 3 := d, 4 := e, 5 := f, 6 := g] =
    [a, b, c, d, e, f, g] @ replicate (n + 1) 0"
  by (simp add: numeral_eq_Suc)

lemma writeFrame_eq:
  "writeFrame ty channel payload =
    (ty # to_be 2 channel @ to_be 4 (word_of_nat (length payload) :: u32)) @ payload @ [frameEnd]"
proof -
  have "drop (7 + n) ([a, b, c, d, e, f, g] @ replicate (n + 1) (0 :: u8)) = [0]"
    for n and a b c d e f g
    by (simp add: drop_Cons' drop_replicate)
  then show ?thesis
    unfolding writeFrame_def Let_def list_update_prefix copy_into_def
    by (simp add: to_be_16 to_be_32 list_update_append)
qed

section \<open>Round trip of frames\<close>

lemma hasProperty_bit: "k < 16 \<Longrightarrow> hasProperty flags (2 ^ k) \<longleftrightarrow> bit flags k"
proof -
  assume k: "k < 16"
  have b: "bit (2 ^ k :: u16) n \<longleftrightarrow> n = k" for n
    using k by (auto simp: bit_exp_iff possible_bit_word)
  have "flags AND 2 ^ k = (if bit flags k then 2 ^ k else 0)"
    using k by (intro bit_word_eqI) (auto simp: bit_and_iff b)
  moreover have "0 < (2 ^ k :: u16)"
    using b [of k] k by (auto simp: word_gt_0)
  ultimately show ?thesis
    by (simp add: hasProperty_def)
qed

lemma flag_powers:
  "flagContentType = 2 ^ 15" "flagContentEncoding = 2 ^ 14" "flagHeaders = 2 ^ 13"
  "flagDeliveryMode = 2 ^ 12" "flagPriority = 2 ^ 11" "flagCorrelationId = 2 ^ 10"
  "flagReplyTo = 2 ^ 9" "flagExpiration = 2 ^ 8" "flagMessageId = 2 ^ 7" "flagTimestamp = 2 ^ 6"
  "flagType = 2 ^ 5" "flagUserId = 2 ^ 4" "flagAppId = 2 ^ 3" "flagReserved1 = 2 ^ 2"
  by (simp_all add: flag_defs)

lemma bit_flag_if: "j < 16 \<Longrightarrow> bit (if c then (2 ^ j :: u16) else 0) k \<longleftrightarrow> c \<and> j = k"
  by (auto simp: bit_exp_iff possible_bit_word)

text \<open>The flag word of a property list names exactly the properties that are set.\<close>

lemma property_mask_flags:
  "hasProperty (property_mask p) flagContentType \<longleftrightarrow> ContentType p \<noteq> []"
  "hasProperty (property_mask p) flagContentEncoding \<longleftrightarrow> ContentEncoding p \<noteq> []"
  "hasProperty (property_mask p) flagHeaders \<longleftrightarrow> entries (Headers p) \<noteq> []"
  "hasProperty (property_mask p) flagDeliveryMode \<longleftrightarrow> DeliveryMode p \<noteq> 0"
  "hasProperty (property_mask p) flagPriority \<longleftrightarrow> Priority p \<noteq> 0"
  "hasProperty (property_mask p) flagCorrelationId \<longleftrightarrow> CorrelationId p \<noteq> []"
  "hasProperty (property_mask p) flagReplyTo \<longleftrightarrow> ReplyTo p \<noteq> []"
  "hasProperty (property_mask p) flagExpiration \<longleftrightarrow> Expiration p \<noteq> []"
  "hasProperty (property_mask p) flagMessageId \<longleftrightarrow> MessageId p \<noteq> []"
  "hasProperty (property_mask p) flagTimestamp \<longleftrightarrow> Timestamp p \<noteq> zero_time"
  "hasProperty (property_mask p) flagType \<longleftrightarrow> Type p \<noteq> []"
  "hasProperty (property_mask p) flagUserId \<longleftrightarrow> UserId p \<noteq> []"
  "hasProperty (property_mask p) flagAppId \<longleftrightarrow> AppId p \<noteq> []"
  "\<not> hasProperty (property_mask p) flagReserved1"
  by (simp_all only: flag_powers hasProperty_bit property_mask_def bit_or_iff bit_flag_if
      length_greater_0_conv word_neq_0_conv) simp_all

text \<open>
  The properties that survive: short strings that fit, a header table that is absent or not
  empty, whole seconds, and no \<^verbatim>\<open>Reserved1\<close>, which is never written.
\<close>

definition wf_properties :: "properties \<Rightarrow> bool" where
  "wf_properties p \<longleftrightarrow>
     list_all wf_shortstr [ContentType p, ContentEncoding p, CorrelationId p, ReplyTo p,
       Expiration p, MessageId p, Type p, UserId p, AppId p] \<and>
     (case Headers p of None \<Rightarrow> True | Some es \<Rightarrow> es \<noteq> [] \<and> wf_table es) \<and>
     nanos (Timestamp p) = 0 \<and> Reserved1 p = []"

lemma read_if_append:
  assumes "hasProperty flags f \<longleftrightarrow> c"
    and "c \<Longrightarrow> m (b @ r) = (Inr v, r)"
    and "\<not> c \<Longrightarrow> upd v p = p"
  shows "rbind (read_if flags f m upd p) k ((if c then b else []) @ r) = k (upd v p) r"
  using assms by (auto simp: read_if_def rbind_def rret_def)

lemma read_if_shortstr:
  assumes "hasProperty flags f \<longleftrightarrow> s \<noteq> []" and "wf_shortstr s" and "upd [] p = p"
  shows "rbind (read_if flags f readShortstr upd p) k ((if s = [] then [] else writeShortstr s) @ r) =
    k (upd s p) r"
  using read_if_append [OF assms(1), of readShortstr "writeShortstr s" r s upd p k] assms(2,3)
    shortstr.dec_enc [OF assms(2) refl]
  by auto

lemma read_if_u8:
  assumes "hasProperty flags f \<longleftrightarrow> v \<noteq> 0" and "upd 0 p = p"
  shows "rbind (read_if flags f read_u8 upd p) k ((if v = 0 then [] else [v]) @ r) = k (upd v p) r"
  using read_if_append [OF assms(1), of read_u8 "[v]" r v upd p k] assms(2)
    read_u8_append [of rret v r]
  by (auto simp: rret_def)

lemma read_if_time:
  assumes "hasProperty flags f \<longleftrightarrow> t \<noteq> zero_time" and "nanos t = 0" and "upd zero_time p = p"
  shows "rbind (read_if flags f readTimestamp upd p) k
    ((if t = zero_time then [] else to_be 8 (unix_sec t)) @ r) = k (upd t p) r"
  using read_if_append [OF assms(1), of readTimestamp "to_be 8 (unix_sec t)" r t upd p k] assms(2,3)
    readTimestamp_write [of t rret r]
  by (cases t) (auto simp: rret_def)

lemma read_if_table:
  assumes "hasProperty flags f \<longleftrightarrow> entries t \<noteq> []"
    and "case t of None \<Rightarrow> True | Some es \<Rightarrow> es \<noteq> [] \<and> wf_table es"
    and "writeGoTable t = Inr b" and "Headers p = None"
  shows "rbind (read_if flags f readTable (\<lambda>v p. p\<lparr>Headers := Some v\<rparr>) p) k
    ((if entries t = [] then [] else b) @ r) = k (p\<lparr>Headers := t\<rparr>) r"
proof (cases t)
  case None
  then show ?thesis
    using assms by (cases p) (simp add: read_if_def entries_def)
next
  case (Some es)
  then have "readTable (b @ r) = (Inr es, r)" "es \<noteq> []"
    using assms by (auto simp: writeGoTable_def entries_def intro: tablec.dec_enc)
  then show ?thesis
    using assms Some by (simp add: read_if_def entries_def rbind_def rret_def)
qed

lemma parseHeaderFrame_payload:
  assumes "wf_properties p" and "writeGoTable (Headers p) = Inr tb"
  shows "parseHeaderFrame ch
    (to_be 2 c @ to_be 2 w @ to_be 8 sz @ to_be 2 (property_mask p) @
     (if ContentType p = [] then [] else writeShortstr (ContentType p)) @
     (if ContentEncoding p = [] then [] else writeShortstr (ContentEncoding p)) @
     (if entries (Headers p) = [] then [] else tb) @
     (if DeliveryMode p = 0 then [] else [DeliveryMode p]) @
     (if Priority p = 0 then [] else [Priority p]) @
     (if CorrelationId p = [] then [] else writeShortstr (CorrelationId p)) @
     (if ReplyTo p = [] then [] else writeShortstr (ReplyTo p)) @
     (if Expiration p = [] then [] else writeShortstr (Expiration p)) @
     (if MessageId p = [] then [] else writeShortstr (MessageId p)) @
     (if Timestamp p = zero_time then [] else to_be 8 (unix_sec (Timestamp p))) @
     (if Type p = [] then [] else writeShortstr (Type p)) @
     (if UserId p = [] then [] else writeShortstr (UserId p)) @
     (if AppId p = [] then [] else writeShortstr (AppId p)) @ r) =
    (Inr (HeaderFrame ch c w sz p), r)"
proof -
  note wf = assms(1) [unfolded wf_properties_def list.pred_inject]
  have "rbind (read_if (property_mask p) flagReserved1 m upd q) k = k q"
    for m :: "string reader" and upd q and k :: "properties \<Rightarrow> frame reader"
    using property_mask_flags(14) by (simp add: read_if_def)
  moreover have "no_properties
      \<lparr>ContentType := ContentType p, ContentEncoding := ContentEncoding p, Headers := Headers p,
       DeliveryMode := DeliveryMode p, Priority := Priority p, CorrelationId := CorrelationId p,
       ReplyTo := ReplyTo p, Expiration := Expiration p, MessageId := MessageId p,
       Timestamp := Timestamp p, Type := Type p, UserId := UserId p, AppId := AppId p\<rparr> = p"
    using wf by (simp add: no_properties_def)
  ultimately show ?thesis
    using wf assms(2) unfolding parseHeaderFrame_def
    by (simp add: decode read_if_shortstr read_if_u8 read_if_time read_if_table property_mask_flags
        no_properties_def rret_def)
qed

lemma HeaderFrame_payload_ok:
  assumes "wf_properties p"
  shows "\<exists>payload. HeaderFrame_payload c w sz p = Inr payload \<and>
    (\<forall>r. parseHeaderFrame ch (payload @ r) = (Inr (HeaderFrame ch c w sz p), r))"
proof -
  have "\<exists>tb. writeGoTable (Headers p) = Inr tb"
    using assms tablec.enc_ok
    by (auto simp: wf_properties_def writeGoTable_def entries_def writeTable_def split: option.splits)
  then obtain tb where tb: "writeGoTable (Headers p) = Inr tb" ..
  have "write_if flags f (Inr b) = Inr (if hasProperty flags f then b else [])" for flags f b
    by (simp add: write_if_def)
  moreover have "(if \<not> c then b else []) = (if c then [] else b)" for c and b :: bytes
    by simp
  ultimately show ?thesis
    using parseHeaderFrame_payload [OF assms tb, of ch c w sz]
    by (simp add: HeaderFrame_payload_def Let_def property_mask_flags tb split del: if_split)
qed

text \<open>A frame as it arrives: the numbers of a method frame are those of its message.\<close>

primrec frame_ok :: "frame \<Rightarrow> bool" where
  "frame_ok (MethodFrame ch c m msg) =
     (case msg of None \<Rightarrow> False
      | Some x \<Rightarrow> message_ID x = (c, m) \<and> wf_message x \<and> without_content x = x)"
| "frame_ok (HeaderFrame ch c w sz p) = wf_properties p"
| "frame_ok (BodyFrame ch body) = (length body < 2 ^ 32)"
| "frame_ok (HeartbeatFrame ch) = True"

lemma ReadFrame_header:
  "ReadFrame ((ty # to_be 2 ch @ to_be 4 (sz :: u32)) @ rest) =
    rbind
       (if ty = frameMethod
        then rbind ParseMethodFrame (\<lambda>(c, m, msg). rret (MethodFrame ch c m (Some msg)))
        else if ty = frameHeader then parseHeaderFrame ch
        else if ty = frameBody then parseBodyFrame ch sz
        else if ty = frameHeartbeat then parseHeartbeatFrame ch sz
        else rfail ErrFrame)
       (\<lambda>frame. rbind (read_full 1) (\<lambda>e.
          if e ! 0 \<noteq> frameEnd then rfail ErrFrame else rret frame)) rest"
  unfolding ReadFrame_def
  by (subst read_full_bind_append) (simp_all add: Let_def)

lemma frame_end: "rbind (read_full (Suc 0)) (\<lambda>e. if e ! 0 \<noteq> frameEnd then rfail ErrFrame else rret f)
    (frameEnd # r) = (Inr f, r)"
  by (simp add: rbind_def read_full_def rret_def)

lemma ReadFrame_method:
  assumes "wf_message msg"
  obtains b where "MethodFrame_Write ch (Some msg) = Inr b"
    and "\<And>r. ReadFrame (b @ r) = (Inr (MethodFrame ch (fst (message_ID msg)) (snd (message_ID msg))
      (Some (without_content msg))), r)"
proof -
  obtain b where b: "message_Write msg = Inr b"
    using message_Write_ok [OF assms] ..
  obtain c m where id: "message_ID msg = (c, m)" by (cases "message_ID msg")
  note parse = ParseMethodFrame_message [OF assms b id]
  show ?thesis
  proof (rule that)
    show "MethodFrame_Write ch (Some msg) =
        Inr (writeFrameBuffer frameMethod ch (to_be 2 c @ to_be 2 m @ b))"
      by (simp add: MethodFrame_Write_def id b)
  next
    fix r
    show "ReadFrame (writeFrameBuffer frameMethod ch (to_be 2 c @ to_be 2 m @ b) @ r) =
      (Inr (MethodFrame ch (fst (message_ID msg)) (snd (message_ID msg)) (Some (without_content msg))), r)"
      unfolding writeFrameBuffer_eq append_assoc [of "_ # _"] ReadFrame_header
      by (simp add: rbind_Inr [of _ _ "MethodFrame ch c m (Some (without_content msg))" "frameEnd # r"]
          rbind_Inr [of ParseMethodFrame, OF parse] rret_def frame_end id)
  qed
qed

lemma ReadFrame_WriteFrame:
  assumes "frame_ok f"
  shows "\<exists>b. WriteFrame f = Inr b \<and> (\<forall>r. ReadFrame (b @ r) = (Inr f, r))"
proof (cases f)
  case (MethodFrame ch c m msg)
  with assms obtain x where x: "msg = Some x" "message_ID x = (c, m)" "wf_message x" "without_content x = x"
    by (auto split: option.splits)
  show ?thesis
    by (rule ReadFrame_method [OF x(3), of ch]) (use MethodFrame x in auto)
next
  case (HeaderFrame ch c w sz p)
  then obtain payload where
    w: "HeaderFrame_payload c w sz p = Inr payload"
    and r: "\<And>r. parseHeaderFrame ch (payload @ r) = (Inr (HeaderFrame ch c w sz p), r)"
    using assms HeaderFrame_payload_ok by fastforce
  have "ReadFrame (writeFrameBuffer frameHeader ch payload @ r) = (Inr f, r)" for r
    unfolding writeFrameBuffer_eq append_assoc [of "_ # _"] ReadFrame_header
    using HeaderFrame by (simp add: rbind_Inr [of "parseHeaderFrame ch", OF r] frame_end frame_consts(1,2))
  then show ?thesis using HeaderFrame w by (auto simp: HeaderFrame_Write_def)
next
  case (BodyFrame ch body)
  then have "unat (word_of_nat (length body) :: u32) = length body"
    using assms by (simp add: unat_of_nat)
  then have "ReadFrame (writeFrame frameBody ch body @ r) = (Inr f, r)" for r
    unfolding writeFrame_eq append_assoc [of "_ # _"] ReadFrame_header
    using BodyFrame
    by (simp add: parseBodyFrame_def rbind_assoc decode frame_end frame_consts(1-3))
  then show ?thesis using BodyFrame by (auto simp: BodyFrame_Write_def)
next
  case (HeartbeatFrame ch)
  then have "ReadFrame (writeFrame frameHeartbeat ch [] @ r) = (Inr f, r)" for r
    unfolding writeFrame_eq append_assoc [of "_ # _"] ReadFrame_header
    by (simp add: parseHeartbeatFrame_def frame_end frame_consts(1-4))
  then show ?thesis using HeartbeatFrame by (auto simp: HeartbeatFrame_Write_def)
qed

interpretation framec: wire_codec WriteFrame ReadFrame frame_ok
  using ReadFrame_WriteFrame by unfold_locales fastforce+

section \<open>Reading a frame always ends, and only moves forward\<close>

lemma fuel_ok_errors [fuel_intros]:
  "fuel_ok (rfail (BadMethodClass c)) bs" "fuel_ok (rfail (BadMethod c m)) bs"
  "fuel_ok (rfail ErrFrame) bs" "fuel_ok (rfail ErrHeartbeatPayload) bs"
  by (simp_all add: fuel_ok_def rfail_def)

lemma suffix_ParseMethodFrame [suffix_intros]: "suffix_reader ParseMethodFrame"
  unfolding msg_read by (intro suffix_intros)

lemma fuel_ok_ParseMethodFrame [fuel_intros]: "fuel_ok ParseMethodFrame bs"
  unfolding msg_read by (intro fuel_ok_rbind fuel_intros)

lemma suffix_read_if [suffix_intros]: "suffix_reader m \<Longrightarrow> suffix_reader (read_if flags f m upd p)"
  unfolding read_if_def by (intro suffix_intros)

lemma fuel_ok_read_if [fuel_intros]: "fuel_ok m bs \<Longrightarrow> fuel_ok (read_if flags f m upd p) bs"
  unfolding read_if_def by (intro fuel_ok_rbind fuel_intros)

lemma suffix_parts [suffix_intros]:
  "suffix_reader (parseHeaderFrame ch)" "suffix_reader (parseBodyFrame ch sz)"
  "suffix_reader (parseHeartbeatFrame ch sz)"
  unfolding parseHeaderFrame_def parseBodyFrame_def parseHeartbeatFrame_def
  by (intro suffix_intros)+

lemma fuel_ok_parts [fuel_intros]:
  "fuel_ok (parseHeaderFrame ch) bs" "fuel_ok (parseBodyFrame ch sz) bs"
  "fuel_ok (parseHeartbeatFrame ch sz) bs"
  unfolding parseHeaderFrame_def parseBodyFrame_def parseHeartbeatFrame_def
  by (intro fuel_ok_rbind fuel_intros)+

lemma suffix_method_part [suffix_intros]:
  "suffix_reader (rbind ParseMethodFrame (\<lambda>(c, m, msg). rret (MethodFrame ch c m (Some msg))))"
  by (intro suffix_intros) (auto intro: suffix_intros split: prod.splits)

lemma fuel_ok_method_part [fuel_intros]:
  "fuel_ok (rbind ParseMethodFrame (\<lambda>(c, m, msg). rret (MethodFrame ch c m (Some msg)))) bs"
  by (intro fuel_ok_rbind fuel_intros) (auto intro: fuel_intros split: prod.splits)

lemma suffix_ReadFrame: "suffix_reader ReadFrame"
  unfolding ReadFrame_def Let_def by (intro suffix_intros)

lemma fuel_ok_ReadFrame: "fuel_ok ReadFrame bs"
  unfolding ReadFrame_def Let_def by (intro fuel_ok_rbind fuel_intros)

lemma calm_ParseMethodFrame [calm_intros]: "calm ParseMethodFrame"
  unfolding msg_read by (intro calm_intros; simp)

lemma calm_read_if [calm_intros]: "calm m \<Longrightarrow> calm (read_if flags f m upd p)"
  unfolding read_if_def by (intro calm_intros)

lemma calm_parts [calm_intros]: "calm (parseHeaderFrame ch)" "calm (parseBodyFrame ch sz)" "calm (parseHeartbeatFrame ch sz)"
  unfolding parseHeaderFrame_def parseBodyFrame_def parseHeartbeatFrame_def
  by (intro calm_intros; simp)+

lemma calm_method_part [calm_intros]:
  "calm (rbind ParseMethodFrame (\<lambda>(c, m, msg). rret (MethodFrame ch c m (Some msg))))"
  by (intro calm_intros) (auto intro: calm_intros split: prod.splits)

lemma calm_ReadFrame: "calm ReadFrame"
  unfolding ReadFrame_def Let_def by (intro calm_intros; simp)

lemma ReadFrame_progress: "ReadFrame bs = (Inr f, r) \<Longrightarrow> length r + 8 \<le> length bs"
proof -
  assume eq: "ReadFrame bs = (Inr f, r)"
  then obtain b r1 where 1: "read_full 7 bs = (Inr b, r1)"
    unfolding ReadFrame_def by (rule rbind_eq_InrE)
  then have l7: "length bs = length r1 + 7" "bs = b @ r1" "length b = 7"
    by (auto simp: read_full_def split: if_splits)
  let ?ty = "b ! 0" and ?ch = "of_be (take 2 (drop 1 b))" and ?sz = "of_be (take 4 (drop 3 b))"
  let ?part = "if ?ty = frameMethod
        then rbind ParseMethodFrame (\<lambda>(c, m, msg). rret (MethodFrame ?ch c m (Some msg)))
        else if ?ty = frameHeader then parseHeaderFrame ?ch
        else if ?ty = frameBody then parseBodyFrame ?ch ?sz
        else if ?ty = frameHeartbeat then parseHeartbeatFrame ?ch ?sz
        else rfail ErrFrame"
  have "rbind ?part (\<lambda>frame. rbind (read_full 1) (\<lambda>e.
      if e ! 0 \<noteq> frameEnd then rfail ErrFrame else rret frame)) r1 = (Inr f, r)"
    using eq 1 unfolding ReadFrame_def Let_def by (simp add: rbind_def)
  then obtain x r2 where 2: "?part r1 = (Inr x, r2)"
    and 3: "rbind (read_full 1) (\<lambda>e. if e ! 0 \<noteq> frameEnd then rfail ErrFrame else rret x) r2 = (Inr f, r)"
    by (rule rbind_eq_InrE)
  have "suffix_reader ?part" by (intro suffix_intros)
  then have "length r2 \<le> length r1"
    using 2 by (rule suffix_reader_length)
  moreover have "length r + 1 = length r2"
    using 3 by (auto simp: rbind_def read_full_def rret_def rfail_def split: if_splits)
  ultimately show ?thesis using l7 by simp
qed

section \<open>Properties\<close>

text \<open>C18. For every message of the protocol whose strings and tables fit, \<^verbatim>\<open>ReadFrame\<close> on
  the method frame that \<^verbatim>\<open>WriteFrame\<close> wrote gives the same channel, the class and method
  numbers of the message, and the message without its content, and leaves the rest of the
  stream.\<close>

theorem method_frame_round_trip:
  assumes "wf_message msg"
  shows "\<exists>b. WriteFrame (MethodFrame ch c m (Some msg)) = Inr b \<and>
    (\<forall>r. ReadFrame (b @ r) =
      (Inr (MethodFrame ch (fst (message_ID msg)) (snd (message_ID msg)) (Some (without_content msg))), r))"
  by (rule ReadFrame_method [OF assms, of ch]) auto

theorem method_frame_round_trip_witness:
  "\<exists>b. WriteFrame (MethodFrame 1 0 0 (Some (QueueBind 0 ''q'' ''e'' ''a.b'' True (Some [])))) = Inr b \<and>
    (\<forall>r. ReadFrame (b @ r) =
      (Inr (MethodFrame 1 50 20 (Some (QueueBind 0 ''q'' ''e'' ''a.b'' True (Some [])))), r))"
proof -
  let ?m = "QueueBind 0 ''q'' ''e'' ''a.b'' True (Some [])"
  have "wf_message ?m"
    by (simp add: wf_shortstr_def wf_gotable_def wf_table_def sized_def)
  from method_frame_round_trip [OF this, of 1 0 0] show ?thesis
    by (simp add: without_content_def SetContent_def)
qed

text \<open>C17. A stream of well-formed frames is read back frame by frame from the concatenation of their
  encodings: frame boundaries are never lost, whatever the mix of method, header, body and
  heartbeat frames.\<close>

theorem frame_stream_round_trip:
  assumes "list_all frame_ok fs"
  shows "\<exists>b. write_seq WriteFrame fs = Inr b \<and>
    (\<forall>r. read_seq ReadFrame (length fs) (b @ r) = (Inr fs, r))"
  using assms by (rule framec.seq_round_trip)

theorem frame_stream_round_trip_witness:
  "\<exists>b. write_seq WriteFrame
      [HeaderFrame 1 60 0 3 (no_properties\<lparr>ContentType := ''t'', DeliveryMode := 2\<rparr>),
       BodyFrame 1 [1, 2, 3], HeartbeatFrame 0] = Inr b \<and>
    (\<forall>r. read_seq ReadFrame 3 (b @ r) =
      (Inr [HeaderFrame 1 60 0 3 (no_properties\<lparr>ContentType := ''t'', DeliveryMode := 2\<rparr>),
       BodyFrame 1 [1, 2, 3], HeartbeatFrame 0], r))"
proof -
  let ?fs = "[HeaderFrame 1 60 0 3 (no_properties\<lparr>ContentType := ''t'', DeliveryMode := 2\<rparr>),
       BodyFrame 1 [1, 2, 3], HeartbeatFrame 0]"
  have "list_all frame_ok ?fs"
    by (simp add: wf_properties_def no_properties_def wf_shortstr_def zero_time_def)
  moreover have "length ?fs = 3" by simp
  ultimately show ?thesis
    using frame_stream_round_trip [of ?fs] by (simp only:)
qed

text \<open>C20. \<^verbatim>\<open>ReadFrame\<close> comes to an end on every byte sequence a peer can send: with a frame, which has used
  at least the eight bytes of the frame header and the end octet, with an error of the code, or, and only
  when the input contains a byte-array field whose length has its top bit set, with the panic of
  \<^verbatim>\<open>make\<close>; what is left is a suffix of the input in every case.\<close>

theorem ReadFrame_returns:
  "(case ReadFrame bs of
      (Inr f, r) \<Rightarrow> length r + 8 \<le> length bs
    | (Inl e, r) \<Rightarrow> e \<noteq> OutOfFuel \<and> (e = PanicMakeslice \<longrightarrow>
        (\<exists>p (len :: u32) q. bs = p @ byte_of_char CHR ''x'' # to_be 4 len @ q \<and> 2 ^ 31 \<le> unat len))) \<and>
    (\<exists>p. bs = p @ snd (ReadFrame bs))"
proof (cases "ReadFrame bs")
  case (Pair x r)
  then show ?thesis
    using fuel_ok_ReadFrame [of bs] suffix_readerD [OF suffix_ReadFrame Pair] ReadFrame_progress [of bs]
      calmD [OF calm_ReadFrame, of bs r, unfolded bad_length_def]
    by (cases x) (auto simp: fuel_ok_def)
qed

theorem ReadFrame_returns_witness:
  "\<exists>f r. ReadFrame [8, 0, 0, 0, 0, 0, 0, 206] = (Inr f, r) \<and> length r + 8 \<le> 8"
proof -
  have "ReadFrame [8, 0, 0, 0, 0, 0, 0, 206] = (Inr (HeartbeatFrame 0), [])"
    by (simp add: ReadFrame_def Let_def rbind_def read_full_def frame_consts of_be_def
        parseHeartbeatFrame_def rret_def)
  then show ?thesis
    using ReadFrame_returns [of "[8, 0, 0, 0, 0, 0, 0, 206]"] by fastforce
qed

text \<open>C19. The buffered writer used for method and header frames and the one-buffer writer used for body
  and heartbeat frames produce the same bytes for every frame type, channel and payload: the type
  octet, the channel and the length of the payload in network order, the payload, and the
  frame-end octet.\<close>

theorem frame_writers_agree:
  "writeFrame ty channel payload = writeFrameBuffer ty channel payload \<and>
   writeFrame ty channel payload =
     ty # to_be 2 channel @ to_be 4 (word_of_nat (length payload) :: u32) @ payload @ [frameEnd]"
  by (simp add: writeFrame_eq writeFrameBuffer_eq)

end
