(* ===== verification/Amqp_Auth.thy ===== *)
theory Amqp_Auth
  imports Amqp_Wire
begin

text \<open>
  The SASL responses of \<^verbatim>\<open>src/amqp091/auth.go\<close>: \<^verbatim>\<open>PLAIN\<close>, two NUL
  bytes around the user name, and \<^verbatim>\<open>AMQPLAIN\<close>, a field table without its length. A
  \<^verbatim>\<open>readField\<close> that panics ends the connection (it is recovered in \<^verbatim>\<open>handleConnection\<close>); that is the
  error \<open>AuthPanic\<close>.
\<close>

section \<open>Definitions\<close>

datatype auth_error = InvalidAuthResponse string | AuthPanic

text \<open>Go's \<^verbatim>\<open>strings.SplitN\<close> with a one-character separator and a positive limit.\<close>

fun SplitN :: "char \<Rightarrow> nat \<Rightarrow> string \<Rightarrow> string list" where
  "SplitN sep 0 s = []"
| "SplitN sep (Suc 0) s = [s]"
| "SplitN sep (Suc (Suc n)) s =
     (if sep \<in> set s
      then takeWhile (\<lambda>c. c \<noteq> sep) s # SplitN sep (Suc n) (tl (dropWhile (\<lambda>c. c \<noteq> sep) s))
      else [s])"

definition NUL :: char where
  "NUL = CHR 0x00"

definition ParsePLAINAuthResponse :: "string \<Rightarrow> auth_error + (string \<times> string)" where
  "ParsePLAINAuthResponse s =
     (let p = SplitN NUL 3 s in
      if length p \<noteq> 3 then Inl (InvalidAuthResponse s) else Inr (p ! 1, p ! 2))"

text \<open>The loop over the pairs: it stops at the first read error, a read past the end included.\<close>

primrec amqplain_loop :: "nat \<Rightarrow> string \<times> string \<Rightarrow> bytes \<Rightarrow> (auth_error + (string \<times> string)) option" where
  "amqplain_loop 0 up b = None"
| "amqplain_loop (Suc n) up b =
     (case readShortstr b of
        (Inl e, _) \<Rightarrow> Some (Inr up)
      | (Inr k, b1) \<Rightarrow>
          (case readField b1 of
             (Inl e, _) \<Rightarrow> Some (if e = PanicMakeslice then Inl AuthPanic else Inr up)
           | (Inr v, b2) \<Rightarrow>
               amqplain_loop n
                 (case v of FString str \<Rightarrow>
                      (if k = ''LOGIN'' then str else fst up, if k = ''PASSWORD'' then str else snd up)
                  | _ \<Rightarrow> up) b2))"

definition ParseAMQPLAINAuthResponse :: "string \<Rightarrow> (auth_error + (string \<times> string)) option" where
  "ParseAMQPLAINAuthResponse s =
     map_option (\<lambda>res. case res of Inl e \<Rightarrow> Inl e
       | Inr (user, password) \<Rightarrow>
           if user = [] \<or> password = [] then Inl (InvalidAuthResponse s) else Inr (user, password))
       (amqplain_loop (length s + 1) ([], []) (bytes_of_string s))"

section \<open>PLAIN\<close>

lemma SplitN_absent: "sep \<notin> set s \<Longrightarrow> 0 < n \<Longrightarrow> SplitN sep n s = [s]"
  by (cases "(sep, n, s)" rule: SplitN.cases) auto

lemma SplitN_step: "sep \<notin> set a \<Longrightarrow> 0 < n \<Longrightarrow> SplitN sep (Suc n) (a @ sep # r) = a # SplitN sep n r"
  by (cases n) (simp_all add: takeWhile_until dropWhile_until)

lemma split_first:
  assumes "sep \<in> set s"
  obtains a r where "s = a @ sep # r" and "sep \<notin> set a"
  using assms by (metis split_list_first)

section \<open>AMQPLAIN\<close>

lemma amqplain_loop_ends: "length b < n \<Longrightarrow> \<exists>res. amqplain_loop n up b = Some res"
proof (induction n arbitrary: up b)
  case (Suc n)
  show ?case
  proof (cases "readShortstr b")
    case (Pair x b1)
    show ?thesis
    proof (cases x)
      case (Inr k)
      with Pair have b1: "length b1 < length b" by (auto dest: readShortstr_progress)
      obtain y b2 where y: "readField b1 = (y, b2)" by (cases "readField b1")
      then have "length b2 \<le> length b1"
        using suffix_top(1) by (rule suffix_reader_length [rotated])
      then have "length b2 < n" using b1 Suc.prems by simp
      then show ?thesis
        using Pair Inr y Suc.IH by (cases y) auto
    qed (use Pair in simp)
  qed
qed simp

text \<open>The last string stored under a key.\<close>

definition last_string :: "string \<Rightarrow> table \<Rightarrow> string \<Rightarrow> string" where
  "last_string k es dflt =
     fold (\<lambda>(k', v) acc. case v of FString s \<Rightarrow> if k' = k then s else acc | _ \<Rightarrow> acc) es dflt"

lemma amqplain_loop_entries:
  assumes "wf_entries es" and "writeEntries es = Inr b" and "length b < n"
  shows "amqplain_loop n (u, p) b = Some (Inr (last_string ''LOGIN'' es u, last_string ''PASSWORD'' es p))"
  using assms
proof (induction es arbitrary: n u p b)
  case Nil
  have "readShortstr [] = (Inl EOF, [])"
    by (simp add: readShortstr_def read_u8_def rbind_def read_full_def)
  with Nil show ?case by (cases n) (auto simp: last_string_def)
next
  case (Cons e es)
  obtain k v where e: "e = (k, v)" by (cases e)
  from Cons.prems e obtain bv bs where w: "writeField v = Inr bv" "writeEntries es = Inr bs"
    and b: "b = writeShortstr k @ bv @ bs"
    by (auto split: sum.splits)
  from Cons.prems e have wf: "wf_shortstr k" "wf_field v" "wf_entries es" by auto
  obtain m where n: "n = Suc m" using Cons.prems by (cases n) auto
  have "readShortstr b = (Inr k, bv @ bs)"
    using shortstr.dec_enc [OF wf(1) refl] b by simp
  moreover have "readField (bv @ bs) = (Inr v, bs)"
    using fieldc.dec_enc [OF wf(2) w(1)] by simp
  moreover have "length bs < m"
    using wf(1) b n Cons.prems(3) by (simp add: writeShortstr_wf)
  ultimately show ?case
    using Cons.IH [OF wf(3) w(2)] by (simp add: n e last_string_def split: field.splits)
qed

section \<open>Properties\<close>

text \<open>\<^verbatim>\<open>ParsePLAINAuthResponse\<close> accepts exactly the responses with at least two
  NUL bytes: the user is what stands between the first two, the password everything after the
  second, further NUL bytes included, and what precedes the first is ignored.\<close>

theorem ParsePLAINAuthResponse_iff:
  "ParsePLAINAuthResponse s = Inr (user, password) \<longleftrightarrow>
    (\<exists>authzid. s = authzid @ NUL # user @ NUL # password \<and> NUL \<notin> set authzid \<and> NUL \<notin> set user)"
proof
  assume ok: "ParsePLAINAuthResponse s = Inr (user, password)"
  then have len: "length (SplitN NUL 3 s) = 3"
    by (auto simp: ParsePLAINAuthResponse_def Let_def split: if_splits)
  have "NUL \<in> set s"
    using len SplitN_absent [of NUL s 3] by (cases "NUL \<in> set s") auto
  then obtain a r where s: "s = a @ NUL # r" "NUL \<notin> set a" by (rule split_first)
  then have 1: "SplitN NUL 3 s = a # SplitN NUL 2 r"
    using SplitN_step [of NUL a 2 r] by (simp add: eval_nat_numeral)
  have "NUL \<in> set r"
    using len 1 SplitN_absent [of NUL r 2] by (cases "NUL \<in> set r") auto
  then obtain u w where r: "r = u @ NUL # w" "NUL \<notin> set u" by (rule split_first)
  then have "SplitN NUL 2 r = [u, w]"
    using SplitN_step [of NUL u 1 w] by (simp add: eval_nat_numeral)
  then show "\<exists>authzid. s = authzid @ NUL # user @ NUL # password \<and> NUL \<notin> set authzid \<and> NUL \<notin> set user"
    using ok s r 1 by (auto simp: ParsePLAINAuthResponse_def Let_def split: if_splits)
next
  assume "\<exists>authzid. s = authzid @ NUL # user @ NUL # password \<and> NUL \<notin> set authzid \<and> NUL \<notin> set user"
  then obtain a where s: "s = a @ NUL # user @ NUL # password" "NUL \<notin> set a" "NUL \<notin> set user" by auto
  have "SplitN NUL 3 s = [a, user, password]"
    using SplitN_step [of NUL a 2] SplitN_step [of NUL user 1 password] s by (simp add: eval_nat_numeral)
  then show "ParsePLAINAuthResponse s = Inr (user, password)"
    by (simp add: ParsePLAINAuthResponse_def)
qed

text \<open>\<^verbatim>\<open>ParseAMQPLAINAuthResponse\<close> returns on every input: the loop uses up at least
  one byte per turn.\<close>

theorem ParseAMQPLAINAuthResponse_returns: "\<exists>res. ParseAMQPLAINAuthResponse s = Some res"
  using amqplain_loop_ends [of "bytes_of_string s" "length s + 1" "([], [])"]
  by (auto simp: ParseAMQPLAINAuthResponse_def)

text \<open>\<^verbatim>\<open>ParseAMQPLAINAuthResponse\<close> on a well-formed sequence of pairs gives the
  last strings under \<^verbatim>\<open>LOGIN\<close> and \<^verbatim>\<open>PASSWORD\<close>, and the error when one of
  them is missing, empty or not a string.\<close>

theorem ParseAMQPLAINAuthResponse_entries:
  assumes "wf_entries es" and "writeEntries es = Inr b"
  shows "ParseAMQPLAINAuthResponse (string_of_bytes b) =
    (let user = last_string ''LOGIN'' es []; password = last_string ''PASSWORD'' es []
     in Some (if user = [] \<or> password = [] then Inl (InvalidAuthResponse (string_of_bytes b))
              else Inr (user, password)))"
  using amqplain_loop_entries [OF assms, of "length b + 1"]
  by (simp add: ParseAMQPLAINAuthResponse_def Let_def)

theorem ParseAMQPLAINAuthResponse_entries_witness:
  "\<exists>b. writeEntries [(''LOGIN'', FString ''guest''), (''PASSWORD'', FString ''secret'')] = Inr b \<and>
    ParseAMQPLAINAuthResponse (string_of_bytes b) = Some (Inr (''guest'', ''secret''))"
proof -
  let ?es = "[(''LOGIN'', FString ''guest''), (''PASSWORD'', FString ''secret'')]"
  have wf: "wf_entries ?es" by (simp add: wf_shortstr_def wf_longstr_def)
  obtain b where b: "writeEntries ?es = Inr b" by simp
  show ?thesis
    using ParseAMQPLAINAuthResponse_entries [OF wf b] b by (simp add: last_string_def)
qed

end
