(* ===== verification/Config.thy ===== *)
theory Config
  imports Amqp_Messages
begin

text \<open>
  The configuration: \<^verbatim>\<open>src/config/config.go\<close>. Durations are integers of nanoseconds,
  pointers to structs are options. \<^verbatim>\<open>Load\<close> takes as arguments what it calls outside
  the repository: the jsonnet evaluator, the file system, the environment and the JSON decoder.
\<close>

section \<open>Data\<close>

type_synonym duration = int

type_synonym 'a go = "string + 'a"

definition gobind :: "'a go \<Rightarrow> ('a \<Rightarrow> 'b go) \<Rightarrow> 'b go" where
  "gobind x f = (case x of Inl e \<Rightarrow> Inl e | Inr v \<Rightarrow> f v)"

lemma gobind_simps [simp]: "gobind (Inl e) f = Inl e" "gobind (Inr v) f = f v"
  by (simp_all add: gobind_def)

definition Second :: duration where "Second = 1000000000"

record HealthCheck =
  hc_Interval :: duration
  hc_Timeout :: duration
  hc_UnhealthyThreshold :: int
  hc_RecoveryInterval :: duration
  hc_Username :: string
  hc_Password :: string

record QueueAttributes =
  qa_Durable :: "bool option"
  qa_AutoDelete :: "bool option"
  qa_Exclusive :: "bool option"
  qa_Arguments :: gotable

record QueueOptions =
  qo_TryPassive :: bool
  qo_EmulateAutoDelete :: bool

record UpstreamConfig =
  uc_Name :: string
  uc_Address :: string
  uc_Cluster :: "string list option"
  uc_Timeout :: duration
  uc_HealthCheck :: "HealthCheck option"
  uc_KeyPatterns :: "string list"
  uc_QueueAttributes :: "QueueAttributes option"
  uc_QueueOptions :: "QueueOptions option"

record GracefulShutdown =
  gs_ShutdownTimeout :: duration
  gs_ReloadTimeout :: duration
  gs_RateLimit :: int
  gs_BurstSize :: int

record ConfigData =
  c_Upstreams :: "UpstreamConfig list"
  c_HandshakeTimeout :: duration
  c_ConnectionCloseTimeout :: duration
  c_GracefulShutdown :: GracefulShutdown
  c_MetricsAttributes :: "(string \<times> string) list option"

section \<open>Addresses\<close>

definition Addresses :: "UpstreamConfig \<Rightarrow> string list" where
  "Addresses u = (case uc_Cluster u of Some nodes \<Rightarrow> nodes | None \<Rightarrow> [uc_Address u])"

text \<open>Go's \<^verbatim>\<open>net.SplitHostPort\<close>; its error texts are shortened to the reason.\<close>

definition last_index :: "char \<Rightarrow> string \<Rightarrow> nat option" where
  "last_index c s =
     (if c \<in> set s then Some (length s - Suc (length (takeWhile (\<lambda>x. x \<noteq> c) (rev s)))) else None)"

definition first_index :: "char \<Rightarrow> string \<Rightarrow> nat option" where
  "first_index c s = (if c \<in> set s then Some (length (takeWhile (\<lambda>x. x \<noteq> c) s)) else None)"

definition SplitHostPort :: "string \<Rightarrow> (string \<times> string) go" where
  "SplitHostPort hp =
     (case last_index CHR '':'' hp of
        None \<Rightarrow> Inl ''missing port in address''
      | Some i \<Rightarrow>
          gobind
           (if hp ! 0 = CHR ''['' then
              (case first_index CHR '']'' hp of
                 None \<Rightarrow> Inl ''missing ']' in address''
               | Some e \<Rightarrow>
                   if e + 1 = length hp then Inl ''missing port in address''
                   else if e + 1 = i then Inr (take (e - 1) (drop 1 hp), 1, e + 1)
                   else if hp ! (e + 1) = CHR '':'' then Inl ''too many colons in address''
                   else Inl ''missing port in address'')
            else if CHR '':'' \<in> set (take i hp) then Inl ''too many colons in address''
            else Inr (take i hp, 0, 0))
           (\<lambda>(host, j, k).
              if CHR ''['' \<in> set (drop j hp) then Inl ''unexpected '[' in address''
              else if CHR '']'' \<in> set (drop k hp) then Inl ''unexpected ']' in address''
              else Inr (host, drop (i + 1) hp)))"

section \<open>Validation and defaults\<close>

fun validate_nodes :: "string list \<Rightarrow> unit go" where
  "validate_nodes [] = Inr ()"
| "validate_nodes (addr # rest) =
     (if addr = [] then Inl ''address is required for cluster node''
      else case SplitHostPort addr of
        Inl e \<Rightarrow> Inl (''invalid address format for cluster node: '' @ e)
      | Inr _ \<Rightarrow> validate_nodes rest)"

definition UpstreamConfig_Validate :: "UpstreamConfig \<Rightarrow> unit go" where
  "UpstreamConfig_Validate u =
     (if uc_Name u = [] then Inl ''cluster name is required''
      else case uc_Cluster u of
        Some nodes \<Rightarrow>
          gobind (validate_nodes nodes) (\<lambda>_.
            case uc_HealthCheck u of
              None \<Rightarrow> Inr ()
            | Some hc \<Rightarrow>
                if hc_Username hc = [] then Inl ''username is required for health check''
                else if hc_Password hc = [] then Inl ''password is required for health check''
                else Inr ())
      | None \<Rightarrow>
          if uc_Address u = [] then Inl ''address is required''
          else case SplitHostPort (uc_Address u) of
            Inl e \<Rightarrow> Inl (''invalid address format: '' @ e)
          | Inr _ \<Rightarrow> Inr ())"

fun validate_upstreams :: "UpstreamConfig list \<Rightarrow> unit go" where
  "validate_upstreams [] = Inr ()"
| "validate_upstreams (u # us) =
     (case UpstreamConfig_Validate u of
        Inl e \<Rightarrow> Inl (''invalid upstream '' @ uc_Name u @ '': '' @ e)
      | Inr _ \<Rightarrow> validate_upstreams us)"

definition Validate :: "ConfigData \<Rightarrow> unit go" where
  "Validate c =
     (if length (c_Upstreams c) = 0 then Inl ''no upstreams are defined''
      else if length (c_Upstreams c) > 2 then Inl ''upstreams must be less or equal than 2 elements''
      else validate_upstreams (c_Upstreams c))"

definition DefaultGracefulShutdownTimeout :: duration where "DefaultGracefulShutdownTimeout = 10 * Second"
definition DefaultGracefulReloadTimeout :: duration where "DefaultGracefulReloadTimeout = 30 * Second"
definition DefaultDisconnectRateLimit :: int where "DefaultDisconnectRateLimit = 100"
definition DefaultDisconnectBurstSize :: int where "DefaultDisconnectBurstSize = 10"

text \<open>\<^verbatim>\<open>if x == 0 { x = d }\<close>, which \<^verbatim>\<open>SetDefaults\<close> does field by field.\<close>

definition or_default :: "int \<Rightarrow> int \<Rightarrow> int" where
  "or_default x d = (if x = 0 then d else x)"

definition SetDefaults :: "ConfigData \<Rightarrow> ConfigData" where
  "SetDefaults c =
     (let g = c_GracefulShutdown c in
      c\<lparr>c_HandshakeTimeout := or_default (c_HandshakeTimeout c) (5 * Second),
        c_ConnectionCloseTimeout := or_default (c_ConnectionCloseTimeout c) (1 * Second),
        c_GracefulShutdown :=
          g\<lparr>gs_ShutdownTimeout := or_default (gs_ShutdownTimeout g) DefaultGracefulShutdownTimeout,
            gs_ReloadTimeout := or_default (gs_ReloadTimeout g) DefaultGracefulReloadTimeout,
            gs_RateLimit := or_default (gs_RateLimit g) DefaultDisconnectRateLimit,
            gs_BurstSize := or_default (gs_BurstSize g) DefaultDisconnectBurstSize\<rparr>\<rparr>)"

lemma or_default_twice [simp]: "or_default (or_default x d) d = or_default x d"
  by (simp add: or_default_def)

lemma or_default_nonzero [simp]: "d \<noteq> 0 \<Longrightarrow> or_default x d \<noteq> 0"
  by (simp add: or_default_def)

lemma defaults_nonzero [simp]:
  "Second \<noteq> 0" "DefaultGracefulShutdownTimeout \<noteq> 0" "DefaultGracefulReloadTimeout \<noteq> 0"
  "DefaultDisconnectRateLimit \<noteq> 0" "DefaultDisconnectBurstSize \<noteq> 0"
  by (simp_all add: Second_def DefaultGracefulShutdownTimeout_def DefaultGracefulReloadTimeout_def
      DefaultDisconnectRateLimit_def DefaultDisconnectBurstSize_def)

definition Load ::
  "(string \<Rightarrow> string go) \<Rightarrow> (string \<Rightarrow> string go) \<Rightarrow> (string \<Rightarrow> string) \<Rightarrow> (string \<Rightarrow> ConfigData go) \<Rightarrow>
    string \<Rightarrow> ConfigData go" where
  "Load run_jsonnet ReadFile ExpandEnv Unmarshal f =
     gobind
       (if has_suffix f ''.jsonnet'' then
          (case run_jsonnet f of
             Inl e \<Rightarrow> Inl (''failed to run load config: '' @ e) | Inr buf \<Rightarrow> Inr buf)
        else
          (case ReadFile f of
             Inl e \<Rightarrow> Inl (''failed to read file: '' @ e) | Inr data \<Rightarrow> Inr (ExpandEnv data)))
       (\<lambda>buf. case Unmarshal buf of
           Inl e \<Rightarrow> Inl (''failed to unmarshal JSON: '' @ e)
         | Inr c \<Rightarrow>
             (case Validate c of
                Inl e \<Rightarrow> Inl (''invalid configuration: '' @ e)
              | Inr _ \<Rightarrow> Inr (SetDefaults c)))"

section \<open>What a valid configuration is\<close>

definition valid_address :: "string \<Rightarrow> bool" where
  "valid_address a \<longleftrightarrow> a \<noteq> [] \<and> (\<exists>h p. SplitHostPort a = Inr (h, p))"

definition valid_upstream :: "UpstreamConfig \<Rightarrow> bool" where
  "valid_upstream u \<longleftrightarrow> uc_Name u \<noteq> [] \<and>
     (case uc_Cluster u of
        None \<Rightarrow> valid_address (uc_Address u)
      | Some nodes \<Rightarrow> list_all valid_address nodes \<and>
          (case uc_HealthCheck u of None \<Rightarrow> True
           | Some hc \<Rightarrow> hc_Username hc \<noteq> [] \<and> hc_Password hc \<noteq> []))"

lemma validate_nodes_iff: "validate_nodes nodes = Inr () \<longleftrightarrow> list_all valid_address nodes"
  by (induction nodes) (auto simp: valid_address_def split: sum.splits)

lemma UpstreamConfig_Validate_iff: "UpstreamConfig_Validate u = Inr () \<longleftrightarrow> valid_upstream u"
proof -
  have "gobind x f = Inr () \<longleftrightarrow> x = Inr () \<and> f () = Inr ()" for x f
    by (cases x) (auto simp: gobind_def)
  then show ?thesis
    by (auto simp: UpstreamConfig_Validate_def valid_upstream_def valid_address_def validate_nodes_iff
        split: option.splits sum.splits)
qed

lemma validate_upstreams_iff: "validate_upstreams us = Inr () \<longleftrightarrow> list_all valid_upstream us"
proof (induction us)
  case (Cons u us)
  then show ?case
    using UpstreamConfig_Validate_iff [of u] by (auto split: sum.splits)
qed simp

lemma Validate_iff:
  "Validate c = Inr () \<longleftrightarrow>
    length (c_Upstreams c) \<in> {1, 2} \<and> list_all valid_upstream (c_Upstreams c)"
proof -
  have "length us = 0 \<or> 2 < length us \<or> length us = 1 \<or> length us = 2" for us :: "UpstreamConfig list"
    by linarith
  then show ?thesis
    by (auto simp: Validate_def validate_upstreams_iff)
qed

lemma last_index_append:
  "c \<notin> set p \<Longrightarrow> last_index c (h @ c # p) = Some (length h)"
proof -
  assume "c \<notin> set p"
  then have "takeWhile (\<lambda>x. x \<noteq> c) (rev p @ c # rev h) = rev p"
    by (simp add: takeWhile_until)
  then show ?thesis by (simp add: last_index_def)
qed

lemma SplitHostPort_plain:
  assumes "set (h @ p) \<inter> {CHR '':'', CHR ''['', CHR '']''} = {}"
  shows "SplitHostPort (h @ CHR '':'' # p) = Inr (h, p)"
proof -
  have "(h @ CHR '':'' # p) ! 0 \<noteq> CHR ''[''"
    using assms by (cases h) auto
  then show ?thesis
    using assms by (auto simp: SplitHostPort_def last_index_append)
qed

section \<open>Properties\<close>

text \<open>C35. \<^verbatim>\<open>Config.Validate\<close> accepts exactly the configurations with one or two upstreams, each
  with a name and either an address with a port or cluster nodes that all have one, and with user
  and password when a cluster has health checks.\<close>

theorem Validate_accepts:
  "Validate c = Inr () \<longleftrightarrow>
    (length (c_Upstreams c) = 1 | length (c_Upstreams c) = 2) \<and>
    list_all valid_upstream (c_Upstreams c)"
  by (simp add: Validate_iff)


definition sample_config :: ConfigData where
  "sample_config = \<lparr>c_Upstreams = [\<lparr>uc_Name = ''primary'', uc_Address = ''localhost:5672'', uc_Cluster = None,
     uc_Timeout = 0, uc_HealthCheck = None, uc_KeyPatterns = [], uc_QueueAttributes = None,
     uc_QueueOptions = None\<rparr>], c_HandshakeTimeout = 0, c_ConnectionCloseTimeout = 0,
     c_GracefulShutdown = \<lparr>gs_ShutdownTimeout = 0, gs_ReloadTimeout = 0, gs_RateLimit = 7, gs_BurstSize = 0\<rparr>,
     c_MetricsAttributes = None\<rparr>"


end
