(* ===== verification/Containers.thy ===== *)
theory Containers
  imports Trabbits_Prelude
begin

text \<open>
  Contracts that several components rely on: a store of values under keys, and a log that keeps
  the newest entries. The components interpret them on their own operations.
\<close>

section \<open>Keyed stores\<close>

text \<open>
  A store with lookup, insertion and removal. Derived: insertions under different keys commute
  as far as a lookup can tell, and a run of operations leaves at a key what the last operation on
  that key left there.
\<close>

datatype ('k, 'v) store_op = Put 'k 'v | Del 'k

primrec op_key :: "('k, 'v) store_op \<Rightarrow> 'k" where
  "op_key (Put k v) = k"
| "op_key (Del k) = k"

primrec op_result :: "('k, 'v) store_op \<Rightarrow> 'v option" where
  "op_result (Put k v) = Some v"
| "op_result (Del k) = None"

locale keyed_store =
  fixes get :: "'s \<Rightarrow> 'k \<Rightarrow> 'v option"
    and put :: "'k \<Rightarrow> 'v \<Rightarrow> 's \<Rightarrow> 's"
    and del :: "'k \<Rightarrow> 's \<Rightarrow> 's"
  assumes get_put: "get (put k v s) k' = (if k' = k then Some v else get s k')"
    and get_del: "get (del k s) k' = (if k' = k then None else get s k')"
begin

primrec do_op :: "('k, 'v) store_op \<Rightarrow> 's \<Rightarrow> 's" where
  "do_op (Put k v) s = put k v s"
| "do_op (Del k) s = del k s"

lemma get_do_op: "get (do_op e s) k = (if op_key e = k then op_result e else get s k)"
  by (cases e) (auto simp: get_put get_del)

lemma get_run:
  "get (fold do_op es s) k =
    (case filter (\<lambda>e. op_key e = k) (rev es) of [] \<Rightarrow> get s k | e # _ \<Rightarrow> op_result e)"
proof (induction es rule: rev_induct)
  case (snoc e es)
  then show ?case by (simp add: get_do_op)
qed simp

lemma put_put: "get (put k v (put k w s)) = get (put k v s)"
  by (rule ext) (simp add: get_put)

lemma put_commute: "k \<noteq> l \<Longrightarrow> get (put k v (put l w s)) = get (put l w (put k v s))"
  by (rule ext) (auto simp: get_put)

lemma del_put: "get (del k (put k v s)) = get (del k s)"
  by (rule ext) (simp add: get_put get_del)

end

section \<open>Logs that keep the newest entries\<close>

locale bounded_log =
  fixes view :: "'s \<Rightarrow> 'a list"
    and cap :: "'s \<Rightarrow> nat"
    and add :: "'a \<Rightarrow> 's \<Rightarrow> 's"
  assumes view_add: "view (add x s) = keep_last (cap s) (view s @ [x])"
    and cap_add: "cap (add x s) = cap s"
begin

lemma cap_run: "cap (fold add xs s) = cap s"
  by (induction xs arbitrary: s) (simp_all add: cap_add)

lemma view_run: "view s = keep_last (cap s) ys \<Longrightarrow> view (fold add xs s) = keep_last (cap s) (ys @ xs)"
proof (induction xs arbitrary: s ys)
  case (Cons x xs)
  have "view (add x s) = keep_last (cap s) (ys @ [x])"
    using Cons.prems by (simp add: view_add keep_last_append_keep_last)
  then show ?case
    using Cons.IH [of "add x s" "ys @ [x]"] by (simp add: cap_add)
qed simp

lemma view_from_empty: "view s = [] \<Longrightarrow> view (fold add xs s) = keep_last (cap s) xs"
  using view_run [of s "[]" xs] by (simp add: keep_last_def)

lemma length_view_run: "length (view s) \<le> cap s \<Longrightarrow> length (view (fold add xs s)) \<le> cap s"
  by (induction xs rule: rev_induct) (simp_all add: view_add cap_run keep_last_def)

end

end
