(* ===== verification/Client_Types.thy ===== *)
theory Client_Types
  imports Amqp_Messages
begin

text \<open>
  What the server tells about its clients: \<^verbatim>\<open>src/types/client.go\<close>. The server fills these
  records, the API encodes them as JSON, and the API client and the terminal user interface read them.
  A time is a number of nanoseconds, 0 the zero time; \<^verbatim>\<open>int64\<close> counters are 64-bit words.
\<close>

definition ClientStatusActive :: string where "ClientStatusActive = ''active''"
definition ClientStatusShuttingDown :: string where "ClientStatusShuttingDown = ''shutting_down''"
definition ClientStatusDisconnected :: string where "ClientStatusDisconnected = ''disconnected''"

lemmas client_statuses = ClientStatusActive_def ClientStatusShuttingDown_def ClientStatusDisconnected_def

lemma status_distinct [simp]:
  "ClientStatusActive \<noteq> ClientStatusShuttingDown" "ClientStatusActive \<noteq> ClientStatusDisconnected"
  "ClientStatusShuttingDown \<noteq> ClientStatusDisconnected" "ClientStatusShuttingDown \<noteq> ClientStatusActive"
  "ClientStatusDisconnected \<noteq> ClientStatusActive" "ClientStatusDisconnected \<noteq> ClientStatusShuttingDown"
  by (simp_all add: client_statuses)

record StatsSummary =
  ts_TotalMethods :: u64
  ts_ReceivedFrames :: u64
  ts_SentFrames :: u64
  ts_TotalFrames :: u64
  ts_Duration :: string

record FullStatsSummary =
  fs_StartedAt :: nat
  fs_Methods :: "(string \<times> u64) list"
  fs_TotalMethods :: u64
  fs_ReceivedFrames :: u64
  fs_SentFrames :: u64
  fs_TotalFrames :: u64
  fs_Duration :: string

record ClientInfo =
  ci_ID :: string
  ci_ClientAddress :: string
  ci_User :: string
  ci_VirtualHost :: string
  ci_ClientBanner :: string
  ci_ClientProperties :: gotable
  ci_ConnectedAt :: nat
  ci_DisconnectedAt :: nat
  ci_Status :: string
  ci_ShutdownReason :: string
  ci_Stats :: "StatsSummary option"

record FullClientInfo =
  fi_ID :: string
  fi_ClientAddress :: string
  fi_User :: string
  fi_VirtualHost :: string
  fi_ClientBanner :: string
  fi_ClientProperties :: gotable
  fi_ConnectedAt :: nat
  fi_DisconnectedAt :: nat
  fi_Status :: string
  fi_ShutdownReason :: string
  fi_Stats :: "FullStatsSummary option"

text \<open>A log entry; the map of attributes is an association list.\<close>

record 'v ProbeLogEntry =
  le_Timestamp :: nat
  le_Message :: string
  le_ProxyID :: string
  le_Attrs :: "(string \<times> 'v) list"

end
