(* ===== verification/Log_Buffer.thy ===== *)
theory Log_Buffer
  imports Containers Client_Types "HOL-Library.Sublist"
begin

text \<open>
  The logs a server keeps: the probe log of a proxy (\<^verbatim>\<open>src/probe.go\<close> and
  \<^verbatim>\<open>probeLog\<close> of \<^verbatim>\<open>src/proxy.go\<close>) and the server log with its
  subscribers (\<^verbatim>\<open>src/log_buffer.go\<close>). Both keep the newest entries; the subscribers of
  the server log run as goroutines beside it, modelled as a step relation.
\<close>

section \<open>Probe logs\<close>

text \<open>A value of type \<^verbatim>\<open>any\<close> among the attributes of a log: a string, or something else.\<close>

datatype 'a attr = AttrString string | AttrOther 'a

record 'a probeLog =
  pl_Timestamp :: nat
  pl_Message :: string
  pl_attrs :: "'a attr list"

text \<open>The loop of \<^verbatim>\<open>AttrsMap\<close>: keys and values alternate; a pair whose key is no string is
  skipped, and so is a key without a value. \<^verbatim>\<open>None\<close> is the nil map.\<close>

fun attrs_pairs :: "'a attr list \<Rightarrow> (string \<times> 'a attr) list \<Rightarrow> (string \<times> 'a attr) list" where
  "attrs_pairs (AttrString key # v # attrs) m = attrs_pairs attrs (AList.update key v m)"
| "attrs_pairs (AttrOther x # v # attrs) m = attrs_pairs attrs m"
| "attrs_pairs _ m = m"

definition AttrsMap :: "'a probeLog \<Rightarrow> (string \<times> 'a attr) list option" where
  "AttrsMap p = (if length (pl_attrs p) = 0 then None else Some (attrs_pairs (pl_attrs p) []))"

record 'a ProbeLogBuffer =
  pb_logs :: "'a probeLog list"
  pb_maxSize :: nat
  pb_active :: bool
  pb_disconnectedAt :: nat
  pb_clientAddr :: string
  pb_user :: string
  pb_virtualHost :: string
  pb_clientBanner :: string
  pb_connectedAt :: nat

definition NewProbeLogBuffer :: "nat \<Rightarrow> 'a ProbeLogBuffer" where
  "NewProbeLogBuffer maxSize = \<lparr>pb_logs = [], pb_maxSize = maxSize, pb_active = True, pb_disconnectedAt = 0,
     pb_clientAddr = [], pb_user = [], pb_virtualHost = [], pb_clientBanner = [], pb_connectedAt = 0\<rparr>"

definition ProbeLogBuffer_Add :: "'a probeLog \<Rightarrow> 'a ProbeLogBuffer \<Rightarrow> 'a ProbeLogBuffer" where
  "ProbeLogBuffer_Add log b =
     (let b = b\<lparr>pb_logs := pb_logs b @ [log]\<rparr> in
      if pb_maxSize b < length (pb_logs b) then b\<lparr>pb_logs := drop (length (pb_logs b) - pb_maxSize b) (pb_logs b)\<rparr>
      else b)"

definition GetLogs :: "'a ProbeLogBuffer \<Rightarrow> 'a probeLog list" where
  "GetLogs b = pb_logs b"

definition MarkInactive :: "nat \<Rightarrow> 'a ProbeLogBuffer \<Rightarrow> 'a ProbeLogBuffer" where
  "MarkInactive now b = b\<lparr>pb_active := False, pb_disconnectedAt := now\<rparr>"

definition GetDisconnectedAt :: "'a ProbeLogBuffer \<Rightarrow> nat" where
  "GetDisconnectedAt b = pb_disconnectedAt b"

definition IsActive :: "'a ProbeLogBuffer \<Rightarrow> bool" where
  "IsActive b = pb_active b"

definition SetProxyInfo :: "string \<Rightarrow> string \<Rightarrow> string \<Rightarrow> string \<Rightarrow> nat \<Rightarrow> 'a ProbeLogBuffer \<Rightarrow> 'a ProbeLogBuffer" where
  "SetProxyInfo clientAddr user virtualHost clientBanner connectedAt b =
     b\<lparr>pb_clientAddr := clientAddr, pb_user := user, pb_virtualHost := virtualHost,
       pb_clientBanner := clientBanner, pb_connectedAt := connectedAt\<rparr>"

definition GetProxyInfo :: "'a ProbeLogBuffer \<Rightarrow> string \<times> string \<times> string \<times> string \<times> nat" where
  "GetProxyInfo b = (pb_clientAddr b, pb_user b, pb_virtualHost b, pb_clientBanner b, pb_connectedAt b)"

text \<open>
  The channel a probe log is streamed over holds 100 logs. A log that does not fit discards the
  oldest one; with no other goroutine between the three \<^verbatim>\<open>select\<close> statements there is room then.
\<close>

record 'a probe_state =
  ps_buffer :: "'a ProbeLogBuffer"
  ps_chan :: "'a probeLog list"

definition chan_send :: "nat \<Rightarrow> 'b \<Rightarrow> 'b list \<Rightarrow> bool \<times> 'b list" where
  "chan_send capacity x q = (if length q < capacity then (True, q @ [x]) else (False, q))"

definition probeLog_send :: "'a probeLog \<Rightarrow> 'a probeLog list \<Rightarrow> 'a probeLog list" where
  "probeLog_send log q =
     (case chan_send 100 log q of
        (True, q) \<Rightarrow> q
      | (False, q) \<Rightarrow> snd (chan_send 100 log (tl q)))"

definition Proxy_probeLog :: "'a probeLog \<Rightarrow> 'a probe_state \<Rightarrow> 'a probe_state" where
  "Proxy_probeLog log s =
     s\<lparr>ps_buffer := ProbeLogBuffer_Add log (ps_buffer s), ps_chan := probeLog_send log (ps_chan s)\<rparr>"

section \<open>The server log\<close>

text \<open>
  A subscription: its listener id and context, the channel made for it (100 entries), the recent
  entries its first goroutine has still to send (\<^verbatim>\<open>None\<close> when that goroutine has returned),
  and whether its second goroutine still waits for the context. \<open>s_got\<close> records what the subscriber
  has received.
\<close>

record 'e subscription =
  s_id :: string
  s_ctx :: nat
  s_buf :: "'e list"
  s_closed :: bool
  s_replay :: "'e list option"
  s_waits :: bool
  s_got :: "'e list"

record 'e LogBuffer =
  lb_entries :: "'e list"
  lb_maxSize :: nat
  lb_listeners :: "(string \<times> nat) list"
  lb_subs :: "'e subscription list"
  lb_done :: "nat list"
  lb_panic :: bool

definition NewLogBuffer :: "nat \<Rightarrow> 'e LogBuffer" where
  "NewLogBuffer maxSize = \<lparr>lb_entries = [], lb_maxSize = maxSize, lb_listeners = [], lb_subs = [],
     lb_done = [], lb_panic = False\<rparr>"

definition on_sub :: "nat \<Rightarrow> ('e subscription \<Rightarrow> 'e subscription) \<Rightarrow> 'e LogBuffer \<Rightarrow> 'e LogBuffer" where
  "on_sub n f b = b\<lparr>lb_subs := (lb_subs b)[n := f (lb_subs b ! n)]\<rparr>"

text \<open>A send that does not wait; on a closed channel it panics.\<close>

definition try_send :: "'e \<Rightarrow> nat \<Rightarrow> 'e LogBuffer \<Rightarrow> 'e LogBuffer" where
  "try_send entry n b =
     (if s_closed (lb_subs b ! n) then b\<lparr>lb_panic := True\<rparr>
      else on_sub n (\<lambda>s. s\<lparr>s_buf := snd (chan_send 100 entry (s_buf s))\<rparr>) b)"

definition LogBuffer_Add :: "'e \<Rightarrow> 'e LogBuffer \<Rightarrow> 'e LogBuffer" where
  "LogBuffer_Add entry b =
     (let b = b\<lparr>lb_entries := lb_entries b @ [entry]\<rparr>;
          b = (if lb_maxSize b < length (lb_entries b)
               then b\<lparr>lb_entries := drop (length (lb_entries b) - lb_maxSize b) (lb_entries b)\<rparr> else b)
      in fold (\<lambda>(_, n). try_send entry n) (lb_listeners b) b)"

definition Subscribe :: "nat \<Rightarrow> string \<Rightarrow> 'e LogBuffer \<Rightarrow> 'e LogBuffer" where
  "Subscribe ctx listenerID b =
     b\<lparr>lb_listeners := AList.update listenerID (length (lb_subs b)) (lb_listeners b),
       lb_subs := lb_subs b @ [\<lparr>s_id = listenerID, s_ctx = ctx, s_buf = [], s_closed = False,
         s_replay = Some (lb_entries b), s_waits = True, s_got = []\<rparr>]\<rparr>"

definition Unsubscribe :: "string \<Rightarrow> 'e LogBuffer \<Rightarrow> 'e LogBuffer" where
  "Unsubscribe listenerID b =
     (case map_of (lb_listeners b) listenerID of
        Some n \<Rightarrow>
          (if s_closed (lb_subs b ! n) then b\<lparr>lb_panic := True\<rparr>
           else (on_sub n (\<lambda>s. s\<lparr>s_closed := True\<rparr>) b)\<lparr>lb_listeners := AList.delete listenerID (lb_listeners b)\<rparr>)
      | None \<Rightarrow> b)"

text \<open>
  The steps of the log and its goroutines, labelled with the entry that was added. A goroutine that finds both its context done and its
  channel closed may take either branch of its \<^verbatim>\<open>select\<close>; the send panics then.
\<close>

inductive log_step :: "'e LogBuffer \<Rightarrow> 'e option \<Rightarrow> 'e LogBuffer \<Rightarrow> bool" where
  add: "log_step b (Some e) (LogBuffer_Add e b)"
| subscribe: "log_step b None (Subscribe ctx listenerID b)"
| cancel: "log_step b None (b\<lparr>lb_done := ctx # lb_done b\<rparr>)"
| unsubscribe: "n < length (lb_subs b) \<Longrightarrow> s_waits (lb_subs b ! n) \<Longrightarrow> s_ctx (lb_subs b ! n) \<in> set (lb_done b) \<Longrightarrow>
    log_step b None (Unsubscribe (s_id (lb_subs b ! n)) (on_sub n (\<lambda>s. s\<lparr>s_waits := False\<rparr>) b))"
| replay: "n < length (lb_subs b) \<Longrightarrow> s_replay (lb_subs b ! n) = Some (e # es) \<Longrightarrow> \<not> s_closed (lb_subs b ! n) \<Longrightarrow>
    length (s_buf (lb_subs b ! n)) < 100 \<Longrightarrow>
    log_step b None (on_sub n (\<lambda>s. s\<lparr>s_buf := s_buf s @ [e], s_replay := Some es\<rparr>) b)"
| replay_panic: "n < length (lb_subs b) \<Longrightarrow> s_replay (lb_subs b ! n) = Some (e # es) \<Longrightarrow> s_closed (lb_subs b ! n) \<Longrightarrow>
    log_step b None (b\<lparr>lb_panic := True\<rparr>)"
| replay_stop: "n < length (lb_subs b) \<Longrightarrow> s_replay (lb_subs b ! n) = Some es \<Longrightarrow>
    es = [] \<or> s_ctx (lb_subs b ! n) \<in> set (lb_done b) \<Longrightarrow>
    log_step b None (on_sub n (\<lambda>s. s\<lparr>s_replay := None\<rparr>) b)"
| receive: "n < length (lb_subs b) \<Longrightarrow> s_buf (lb_subs b ! n) = e # q \<Longrightarrow>
    log_step b None (on_sub n (\<lambda>s. s\<lparr>s_buf := q, s_got := s_got s @ [e]\<rparr>) b)"

inductive log_run :: "'e LogBuffer \<Rightarrow> 'e list \<Rightarrow> 'e LogBuffer \<Rightarrow> bool" where
  start: "log_run b [] b"
| step: "log_run b es c \<Longrightarrow> \<not> lb_panic c \<Longrightarrow> log_step c l d \<Longrightarrow>
    log_run b (es @ (case l of None \<Rightarrow> [] | Some e \<Rightarrow> [e])) d"

section \<open>The handler that fills the server log\<close>

record 'v ServerLogHandler =
  sh_attrs :: "(string \<times> 'v) list"
  sh_groups :: "string list"

definition NewServerLogHandler :: "'v ServerLogHandler" where
  "NewServerLogHandler = \<lparr>sh_attrs = [], sh_groups = []\<rparr>"

definition handle_attrs :: "(string \<times> 'v) list \<Rightarrow> (string \<times> 'v) list \<Rightarrow> 'v \<Rightarrow> (string \<times> 'v) list" where
  "handle_attrs own rec level =
     AList.update ''level'' level (fold (\<lambda>(k, v). AList.update k v) (own @ rec) [])"

definition ServerLogHandler_Handle :: "nat \<Rightarrow> string \<Rightarrow> (string \<times> 'v) list \<Rightarrow> 'v \<Rightarrow> 'v ServerLogHandler \<Rightarrow>
    'v ProbeLogEntry LogBuffer \<Rightarrow> 'v ProbeLogEntry LogBuffer" where
  "ServerLogHandler_Handle time message rec level h =
     LogBuffer_Add \<lparr>le_Timestamp = time, le_Message = message, le_ProxyID = [], le_Attrs = handle_attrs (sh_attrs h) rec level\<rparr>"

definition WithAttrs :: "(string \<times> 'v) list \<Rightarrow> 'v ServerLogHandler \<Rightarrow> 'v ServerLogHandler" where
  "WithAttrs attrs h = h\<lparr>sh_attrs := sh_attrs h @ attrs\<rparr>"

definition WithGroup :: "string \<Rightarrow> 'v ServerLogHandler \<Rightarrow> 'v ServerLogHandler" where
  "WithGroup name h = h\<lparr>sh_groups := sh_groups h @ [name]\<rparr>"

section \<open>Both logs keep the newest entries\<close>

lemma drop_over_keep_last:
  "(if n < length xs then drop (length xs - n) xs else xs) = keep_last n xs"
  by (simp add: keep_last_def)

interpretation probe_log: bounded_log GetLogs pb_maxSize ProbeLogBuffer_Add
  by unfold_locales
    (auto simp: ProbeLogBuffer_Add_def GetLogs_def Let_def keep_last_def)

lemma probeLog_send_keep_last: "length q \<le> 100 \<Longrightarrow> probeLog_send x q = keep_last 100 (q @ [x])"
  by (cases q) (auto simp: probeLog_send_def chan_send_def keep_last_def)

lemma try_send_frame [simp]:
  "lb_entries (try_send e n b) = lb_entries b" "lb_maxSize (try_send e n b) = lb_maxSize b"
  "lb_listeners (try_send e n b) = lb_listeners b" "length (lb_subs (try_send e n b)) = length (lb_subs b)"
  "lb_done (try_send e n b) = lb_done b"
  by (simp_all add: try_send_def on_sub_def)

lemma sends_frame [simp]:
  "lb_entries (fold (\<lambda>(_, n). try_send e n) ls b) = lb_entries b"
  "lb_maxSize (fold (\<lambda>(_, n). try_send e n) ls b) = lb_maxSize b"
  "lb_listeners (fold (\<lambda>(_, n). try_send e n) ls b) = lb_listeners b"
  "length (lb_subs (fold (\<lambda>(_, n). try_send e n) ls b)) = length (lb_subs b)"
  "lb_done (fold (\<lambda>(_, n). try_send e n) ls b) = lb_done b"
  by (induction ls arbitrary: b) auto

interpretation server_log: bounded_log lb_entries lb_maxSize LogBuffer_Add
  by unfold_locales
    (auto simp: LogBuffer_Add_def Let_def keep_last_def)

section \<open>Listeners\<close>

text \<open>Every registered listener has an open channel of its own.\<close>

definition listeners_ok :: "'e LogBuffer \<Rightarrow> bool" where
  "listeners_ok b \<longleftrightarrow> distinct (map fst (lb_listeners b)) \<and>
     (\<forall>(i, n) \<in> set (lb_listeners b). n < length (lb_subs b) \<and> \<not> s_closed (lb_subs b ! n) \<and> s_id (lb_subs b ! n) = i)"

lemma listeners_okD:
  "listeners_ok b \<Longrightarrow> (i, n) \<in> set (lb_listeners b) \<Longrightarrow>
    n < length (lb_subs b) \<and> \<not> s_closed (lb_subs b ! n) \<and> s_id (lb_subs b ! n) = i"
  by (auto simp: listeners_ok_def)

lemma listeners_distinct_channels:
  assumes "listeners_ok b" shows "distinct (map snd (lb_listeners b))"
proof -
  have "inj_on snd (set (lb_listeners b))"
    unfolding inj_on_def using listeners_okD [OF assms] by (metis prod.collapse)
  moreover have "distinct (lb_listeners b)"
    using assms distinct_map [of fst] by (auto simp: listeners_ok_def)
  ultimately show ?thesis by (simp add: distinct_map)
qed

lemma listeners_ok_frame:
  assumes "listeners_ok b" and "lb_listeners c = lb_listeners b" and "length (lb_subs c) = length (lb_subs b)"
    and "\<And>n. n < length (lb_subs b) \<Longrightarrow>
      s_closed (lb_subs c ! n) = s_closed (lb_subs b ! n) \<and> s_id (lb_subs c ! n) = s_id (lb_subs b ! n)"
  shows "listeners_ok c"
  using assms unfolding listeners_ok_def by fastforce

text \<open>Adding an entry appends it to the channel of each listener that has room, and to no other.\<close>

definition push :: "'e \<Rightarrow> 'e subscription \<Rightarrow> 'e subscription" where
  "push e s = s\<lparr>s_buf := snd (chan_send 100 e (s_buf s))\<rparr>"

lemma push_frame [simp]:
  "s_closed (push e s) = s_closed s" "s_id (push e s) = s_id s" "s_replay (push e s) = s_replay s"
  "s_got (push e s) = s_got s" "s_ctx (push e s) = s_ctx s" "s_waits (push e s) = s_waits s"
  by (simp_all add: push_def)

lemma sends_push:
  assumes "distinct (map snd ls)" and "\<And>i n. (i, n) \<in> set ls \<Longrightarrow> n < length (lb_subs b) \<and> \<not> s_closed (lb_subs b ! n)"
  shows "lb_panic (fold (\<lambda>(_, n). try_send e n) ls b) = lb_panic b \<and>
    (\<forall>k < length (lb_subs b). lb_subs (fold (\<lambda>(_, n). try_send e n) ls b) ! k =
      (if k \<in> snd ` set ls then push e (lb_subs b ! k) else lb_subs b ! k))"
  using assms
proof (induction ls arbitrary: b)
  case (Cons l ls)
  obtain i n where l: "l = (i, n)" by (cases l)
  have n: "n < length (lb_subs b)" "\<not> s_closed (lb_subs b ! n)"
    using Cons.prems(2) l by auto
  let ?b = "try_send e n b"
  have b': "lb_panic ?b = lb_panic b" "length (lb_subs ?b) = length (lb_subs b)"
    "\<And>k. k < length (lb_subs b) \<Longrightarrow> lb_subs ?b ! k = (if k = n then push e (lb_subs b ! k) else lb_subs b ! k)"
    using n by (auto simp: try_send_def on_sub_def push_def nth_list_update)
  have "n \<notin> snd ` set ls"
    using Cons.prems(1) l by auto
  moreover have "lb_panic (fold (\<lambda>(_, n). try_send e n) ls ?b) = lb_panic ?b \<and>
    (\<forall>k < length (lb_subs ?b). lb_subs (fold (\<lambda>(_, n). try_send e n) ls ?b) ! k =
      (if k \<in> snd ` set ls then push e (lb_subs ?b ! k) else lb_subs ?b ! k))"
  proof (rule Cons.IH)
    show "distinct (map snd ls)" using Cons.prems(1) by simp
    fix j k assume k: "(j, k) \<in> set ls"
    then have "k < length (lb_subs b) \<and> \<not> s_closed (lb_subs b ! k)"
      using Cons.prems(2) by (meson list.set_intros(2))
    then show "k < length (lb_subs ?b) \<and> \<not> s_closed (lb_subs ?b ! k)"
      using b' by auto
  qed
  ultimately show ?case
    using b' l by (auto simp: image_iff)
qed simp

lemma LogBuffer_Add_ok:
  assumes "listeners_ok b"
  shows "lb_panic (LogBuffer_Add e b) = lb_panic b" "lb_listeners (LogBuffer_Add e b) = lb_listeners b"
    "length (lb_subs (LogBuffer_Add e b)) = length (lb_subs b)"
    "\<And>k. k < length (lb_subs b) \<Longrightarrow> lb_subs (LogBuffer_Add e b) ! k =
      (if k \<in> snd ` set (lb_listeners b) then push e (lb_subs b ! k) else lb_subs b ! k)"
proof -
  obtain es where es: "LogBuffer_Add e b = fold (\<lambda>(_, n). try_send e n) (lb_listeners b) (b\<lparr>lb_entries := es\<rparr>)"
  proof (cases "lb_maxSize b < Suc (length (lb_entries b))")
    case True
    then show ?thesis using that [of "drop (Suc (length (lb_entries b)) - lb_maxSize b) (lb_entries b @ [e])"]
      by (simp add: LogBuffer_Add_def Let_def)
  next
    case False
    then show ?thesis using that [of "lb_entries b @ [e]"] by (simp add: LogBuffer_Add_def Let_def)
  qed
  have "\<And>i n. (i, n) \<in> set (lb_listeners b) \<Longrightarrow>
      n < length (lb_subs (b\<lparr>lb_entries := es\<rparr>)) \<and> \<not> s_closed (lb_subs (b\<lparr>lb_entries := es\<rparr>) ! n)"
    using listeners_okD [OF assms] by auto
  from sends_push [OF listeners_distinct_channels [OF assms] this, where e = e]
  show "lb_panic (LogBuffer_Add e b) = lb_panic b"
    "\<And>k. k < length (lb_subs b) \<Longrightarrow> lb_subs (LogBuffer_Add e b) ! k =
      (if k \<in> snd ` set (lb_listeners b) then push e (lb_subs b ! k) else lb_subs b ! k)"
    using es by auto
  show "lb_listeners (LogBuffer_Add e b) = lb_listeners b" "length (lb_subs (LogBuffer_Add e b)) = length (lb_subs b)"
    using es by simp_all
qed

lemma Unsubscribe_ok:
  assumes "listeners_ok b"
  shows "listeners_ok (Unsubscribe i b)" "lb_panic (Unsubscribe i b) = lb_panic b"
    "lb_entries (Unsubscribe i b) = lb_entries b" "lb_maxSize (Unsubscribe i b) = lb_maxSize b"
    "length (lb_subs (Unsubscribe i b)) = length (lb_subs b)"
    "\<And>k. k < length (lb_subs b) \<Longrightarrow> \<exists>c. lb_subs (Unsubscribe i b) ! k = (lb_subs b ! k)\<lparr>s_closed := c\<rparr>"
proof -
  have "listeners_ok (Unsubscribe i b) \<and> lb_panic (Unsubscribe i b) = lb_panic b \<and>
    lb_entries (Unsubscribe i b) = lb_entries b \<and> lb_maxSize (Unsubscribe i b) = lb_maxSize b \<and>
    length (lb_subs (Unsubscribe i b)) = length (lb_subs b) \<and>
    (\<forall>k < length (lb_subs b). \<exists>c. lb_subs (Unsubscribe i b) ! k = (lb_subs b ! k)\<lparr>s_closed := c\<rparr>)"
  proof (cases "map_of (lb_listeners b) i")
    case None
    moreover have "\<exists>c. s = s\<lparr>s_closed := c\<rparr>" for s :: "'a subscription"
      by (intro exI [of _ "s_closed s"]) simp
    ultimately show ?thesis
      using assms by (simp add: Unsubscribe_def)
  next
    case (Some n)
    then have n: "n < length (lb_subs b)" "\<not> s_closed (lb_subs b ! n)" "s_id (lb_subs b ! n) = i"
      using listeners_okD [OF assms map_of_SomeD] by auto
    let ?b = "(on_sub n (\<lambda>s. s\<lparr>s_closed := True\<rparr>) b)\<lparr>lb_listeners := AList.delete i (lb_listeners b)\<rparr>"
    have u: "Unsubscribe i b = ?b"
      using Some n by (simp add: Unsubscribe_def)
    have "listeners_ok ?b"
      unfolding listeners_ok_def
    proof (intro conjI ballI)
      show "distinct (map fst (lb_listeners ?b))"
        using assms by (simp add: listeners_ok_def distinct_delete)
      fix x assume "x \<in> set (lb_listeners ?b)"
      then have "x \<in> set (lb_listeners b)" "fst x \<noteq> i"
        by (auto simp: AList.delete_eq)
      then obtain j m where x: "x = (j, m)" "(j, m) \<in> set (lb_listeners b)" "j \<noteq> i"
        by (metis prod.collapse)
      then show "case x of (j, m) \<Rightarrow> m < length (lb_subs ?b) \<and> \<not> s_closed (lb_subs ?b ! m) \<and> s_id (lb_subs ?b ! m) = j"
        using listeners_okD [OF assms x(2)] n by (cases "m = n") (auto simp: on_sub_def)
    qed
    moreover have "\<exists>c. (lb_subs ?b) ! k = (lb_subs b ! k)\<lparr>s_closed := c\<rparr>" if "k < length (lb_subs b)" for k
      using that n by (cases "k = n") (auto simp: on_sub_def intro: exI [of _ "s_closed (lb_subs b ! k)"])
    ultimately show ?thesis
      by (simp add: u on_sub_def)
  qed
  then show "listeners_ok (Unsubscribe i b)" "lb_panic (Unsubscribe i b) = lb_panic b"
    "lb_entries (Unsubscribe i b) = lb_entries b" "lb_maxSize (Unsubscribe i b) = lb_maxSize b"
    "length (lb_subs (Unsubscribe i b)) = length (lb_subs b)"
    "\<And>k. k < length (lb_subs b) \<Longrightarrow> \<exists>c. lb_subs (Unsubscribe i b) ! k = (lb_subs b ! k)\<lparr>s_closed := c\<rparr>"
    by blast+
qed

lemma on_sub_ok:
  assumes "listeners_ok b" and "\<And>s. s_closed (f s) = s_closed s \<and> s_id (f s) = s_id s"
  shows "listeners_ok (on_sub n f b)"
proof (cases "n < length (lb_subs b)")
  case True
  then show ?thesis
    by (intro listeners_ok_frame [OF assms(1)]) (simp_all add: on_sub_def nth_list_update assms(2))
next
  case False
  then show ?thesis
    by (intro listeners_ok_frame [OF assms(1)]) (simp_all add: on_sub_def list_update_beyond)
qed

lemma Subscribe_ok:
  assumes "listeners_ok b" shows "listeners_ok (Subscribe ctx i b)"
proof -
  have d: "distinct (map fst (AList.update i (length (lb_subs b)) (lb_listeners b)))"
    using assms by (simp add: listeners_ok_def distinct_update)
  have "m < length (lb_subs b) \<and> \<not> s_closed (lb_subs b ! m) \<and> s_id (lb_subs b ! m) = j \<or>
      j = i \<and> m = length (lb_subs b)" if "(j, m) \<in> set (AList.update i (length (lb_subs b)) (lb_listeners b))" for j m
  proof -
    have "map_of (AList.update i (length (lb_subs b)) (lb_listeners b)) j = Some m"
      using that d by (simp add: map_of_eq_Some_iff)
    then have "j = i \<and> m = length (lb_subs b) \<or> map_of (lb_listeners b) j = Some m"
      by (auto simp: update_conv' split: if_splits)
    then show ?thesis
      using listeners_okD [OF assms map_of_SomeD] by blast
  qed
  then have "m < Suc (length (lb_subs b)) \<and> \<not> s_closed (lb_subs (Subscribe ctx i b) ! m) \<and>
      s_id (lb_subs (Subscribe ctx i b) ! m) = j"
    if "(j, m) \<in> set (AList.update i (length (lb_subs b)) (lb_listeners b))" for j m
    using that by (fastforce simp: Subscribe_def nth_append)
  with d show ?thesis
    by (auto simp: listeners_ok_def Subscribe_def)
qed

section \<open>Runs of the log and its goroutines\<close>

lemma log_step_ok:
  assumes "log_step b l c" and "listeners_ok b" shows "listeners_ok c"
  using assms
proof (induction rule: log_step.induct)
  case (add b e)
  show ?case
    by (rule listeners_ok_frame [OF add.prems]) (simp_all add: LogBuffer_Add_ok [OF add.prems])
next
  case (cancel b ctx)
  then show ?case by (auto simp: listeners_ok_def)
next
  case (unsubscribe n b)
  then show ?case by (intro Unsubscribe_ok(1) on_sub_ok) simp_all
next
  case (replay_panic n b e es)
  then show ?case by (auto simp: listeners_ok_def)
qed (auto intro: Subscribe_ok on_sub_ok)

lemma log_step_entries:
  assumes "log_step b l c" and "listeners_ok b"
  shows "lb_maxSize c = lb_maxSize b \<and> (case l of None \<Rightarrow> lb_entries c = lb_entries b | Some e \<Rightarrow> c = LogBuffer_Add e b)"
  using assms
proof (induction rule: log_step.induct)
  case (add b e)
  then show ?case by (simp add: server_log.cap_add)
next
  case (unsubscribe n b)
  then have "listeners_ok (on_sub n (\<lambda>s. s\<lparr>s_waits := False\<rparr>) b)"
    by (intro on_sub_ok) simp_all
  then show ?case by (simp add: Unsubscribe_ok) (simp add: on_sub_def)
qed (simp_all add: Subscribe_def on_sub_def)

lemma log_run_ok:
  assumes "log_run b es c" and "listeners_ok b"
  shows "listeners_ok c \<and> lb_maxSize c = lb_maxSize b \<and> lb_entries c = lb_entries (fold LogBuffer_Add es b)"
  using assms
proof (induction rule: log_run.induct)
  case (step b es c l d)
  then have c: "listeners_ok c" "lb_maxSize c = lb_maxSize b" "lb_entries c = lb_entries (fold LogBuffer_Add es b)"
    by auto
  have "listeners_ok d" "lb_maxSize d = lb_maxSize c"
    using step.hyps(3) c(1) log_step_ok log_step_entries by blast+
  moreover have "lb_entries d = lb_entries (fold LogBuffer_Add (es @ (case l of None \<Rightarrow> [] | Some e \<Rightarrow> [e])) b)"
    using log_step_entries [OF step.hyps(3) c(1)] c
    by (cases l) (simp_all add: server_log.view_add server_log.cap_run)
  ultimately show ?case using c(2) by simp
qed simp

lemma listeners_ok_new: "listeners_ok (NewLogBuffer m)"
  by (simp add: listeners_ok_def NewLogBuffer_def)

text \<open>Whatever the subscribers do and however their goroutines are interleaved, the server log holds the
  newest entries, in the order they were added, up to its size.\<close>

theorem log_keeps_newest:
  assumes "log_run (NewLogBuffer m) es b"
  shows "lb_entries b = keep_last m es"
proof -
  have "lb_entries b = lb_entries (fold LogBuffer_Add es (NewLogBuffer m))"
    using log_run_ok [OF assms listeners_ok_new] by simp
  also have "\<dots> = keep_last m es"
    using server_log.view_from_empty [of "NewLogBuffer m" es] by (simp add: NewLogBuffer_def)
  finally show ?thesis .
qed

lemma sample_log_run:
  "log_run (NewLogBuffer 2) [1, 2, 3 :: nat] (fold LogBuffer_Add [1, 2, 3] (NewLogBuffer 2))"
proof -
  have "log_run (NewLogBuffer 2) [1] (LogBuffer_Add (1 :: nat) (NewLogBuffer 2))"
    using log_run.step [OF log_run.start _ log_step.add, of "NewLogBuffer 2" "1 :: nat"] by (simp add: NewLogBuffer_def)
  then have "log_run (NewLogBuffer 2) ([1] @ [2]) (LogBuffer_Add 2 (LogBuffer_Add (1 :: nat) (NewLogBuffer 2)))"
    using log_run.step [OF _ _ log_step.add, of "NewLogBuffer 2" "[1]" "LogBuffer_Add (1 :: nat) (NewLogBuffer 2)" 2]
    by (simp add: NewLogBuffer_def LogBuffer_Add_def)
  then show ?thesis
    using log_run.step [OF _ _ log_step.add, of "NewLogBuffer 2" "[1] @ [2]"
        "LogBuffer_Add 2 (LogBuffer_Add (1 :: nat) (NewLogBuffer 2))" 3]
    by (simp add: NewLogBuffer_def LogBuffer_Add_def)
qed

theorem log_keeps_newest_witness:
  "lb_entries (fold LogBuffer_Add [1, 2, 3 :: nat] (NewLogBuffer 2)) = [2, 3]"
  using log_keeps_newest [OF sample_log_run] by (simp add: keep_last_def)

text \<open>Adding an entry and removing a listener never send on or close a closed channel. The only step that
  can panic is the replay of recent entries of a subscription whose channel is closed already.\<close>

theorem log_panics_only_in_replay:
  assumes "log_run (NewLogBuffer m) es b" and "\<not> lb_panic b"
  shows "\<not> lb_panic (LogBuffer_Add e b) \<and> \<not> lb_panic (Unsubscribe i b) \<and>
    (\<forall>l c. log_step b l c \<and> lb_panic c \<longrightarrow>
      (\<exists>n < length (lb_subs b). s_closed (lb_subs b ! n) \<and> s_replay (lb_subs b ! n) \<notin> {None, Some []}))"
proof -
  have ok: "listeners_ok b"
    using log_run_ok [OF assms(1) listeners_ok_new] by simp
  have "\<exists>n < length (lb_subs b). s_closed (lb_subs b ! n) \<and> s_replay (lb_subs b ! n) \<notin> {None, Some []}"
    if "log_step b l c" "lb_panic c" for l c
    using that ok assms(2)
  proof (induction rule: log_step.induct)
    case (add b e)
    then show ?case by (simp add: LogBuffer_Add_ok)
  next
    case (unsubscribe n b)
    then have "listeners_ok (on_sub n (\<lambda>s. s\<lparr>s_waits := False\<rparr>) b)"
      by (intro on_sub_ok) simp_all
    then show ?case
      using unsubscribe by (simp add: Unsubscribe_ok) (simp add: on_sub_def)
  qed (auto simp: Subscribe_def on_sub_def)
  then show ?thesis
    using assms(2) LogBuffer_Add_ok(1) [OF ok, of e] Unsubscribe_ok(2) [OF ok, of i] by blast
qed

theorem log_panics_only_in_replay_witness:
  "\<not> lb_panic (LogBuffer_Add 4 (fold LogBuffer_Add [1, 2, 3 :: nat] (NewLogBuffer 2)))"
proof -
  have "\<not> lb_panic (fold LogBuffer_Add [1, 2, 3 :: nat] (NewLogBuffer 2))"
    by (simp add: NewLogBuffer_def LogBuffer_Add_def)
  from log_panics_only_in_replay [OF sample_log_run this] show ?thesis by blast
qed

text \<open>A subscriber that leaves while its recent entries are still being replayed can bring the process down:
  its context is cancelled, the listener is removed and its channel closed, and the goroutine of the
  replay, which nothing recovers, sends on it.\<close>

theorem log_replay_can_panic:
  "\<exists>b. log_run (NewLogBuffer 200) [e] b \<and> lb_panic b"
proof -
  let ?a = "LogBuffer_Add e (NewLogBuffer 200)"
  let ?b = "Subscribe 0 ''api'' ?a"
  let ?c = "?b\<lparr>lb_done := 0 # lb_done ?b\<rparr>"
  let ?d = "Unsubscribe (s_id (lb_subs ?c ! 0)) (on_sub 0 (\<lambda>s. s\<lparr>s_waits := False\<rparr>) ?c)"
  have a: "log_run (NewLogBuffer 200) [e] ?a"
    using log_run.step [OF log_run.start _ log_step.add, of "NewLogBuffer 200" e] by (simp add: NewLogBuffer_def)
  have b: "log_run (NewLogBuffer 200) [e] ?b"
    using log_run.step [OF a _ log_step.subscribe] by (simp add: NewLogBuffer_def LogBuffer_Add_def)
  have c: "log_run (NewLogBuffer 200) [e] ?c"
    using log_run.step [OF b _ log_step.cancel] by (simp add: NewLogBuffer_def LogBuffer_Add_def Subscribe_def)
  have d: "log_run (NewLogBuffer 200) [e] ?d"
    using log_run.step [OF c _ log_step.unsubscribe [of 0]]
    by (simp add: NewLogBuffer_def LogBuffer_Add_def Subscribe_def)
  have "log_step ?d None (?d\<lparr>lb_panic := True\<rparr>)"
    by (rule log_step.replay_panic [of 0 _ e "[]"])
      (simp_all add: NewLogBuffer_def LogBuffer_Add_def Subscribe_def Unsubscribe_def on_sub_def)
  from log_run.step [OF d _ this] have "log_run (NewLogBuffer 200) [e] (?d\<lparr>lb_panic := True\<rparr>)"
    by (simp add: NewLogBuffer_def LogBuffer_Add_def Subscribe_def Unsubscribe_def on_sub_def)
  moreover have "lb_panic (x\<lparr>lb_panic := True\<rparr>)" for x :: "'a LogBuffer"
    by simp
  ultimately show ?thesis by blast
qed

section \<open>What a subscriber receives\<close>

lemma shuffles_snoc_right: "zs \<in> shuffles xs ys \<Longrightarrow> zs @ [z] \<in> shuffles xs (ys @ [z])"
proof (induction xs ys arbitrary: zs rule: shuffles.induct)
  case (2 xs)
  then have "zs = xs" by simp
  moreover have "xs @ [z] \<in> shuffles xs [z]"
    by (induction xs) (auto intro: Cons_in_shuffles_leftI)
  ultimately show ?case by simp
qed auto

lemma shuffles_snoc_left: "zs \<in> shuffles xs ys \<Longrightarrow> zs @ [z] \<in> shuffles (xs @ [z]) ys"
  using shuffles_snoc_right shuffles_commutes by metis

text \<open>
  The invariant of one subscription: what it received and what waits in its channel is a merge of
  the entries replayed to it so far and of some of the entries added since.
\<close>

definition merged :: "'e list \<Rightarrow> 'e list \<Rightarrow> 'e subscription \<Rightarrow> bool" where
  "merged recent since s \<longleftrightarrow> (\<exists>a r. s_got s @ s_buf s \<in> shuffles a r \<and> subseq r since \<and> prefix a recent \<and>
     (\<forall>es. s_replay s = Some es \<longrightarrow> a @ es = recent))"

lemma merged_push:
  assumes "merged recent since s" shows "merged recent (since @ [e]) (push e s)"
proof -
  obtain a r where s: "s_got s @ s_buf s \<in> shuffles a r" "subseq r since" "prefix a recent"
    "\<forall>es. s_replay s = Some es \<longrightarrow> a @ es = recent"
    using assms by (auto simp: merged_def)
  show ?thesis
  proof (cases "length (s_buf s) < 100")
    case True
    have "s_got s @ s_buf s @ [e] \<in> shuffles a (r @ [e])"
      using shuffles_snoc_right [OF s(1), of e] by simp
    moreover have "subseq (r @ [e]) (since @ [e])"
      using s(2) by simp
    ultimately show ?thesis
      using s(3,4) True unfolding merged_def by (intro exI [of _ a] exI [of _ "r @ [e]"]) (simp add: push_def chan_send_def)
  next
    case False
    then show ?thesis
      using s subseq_rev_drop_many [OF s(2), of "[e]"] unfolding merged_def
      by (intro exI [of _ a] exI [of _ r]) (simp add: push_def chan_send_def)
  qed
qed

lemma merged_later: "merged recent since s \<Longrightarrow> merged recent (since @ [e]) s"
  unfolding merged_def using subseq_rev_drop_many by blast

lemma merged_frame:
  "s_got t = s_got s \<Longrightarrow> s_buf t = s_buf s \<Longrightarrow> s_replay t = s_replay s \<Longrightarrow> merged recent since t = merged recent since s"
  by (simp add: merged_def)

lemma merged_replay:
  assumes "merged recent since s" and "s_replay s = Some (e # es)"
  shows "merged recent since (s\<lparr>s_buf := s_buf s @ [e], s_replay := Some es\<rparr>)"
proof -
  obtain a r where s: "s_got s @ s_buf s \<in> shuffles a r" "subseq r since" "a @ e # es = recent"
    using assms by (auto simp: merged_def)
  moreover have "s_got s @ s_buf s @ [e] \<in> shuffles (a @ [e]) r"
    using shuffles_snoc_left [OF s(1), of e] by simp
  ultimately show ?thesis
    unfolding merged_def by (intro exI [of _ "a @ [e]"] exI [of _ r]) (auto simp: prefix_def)
qed

lemma on_sub_length [simp]: "length (lb_subs (on_sub m f b)) = length (lb_subs b)"
  by (simp add: on_sub_def)

lemma on_sub_nth:
  "n < length (lb_subs b) \<Longrightarrow> lb_subs (on_sub m f b) ! n = (if n = m then f (lb_subs b ! n) else lb_subs b ! n)"
  by (cases "m < length (lb_subs b)") (auto simp: on_sub_def list_update_beyond)

lemma log_step_merged:
  assumes "log_step b l c" and "listeners_ok b" and "n < length (lb_subs b)" and "merged recent since (lb_subs b ! n)"
  shows "n < length (lb_subs c) \<and> merged recent (since @ (case l of None \<Rightarrow> [] | Some e \<Rightarrow> [e])) (lb_subs c ! n)"
  using assms
proof (induction rule: log_step.induct)
  case (add b e)
  then show ?case
    by (simp add: LogBuffer_Add_ok merged_push merged_later)
next
  case (unsubscribe m b)
  let ?b = "on_sub m (\<lambda>s. s\<lparr>s_waits := False\<rparr>) b" and ?i = "s_id (lb_subs b ! m)"
  have ok: "listeners_ok ?b"
    using unsubscribe by (intro on_sub_ok) simp_all
  have n: "n < length (lb_subs ?b)" using unsubscribe by (simp add: on_sub_def)
  obtain c where "lb_subs (Unsubscribe ?i ?b) ! n = (lb_subs ?b ! n)\<lparr>s_closed := c\<rparr>"
    using Unsubscribe_ok(6) [OF ok n] by blast
  moreover have "merged recent since ((lb_subs ?b ! n)\<lparr>s_closed := c\<rparr>)"
    using unsubscribe merged_frame [of "(lb_subs ?b ! n)\<lparr>s_closed := c\<rparr>" "lb_subs b ! n"]
    by (simp add: on_sub_nth)
  ultimately show ?case
    using n by (simp add: Unsubscribe_ok(5) [OF ok])
next
  case (replay m b e es)
  with merged_replay [of recent since "lb_subs b ! m" e es] show ?case
    by (cases "n = m") (simp_all add: on_sub_nth)
next
  case (replay_stop m b es)
  have "merged recent since (s\<lparr>s_replay := None\<rparr>)" if "merged recent since s" for s :: "'a subscription"
    using that by (auto simp: merged_def)
  with replay_stop show ?case by (cases "n = m") (simp_all add: on_sub_nth)
next
  case (receive m b e q)
  have "merged recent since (s\<lparr>s_buf := q, s_got := s_got s @ [e]\<rparr>) = merged recent since s"
    if "s_buf s = e # q" for s :: "'a subscription"
    using that by (simp add: merged_def)
  with receive show ?case by (cases "n = m") (simp_all add: on_sub_nth)
qed (auto simp: Subscribe_def nth_append)

lemma log_run_merged:
  assumes "log_run b es c" and "listeners_ok b" and "n < length (lb_subs b)" and "merged recent [] (lb_subs b ! n)"
  shows "n < length (lb_subs c) \<and> merged recent es (lb_subs c ! n)"
  using assms
proof (induction rule: log_run.induct)
  case (step b es c l d)
  then have "listeners_ok c" using log_run_ok by blast
  then show ?case
    using log_step_merged [OF step.hyps(3)] step by blast
qed simp



section \<open>Probe logs of one proxy\<close>

lemma Proxy_probeLog_buffer:
  "ps_buffer (fold Proxy_probeLog logs s) = fold ProbeLogBuffer_Add logs (ps_buffer s)"
  by (induction logs arbitrary: s) (simp_all add: Proxy_probeLog_def)

lemma probeLog_run:
  "length q \<le> 100 \<Longrightarrow> fold probeLog_send logs q = keep_last 100 (q @ logs)"
proof (induction logs arbitrary: q)
  case (Cons x logs)
  then have "fold probeLog_send (x # logs) q = keep_last 100 (keep_last 100 (q @ [x]) @ logs)"
    by (simp add: probeLog_send_keep_last)
  then show ?case by (simp add: keep_last_append_keep_last)
qed simp

lemma probe_state_run:
  fixes logs :: "'a probeLog list"
  defines "s \<equiv> fold Proxy_probeLog logs \<lparr>ps_buffer = NewProbeLogBuffer 100, ps_chan = []\<rparr>"
  shows "GetLogs (ps_buffer s) = keep_last 100 logs" and "ps_chan s = keep_last 100 logs"
proof -
  have "GetLogs (NewProbeLogBuffer 100 :: 'a ProbeLogBuffer) = []"
    "pb_maxSize (NewProbeLogBuffer 100 :: 'a ProbeLogBuffer) = 100"
    by (simp_all add: NewProbeLogBuffer_def GetLogs_def)
  from probe_log.view_from_empty [OF this(1)] this(2)
  show "GetLogs (ps_buffer s) = keep_last 100 logs"
    unfolding s_def by (simp only: Proxy_probeLog_buffer probe_state.select_convs)
  have "ps_chan (fold Proxy_probeLog logs s) = fold probeLog_send logs (ps_chan s)" for s :: "'a probe_state"
    by (induction logs arbitrary: s) (simp_all add: Proxy_probeLog_def)
  then show "ps_chan s = keep_last 100 logs"
    unfolding s_def by (simp add: probeLog_run)
qed

text \<open>The probe log of a proxy keeps the newest 100 logs for later, and a stream nobody reads holds the newest
  100 too: logging never waits and never grows.\<close>

theorem probe_logs_bounded:
  "GetLogs (ps_buffer (fold Proxy_probeLog logs \<lparr>ps_buffer = NewProbeLogBuffer 100, ps_chan = []\<rparr>)) = keep_last 100 logs \<and>
   ps_chan (fold Proxy_probeLog logs \<lparr>ps_buffer = NewProbeLogBuffer 100, ps_chan = []\<rparr>) = keep_last 100 logs"
  using probe_state_run [of logs] by blast

text \<open>The entry a log record becomes: attributes of the record win over those of the handler, the last of
  several with one key wins, and \<^verbatim>\<open>level\<close> is always the level of the record.\<close>

theorem handle_attrs_lookup:
  "map_of (handle_attrs (sh_attrs (WithAttrs attrs h)) rec level) =
    (map_of (rev (sh_attrs h @ attrs @ rec)))(''level'' \<mapsto> level)"
proof -
  have "map_of (fold (\<lambda>(k, v). AList.update k v) kvs al) = map_of al ++ map_of (rev kvs)"
    for kvs and al :: "(string \<times> 'a) list"
  proof (induction kvs arbitrary: al)
    case (Cons x kvs)
    then show ?case by (cases x) (simp add: update_conv' map_add_def fun_eq_iff split: option.splits)
  qed simp
  then show ?thesis
    by (simp add: handle_attrs_def WithAttrs_def update_conv')
qed

end
