(* ===== verification/Metrics.thy ===== *)
theory Metrics
  imports Trabbits_Prelude
begin

text \<open>
  Metrics and statistics in memory: \<^verbatim>\<open>src/metrics/instruments.go\<close>, the struct and the
  setters of \<^verbatim>\<open>src/metrics/metrics.go\<close>, and \<^verbatim>\<open>src/stats.go\<close>. A counter
  is an \<^verbatim>\<open>int64\<close> updated atomically, a 64-bit word here; the counters of a vector
  come into being with the first use of their label.
\<close>

section \<open>Counters and gauges\<close>

type_synonym counter = u64
type_synonym counter_vec = "string \<rightharpoonup> counter"

definition Counter_Inc :: "counter \<Rightarrow> counter" where "Counter_Inc c = c + 1"
definition Gauge_Dec :: "counter \<Rightarrow> counter" where "Gauge_Dec c = c + (- 1)"

definition WithLabelValues :: "counter_vec \<Rightarrow> string \<Rightarrow> counter" where
  "WithLabelValues v lv = (case v lv of Some c \<Rightarrow> c | None \<Rightarrow> 0)"

text \<open>\<^verbatim>\<open>v.WithLabelValues(lv).Inc()\<close> and its relatives.\<close>

definition on_label :: "string \<Rightarrow> (counter \<Rightarrow> counter) \<Rightarrow> counter_vec \<Rightarrow> counter_vec" where
  "on_label lv f v = v(lv \<mapsto> f (WithLabelValues v lv))"

definition Vec_Reset :: "counter_vec \<Rightarrow> counter_vec" where
  "Vec_Reset v = Map.empty"

lemma WithLabelValues_on_label:
  "WithLabelValues (on_label lv f v) l = (if l = lv then f (WithLabelValues v lv) else WithLabelValues v l)"
  by (simp add: WithLabelValues_def on_label_def)

record Metrics =
  ClientConnections :: counter
  ClientTotalConnections :: counter
  ClientConnectionErrors :: counter
  ClientReceivedFrames :: counter
  ClientSentFrames :: counter
  UpstreamConnections :: counter_vec
  UpstreamTotalConnections :: counter_vec
  UpstreamConnectionErrors :: counter_vec
  UpstreamHealthyNodes :: counter_vec
  UpstreamUnhealthyNodes :: counter_vec
  ProcessedMessages :: counter_vec
  ErroredMessages :: counter_vec
  LoggerStats :: counter_vec
  PanicRecoveries :: counter_vec

definition NewMetrics :: Metrics where
  "NewMetrics = \<lparr>ClientConnections = 0, ClientTotalConnections = 0, ClientConnectionErrors = 0,
     ClientReceivedFrames = 0, ClientSentFrames = 0, UpstreamConnections = Map.empty,
     UpstreamTotalConnections = Map.empty, UpstreamConnectionErrors = Map.empty,
     UpstreamHealthyNodes = Map.empty, UpstreamUnhealthyNodes = Map.empty,
     ProcessedMessages = Map.empty, ErroredMessages = Map.empty, LoggerStats = Map.empty,
     PanicRecoveries = Map.empty\<rparr>"

definition SetHealthyNodes :: "string \<Rightarrow> int \<Rightarrow> Metrics \<Rightarrow> Metrics" where
  "SetHealthyNodes upstream count m =
     m\<lparr>UpstreamHealthyNodes := on_label upstream (\<lambda>_. word_of_int count) (UpstreamHealthyNodes m)\<rparr>"

definition SetUnhealthyNodes :: "string \<Rightarrow> int \<Rightarrow> Metrics \<Rightarrow> Metrics" where
  "SetUnhealthyNodes upstream count m =
     m\<lparr>UpstreamUnhealthyNodes := on_label upstream (\<lambda>_. word_of_int count) (UpstreamUnhealthyNodes m)\<rparr>"

section \<open>Statistics of one proxy\<close>

text \<open>The \<^verbatim>\<open>sync.Map\<close> of counters is an association list: \<^verbatim>\<open>Range\<close> visits it in some order.\<close>

record ProxyStats =
  methodCounts :: "(string \<times> u64) list"
  receivedFrames :: u64
  sentFrames :: u64

definition NewProxyStats :: ProxyStats where
  "NewProxyStats = \<lparr>methodCounts = [], receivedFrames = 0, sentFrames = 0\<rparr>"

definition IncrementMethod :: "string \<Rightarrow> ProxyStats \<Rightarrow> ProxyStats" where
  "IncrementMethod method s =
     (let v = (case map_of (methodCounts s) method of Some c \<Rightarrow> c | None \<Rightarrow> 0)
      in s\<lparr>methodCounts := AList.update method (v + 1) (methodCounts s)\<rparr>)"

definition IncrementReceivedFrames :: "ProxyStats \<Rightarrow> ProxyStats" where
  "IncrementReceivedFrames s = s\<lparr>receivedFrames := receivedFrames s + 1\<rparr>"

definition IncrementSentFrames :: "ProxyStats \<Rightarrow> ProxyStats" where
  "IncrementSentFrames s = s\<lparr>sentFrames := sentFrames s + 1\<rparr>"

definition GetMethodCount :: "string \<Rightarrow> ProxyStats \<Rightarrow> u64" where
  "GetMethodCount method s = (case map_of (methodCounts s) method of None \<Rightarrow> 0 | Some c \<Rightarrow> c)"

definition GetAllMethodCounts :: "ProxyStats \<Rightarrow> (string \<times> u64) list" where
  "GetAllMethodCounts s = fold (\<lambda>(method, count) result. AList.update method count result) (methodCounts s) []"

definition GetTotalFrames :: "ProxyStats \<Rightarrow> u64" where
  "GetTotalFrames s = receivedFrames s + sentFrames s"

definition GetTotalMethods :: "ProxyStats \<Rightarrow> u64" where
  "GetTotalMethods s = fold (\<lambda>(_, c) total. total + c) (methodCounts s) 0"

record StatsSnapshot =
  sn_Methods :: "(string \<times> u64) list"
  sn_TotalMethods :: u64
  sn_ReceivedFrames :: u64
  sn_SentFrames :: u64
  sn_TotalFrames :: u64

definition Snapshot :: "ProxyStats \<Rightarrow> StatsSnapshot" where
  "Snapshot s = \<lparr>sn_Methods = GetAllMethodCounts s, sn_TotalMethods = GetTotalMethods s,
     sn_ReceivedFrames = receivedFrames s, sn_SentFrames = sentFrames s, sn_TotalFrames = GetTotalFrames s\<rparr>"

section \<open>The method counters add up\<close>

lemma fold_add_pairs:
  "fold (\<lambda>(_, c) total. total + c) xs t = t + sum_list (map snd xs)" for t :: "'a::comm_monoid_add"
  by (induction xs arbitrary: t) (auto simp: algebra_simps)

lemma GetTotalMethods_sum: "GetTotalMethods s = sum_list (map snd (methodCounts s))"
  by (simp add: GetTotalMethods_def fold_add_pairs)

lemma sum_update:
  "sum_list (map snd (AList.update k (v :: u64) xs)) =
    sum_list (map snd xs) + (v - (case map_of xs k of None \<Rightarrow> 0 | Some w \<Rightarrow> w))"
  by (induction xs) (auto split: option.splits)

lemma total_IncrementMethod: "GetTotalMethods (IncrementMethod m s) = GetTotalMethods s + 1"
  by (simp add: GetTotalMethods_sum IncrementMethod_def sum_update split: option.splits)

lemma count_IncrementMethod:
  "GetMethodCount k (IncrementMethod m s) = GetMethodCount k s + (if k = m then 1 else 0)"
  by (simp add: GetMethodCount_def IncrementMethod_def update_conv' split: option.splits)

lemma fold_update_append:
  "distinct (map fst (acc @ xs)) \<Longrightarrow> fold (\<lambda>(k, v) r. AList.update k v r) xs acc = acc @ xs"
proof (induction xs arbitrary: acc)
  case (Cons x xs)
  then show ?case
    by (cases x) (auto simp: distinct_update_new)
qed simp

lemma stats_counts:
  "GetMethodCount k (fold IncrementMethod ms s) = GetMethodCount k s + word_of_nat (count_list ms k)"
  "GetTotalMethods (fold IncrementMethod ms s) = GetTotalMethods s + word_of_nat (length ms)"
  by (induction ms arbitrary: s) (simp_all add: count_IncrementMethod total_IncrementMethod)

lemma distinct_IncrementMethod:
  "distinct (map fst (methodCounts s)) \<Longrightarrow> distinct (map fst (methodCounts (IncrementMethod m s)))"
  by (simp add: IncrementMethod_def distinct_update)

section \<open>Properties\<close>

text \<open>After any sequence of methods the statistics of a proxy hold, for every method, how often it
  came, and their snapshot gives the number of all methods as the total and each method with its
  count exactly once.\<close>

theorem stats_snapshot_counts:
  "let s = fold IncrementMethod ms NewProxyStats; sn = Snapshot s in
    sn_TotalMethods sn = word_of_nat (length ms) \<and>
    distinct (map fst (sn_Methods sn)) \<and>
    (\<forall>k. (case map_of (sn_Methods sn) k of None \<Rightarrow> 0 | Some c \<Rightarrow> c) = word_of_nat (count_list ms k))"
proof -
  let ?s = "fold IncrementMethod ms NewProxyStats"
  have d: "distinct (map fst (methodCounts ?s))"
    by (induction ms rule: rev_induct) (simp_all add: distinct_IncrementMethod, simp add: NewProxyStats_def)
  then have "GetAllMethodCounts ?s = methodCounts ?s"
    using fold_update_append [of "[]"] by (simp add: GetAllMethodCounts_def)
  moreover have "GetTotalMethods NewProxyStats = 0" "\<And>k. GetMethodCount k NewProxyStats = 0"
    by (simp_all add: GetTotalMethods_def GetMethodCount_def NewProxyStats_def)
  ultimately show ?thesis
    using d stats_counts(1) [of _ ms NewProxyStats] stats_counts(2) [of ms NewProxyStats]
    by (simp add: Snapshot_def Let_def GetMethodCount_def)
qed

end
