(* ===== verification/Client_IO.thy ===== *)
theory Client_IO
  imports Amqp_Frames Config Metrics
begin

text \<open>
  Talking to the client: the buffered writer that \<^verbatim>\<open>amqp091.NewWriter\<close> puts on the
  connection, \<^verbatim>\<open>WriteFrame\<close> and \<^verbatim>\<open>WriteFrameNoFlush\<close>, and \<^verbatim>\<open>send\<close>
  and \<^verbatim>\<open>recvWithTimeout\<close> of \<^verbatim>\<open>src/proxy.go\<close>.

  What the client sends is the list of what the next reads of a frame give: a frame, an error of
  the reader, or a timeout; after its end every read gives end-of-file. What the client gets are
  the bytes the connection has taken; the connection may start to fail after some number of
  writes. The heartbeat timer and the probe log, which no decision depends on, are left out.
\<close>

section \<open>Names and errors\<close>

primrec message_name :: "message \<Rightarrow> string" where
  "message_name (ConnectionStart a0 a1 a2 a3 a4) = ''ConnectionStart''"
| "message_name (ConnectionStartOk a0 a1 a2 a3) = ''ConnectionStartOk''"
| "message_name (ConnectionSecure a0) = ''ConnectionSecure''"
| "message_name (ConnectionSecureOk a0) = ''ConnectionSecureOk''"
| "message_name (ConnectionTune a0 a1 a2) = ''ConnectionTune''"
| "message_name (ConnectionTuneOk a0 a1 a2) = ''ConnectionTuneOk''"
| "message_name (ConnectionOpen a0 a1 a2) = ''ConnectionOpen''"
| "message_name (ConnectionOpenOk a0) = ''ConnectionOpenOk''"
| "message_name (ConnectionClose a0 a1 a2 a3) = ''ConnectionClose''"
| "message_name ConnectionCloseOk = ''ConnectionCloseOk''"
| "message_name (ConnectionBlocked a0) = ''ConnectionBlocked''"
| "message_name ConnectionUnblocked = ''ConnectionUnblocked''"
| "message_name (ConnectionUpdateSecret a0 a1) = ''ConnectionUpdateSecret''"
| "message_name ConnectionUpdateSecretOk = ''ConnectionUpdateSecretOk''"
| "message_name (ChannelOpen a0) = ''ChannelOpen''"
| "message_name (ChannelOpenOk a0) = ''ChannelOpenOk''"
| "message_name (ChannelFlow a0) = ''ChannelFlow''"
| "message_name (ChannelFlowOk a0) = ''ChannelFlowOk''"
| "message_name (ChannelClose a0 a1 a2 a3) = ''ChannelClose''"
| "message_name ChannelCloseOk = ''ChannelCloseOk''"
| "message_name (ExchangeDeclare a0 a1 a2 a3 a4 a5 a6 a7 a8) = ''ExchangeDeclare''"
| "message_name ExchangeDeclareOk = ''ExchangeDeclareOk''"
| "message_name (ExchangeDelete a0 a1 a2 a3) = ''ExchangeDelete''"
| "message_name ExchangeDeleteOk = ''ExchangeDeleteOk''"
| "message_name (ExchangeBind a0 a1 a2 a3 a4 a5) = ''ExchangeBind''"
| "message_name ExchangeBindOk = ''ExchangeBindOk''"
| "message_name (ExchangeUnbind a0 a1 a2 a3 a4 a5) = ''ExchangeUnbind''"
| "message_name ExchangeUnbindOk = ''ExchangeUnbindOk''"
| "message_name (QueueDeclare a0 a1 a2 a3 a4 a5 a6 a7) = ''QueueDeclare''"
| "message_name (QueueDeclareOk a0 a1 a2) = ''QueueDeclareOk''"
| "message_name (QueueBind a0 a1 a2 a3 a4 a5) = ''QueueBind''"
| "message_name QueueBindOk = ''QueueBindOk''"
| "message_name (QueueUnbind a0 a1 a2 a3 a4) = ''QueueUnbind''"
| "message_name QueueUnbindOk = ''QueueUnbindOk''"
| "message_name (QueuePurge a0 a1 a2) = ''QueuePurge''"
| "message_name (QueuePurgeOk a0) = ''QueuePurgeOk''"
| "message_name (QueueDelete a0 a1 a2 a3 a4) = ''QueueDelete''"
| "message_name (QueueDeleteOk a0) = ''QueueDeleteOk''"
| "message_name (BasicQos a0 a1 a2) = ''BasicQos''"
| "message_name BasicQosOk = ''BasicQosOk''"
| "message_name (BasicConsume a0 a1 a2 a3 a4 a5 a6 a7) = ''BasicConsume''"
| "message_name (BasicConsumeOk a0) = ''BasicConsumeOk''"
| "message_name (BasicCancel a0 a1) = ''BasicCancel''"
| "message_name (BasicCancelOk a0) = ''BasicCancelOk''"
| "message_name (BasicPublish a0 a1 a2 a3 a4 a5 a6) = ''BasicPublish''"
| "message_name (BasicReturn a0 a1 a2 a3 a4 a5) = ''BasicReturn''"
| "message_name (BasicDeliver a0 a1 a2 a3 a4 a5 a6) = ''BasicDeliver''"
| "message_name (BasicGet a0 a1 a2) = ''BasicGet''"
| "message_name (BasicGetOk a0 a1 a2 a3 a4 a5 a6) = ''BasicGetOk''"
| "message_name (BasicGetEmpty a0) = ''BasicGetEmpty''"
| "message_name (BasicAck a0 a1) = ''BasicAck''"
| "message_name (BasicReject a0 a1) = ''BasicReject''"
| "message_name (BasicRecoverAsync a0) = ''BasicRecoverAsync''"
| "message_name (BasicRecover a0) = ''BasicRecover''"
| "message_name BasicRecoverOk = ''BasicRecoverOk''"
| "message_name (BasicNack a0 a1 a2) = ''BasicNack''"
| "message_name TxSelect = ''TxSelect''"
| "message_name TxSelectOk = ''TxSelectOk''"
| "message_name TxCommit = ''TxCommit''"
| "message_name TxCommitOk = ''TxCommitOk''"
| "message_name TxRollback = ''TxRollback''"
| "message_name TxRollbackOk = ''TxRollbackOk''"
| "message_name (ConfirmSelect a0) = ''ConfirmSelect''"
| "message_name ConfirmSelectOk = ''ConfirmSelectOk''"

definition go_type :: "message option \<Rightarrow> string" where
  "go_type m = (case m of None \<Rightarrow> ''<nil>'' | Some x \<Rightarrow> ''*amqp091.'' @ message_name x)"

text \<open>\<^verbatim>\<open>amqp091.TypeName\<close>: it trims a set of characters, not a prefix.\<close>

definition TypeName :: "message \<Rightarrow> string" where
  "TypeName m = dropWhile (\<lambda>c. c \<in> set ''*amqp091.'') (go_type (Some m))"

text \<open>
  Errors of the proxy: one that \<^verbatim>\<open>process\<close> answers with its AMQP message, any other Go
  error with its text, a panic (recovered in \<^verbatim>\<open>handleConnection\<close>, which ends the
  connection), and the value of a loop that has used up its fuel.
\<close>

datatype perr = AMQPErr u16 string | GoErr string | Panic string | Diverges

datatype read_fail = ReadErr read_error | ReadTimeout

primrec read_error_text :: "read_error \<Rightarrow> string" where
  "read_error_text EOF = ''EOF''"
| "read_error_text UnexpectedEOF = ''unexpected EOF''"
| "read_error_text ErrSyntax = ''Exception (502) Reason: '' @ CHR 0x22 # ''invalid field or value inside of a frame'' @ [CHR 0x22]"
| "read_error_text ErrFrame = ''Exception (501) Reason: '' @ CHR 0x22 # ''frame could not be parsed'' @ [CHR 0x22]"
| "read_error_text ErrHeartbeatPayload = ''Heartbeats should not have a payload''"
| "read_error_text (BadMethodClass c) = ''Bad method frame, unknown class '' @ show_nat (unat c)"
| "read_error_text (BadMethod c m) =
     ''Bad method frame, unknown method '' @ show_nat (unat m) @ '' for class '' @ show_nat (unat c)"
| "read_error_text PanicMakeslice = ''panic''"
| "read_error_text OutOfFuel = ''fuel''"

primrec read_fail_text :: "read_fail \<Rightarrow> string" where
  "read_fail_text (ReadErr e) = read_error_text e"
| "read_fail_text ReadTimeout = ''i/o timeout''"

section \<open>The buffered writer\<close>

record cwriter =
  cw_sock :: bytes
  cw_buf :: bytes
  cw_err :: bool
  cw_left :: "nat option"

definition bufio_size :: nat where "bufio_size = 4096"

definition conn_write :: "bytes \<Rightarrow> cwriter \<Rightarrow> cwriter" where
  "conn_write b w =
     (if cw_left w = Some 0 then w\<lparr>cw_err := True\<rparr>
      else w\<lparr>cw_sock := cw_sock w @ b, cw_left := map_option (\<lambda>n. n - 1) (cw_left w)\<rparr>)"

definition bufio_flush :: "cwriter \<Rightarrow> cwriter" where
  "bufio_flush w =
     (if cw_err w \<or> cw_buf w = [] then w
      else let w' = conn_write (cw_buf w) w in if cw_err w' then w' else w'\<lparr>cw_buf := []\<rparr>)"

text \<open>\<^verbatim>\<open>bufio.Writer.Write\<close>: its loop writes large data past an empty buffer and fills and
  flushes a buffer that is in use.\<close>

function bufio_write :: "bytes \<Rightarrow> cwriter \<Rightarrow> cwriter" where
  "bufio_write b w =
     (if cw_err w then w
      else if length b \<le> bufio_size - length (cw_buf w) then w\<lparr>cw_buf := cw_buf w @ b\<rparr>
      else if cw_buf w = [] then conn_write b w
      else let n = bufio_size - length (cw_buf w)
           in bufio_write (drop n b) (bufio_flush (w\<lparr>cw_buf := cw_buf w @ take n b\<rparr>)))"
  by pat_completeness auto
termination
  by (relation "measure (\<lambda>(b, w). if cw_err w then 0 else if cw_buf w = [] then 1 else 2)")
    (auto simp: bufio_flush_def conn_write_def Let_def)

declare bufio_write.simps [simp del]

text \<open>A method or header frame is three writes, a body or heartbeat frame one.\<close>

definition frame_chunks :: "frame \<Rightarrow> bytes \<Rightarrow> bytes list" where
  "frame_chunks f b =
     (let parts = [take 7 b] @ (if 8 < length b then [take (length b - 8) (drop 7 b)] else []) @
            [drop (length b - 1) b]
      in case f of MethodFrame _ _ _ _ \<Rightarrow> parts | HeaderFrame _ _ _ _ _ \<Rightarrow> parts
         | BodyFrame _ _ \<Rightarrow> [b] | HeartbeatFrame _ \<Rightarrow> [b])"

definition Writer_WriteFrameNoFlush :: "frame \<Rightarrow> cwriter \<Rightarrow> bool \<times> cwriter" where
  "Writer_WriteFrameNoFlush f w =
     (case WriteFrame f of
        Inl e \<Rightarrow> (False, w)
      | Inr b \<Rightarrow> (let w' = fold bufio_write (frame_chunks f b) w in (\<not> cw_err w', w')))"

definition Writer_WriteFrame :: "frame \<Rightarrow> cwriter \<Rightarrow> bool \<times> cwriter" where
  "Writer_WriteFrame f w =
     (case Writer_WriteFrameNoFlush f w of
        (False, w') \<Rightarrow> (False, w')
      | (True, w') \<Rightarrow> (let w'' = bufio_flush w' in (\<not> cw_err w'', w'')))"

section \<open>Sending\<close>

record tuned =
  channelMax :: u16
  frameMax :: u32
  heartbeat :: u16

record client =
  k_w :: cwriter
  k_in :: "(read_fail + frame) list"
  k_tuned :: tuned
  k_stats :: ProxyStats
  k_metrics :: Metrics

text \<open>The two counters that every sent frame increments.\<close>

definition count_sent :: "'a client_scheme \<Rightarrow> 'a client_scheme" where
  "count_sent p = p\<lparr>k_metrics := (k_metrics p)\<lparr>ClientSentFrames := Counter_Inc (ClientSentFrames (k_metrics p))\<rparr>,
     k_stats := IncrementSentFrames (k_stats p)\<rparr>"

definition write_with :: "(frame \<Rightarrow> cwriter \<Rightarrow> bool \<times> cwriter) \<Rightarrow> string \<Rightarrow> frame \<Rightarrow>
    'a client_scheme \<Rightarrow> (perr + unit) \<times> 'a client_scheme" where
  "write_with wr what f p =
     (case wr f (k_w p) of
        (False, w) \<Rightarrow> (Inl (GoErr (''failed to write '' @ what)), p\<lparr>k_w := w\<rparr>)
      | (True, w) \<Rightarrow> (Inr (), count_sent (p\<lparr>k_w := w\<rparr>)))"

text \<open>
  The loop over the body. The slice \<^verbatim>\<open>body[offset:end]\<close> panics when the frame size is below
  the eight bytes of overhead, and with a frame size of exactly eight the loop does not advance.
\<close>

fun send_body :: "nat \<Rightarrow> u16 \<Rightarrow> bytes \<Rightarrow> nat \<Rightarrow> 'a client_scheme \<Rightarrow> (perr + unit) \<times> 'a client_scheme" where
  "send_body 0 channel body offset p = (Inl Diverges, p)"
| "send_body (Suc n) channel body offset p =
     (if offset < length body then
        (let end = min (int offset + uint (frameMax (k_tuned p)) - 8) (int (length body)) in
         if end < int offset then (Inl (Panic ''slice bounds out of range''), p)
         else case write_with Writer_WriteFrame ''BodyFrame''
                (BodyFrame channel (take (nat end - offset) (drop offset body))) p of
           (Inl e, p) \<Rightarrow> (Inl e, p)
         | (Inr _, p) \<Rightarrow> send_body n channel body (nat end) p)
      else (Inr (), p))"

definition send :: "u16 \<Rightarrow> message \<Rightarrow> 'a client_scheme \<Rightarrow> (perr + unit) \<times> 'a client_scheme" where
  "send channel m p =
     (case GetContent m of
        Some (props, body) \<Rightarrow>
          (case write_with Writer_WriteFrameNoFlush ''MethodFrame'' (MethodFrame channel 0 0 (Some m)) p of
             (Inl e, p) \<Rightarrow> (Inl e, p)
           | (Inr _, p) \<Rightarrow>
               (case write_with Writer_WriteFrameNoFlush ''HeaderFrame''
                  (HeaderFrame channel (fst (message_ID m)) 0 (word_of_nat (length body)) props) p of
                  (Inl e, p) \<Rightarrow> (Inl e, p)
                | (Inr _, p) \<Rightarrow> send_body (length body + 1) channel body 0 p))
      | None \<Rightarrow> write_with Writer_WriteFrame ''MethodFrame'' (MethodFrame channel 0 0 (Some m)) p)"

section \<open>Receiving\<close>

text \<open>
  \<^verbatim>\<open>recvWithTimeout\<close>: the message \<open>m\<close> is what has been read of it so far, \<open>header\<close> the
  properties of the last header frame, \<open>remaining\<close> Go's \<^verbatim>\<open>int\<close> of 64 bits, which wraps: a header
  size of \<open>2 ^ 63\<close> or more is negative here, and the body ends with the first body frame.
\<close>

fun recv_loop :: "u16 \<Rightarrow> message \<Rightarrow> properties option \<Rightarrow> bytes \<Rightarrow> u64 \<Rightarrow> (read_fail + frame) list \<Rightarrow> Metrics \<Rightarrow>
    (perr + message) \<times> (read_fail + frame) list \<times> Metrics" where
  "recv_loop channel m header body remaining [] mx = (Inl (GoErr ''frame err, read: EOF''), [], mx)"
| "recv_loop channel m header body remaining (Inl e # ins) mx =
     (Inl (if e = ReadErr PanicMakeslice then Panic ''makeslice: len out of range''
           else GoErr (''frame err, read: '' @ read_fail_text e)), ins, mx)"
| "recv_loop channel m header body remaining (Inr f # ins) mx =
     (let mx = mx\<lparr>ClientReceivedFrames := Counter_Inc (ClientReceivedFrames mx)\<rparr> in
      if fr_channel f \<noteq> channel
      then (Inl (GoErr (''expected frame on channel '' @ show_nat (unat channel) @ '', got channel '' @
              show_nat (unat (fr_channel f)))), ins, mx)
      else case f of
        HeartbeatFrame _ \<Rightarrow> recv_loop channel m header body remaining ins mx
      | HeaderFrame _ _ _ Size props \<Rightarrow>
          if Size = 0 then
            (if GetContent m = None then (Inl (Panic ''interface conversion''), ins, mx)
             else (Inr (SetContent props [] m), ins, mx))
          else recv_loop channel m (Some props) body Size ins mx
      | BodyFrame _ b \<Rightarrow>
          if sint (remaining - word_of_nat (length b)) \<le> 0 then
            (if GetContent m = None then (Inl (Panic ''interface conversion''), ins, mx)
             else case header of
               None \<Rightarrow> (Inl (Panic ''nil pointer dereference''), ins, mx)
             | Some props \<Rightarrow> (Inr (SetContent props (body @ b) m), ins, mx))
          else recv_loop channel m header (body @ b) (remaining - word_of_nat (length b)) ins mx
      | MethodFrame _ _ _ msg \<Rightarrow>
          (case msg of
             None \<Rightarrow> (Inl (GoErr (''expected method type: '' @ go_type (Some m) @ '', got: '' @ go_type msg)), ins, mx)
           | Some x \<Rightarrow>
               if message_name m = message_name x then
                 (if GetContent x = None then (Inr x, ins, mx)
                  else recv_loop channel x header body remaining ins mx)
               else (Inl (GoErr (''expected method type: '' @ go_type (Some m) @ '', got: '' @ go_type msg)), ins, mx)))"

definition recv :: "u16 \<Rightarrow> message \<Rightarrow> 'a client_scheme \<Rightarrow> (perr + message) \<times> 'a client_scheme" where
  "recv channel m p =
     (case recv_loop channel m None [] 0 (k_in p) (k_metrics p) of
        (res, ins, mx) \<Rightarrow> (res, p\<lparr>k_in := ins, k_metrics := mx\<rparr>))"

section \<open>Laws of the writer\<close>

text \<open>A connection that takes every write.\<close>

definition live :: "cwriter \<Rightarrow> bool" where
  "live w \<longleftrightarrow> \<not> cw_err w \<and> cw_left w = None"

text \<open>Everything written so far, on the connection or still in the buffer.\<close>

definition written :: "cwriter \<Rightarrow> bytes" where
  "written w = cw_sock w @ cw_buf w"

lemma live_conn_write: "live w \<Longrightarrow> live (conn_write b w) \<and> cw_sock (conn_write b w) = cw_sock w @ b \<and>
    cw_buf (conn_write b w) = cw_buf w"
  by (simp add: live_def conn_write_def)

lemma live_flush:
  "live w \<Longrightarrow> live (bufio_flush w) \<and> cw_buf (bufio_flush w) = [] \<and> cw_sock (bufio_flush w) = written w"
  using live_conn_write [of w "cw_buf w"]
  by (auto simp: bufio_flush_def Let_def live_def written_def)

lemma live_bufio_write: "live w \<Longrightarrow> live (bufio_write b w) \<and> written (bufio_write b w) = written w @ b"
proof (induction b w rule: bufio_write.induct)
  case (1 b w)
  let ?n = "bufio_size - length (cw_buf w)"
  let ?w = "w\<lparr>cw_buf := cw_buf w @ take ?n b\<rparr>"
  have "live ?w" using 1 by (simp add: live_def)
  then have fl: "live (bufio_flush ?w)" "written (bufio_flush ?w) = written w @ take ?n b"
    using live_flush [of ?w] by (simp_all add: written_def)
  have eq: "bufio_write b w =
     (if length b \<le> ?n then w\<lparr>cw_buf := cw_buf w @ b\<rparr>
      else if cw_buf w = [] then conn_write b w
      else bufio_write (drop ?n b) (bufio_flush ?w))"
    using 1 by (subst bufio_write.simps) (simp add: live_def Let_def)
  consider "length b \<le> ?n" | "\<not> length b \<le> ?n" "cw_buf w = []" | "\<not> length b \<le> ?n" "cw_buf w \<noteq> []"
    by blast
  then show ?case
  proof cases
    case 3
    then have "live (bufio_write (drop ?n b) (bufio_flush ?w)) \<and>
        written (bufio_write (drop ?n b) (bufio_flush ?w)) = written (bufio_flush ?w) @ drop ?n b"
      using 1 fl by (intro "1.IH") (auto simp: live_def)
    then show ?thesis
      using 3 fl by (simp add: eq)
  qed (use 1 live_conn_write [of w b] in \<open>auto simp: eq live_def written_def\<close>)
qed

lemma live_fold_write:
  "live w \<Longrightarrow> live (fold bufio_write bs w) \<and> written (fold bufio_write bs w) = written w @ concat bs"
  by (induction bs arbitrary: w) (simp_all add: live_bufio_write)

lemma writeFrame_long: "8 \<le> length (writeFrameBuffer ty ch payload)"
  by (simp add: writeFrameBuffer_eq)

lemma concat_frame_chunks: "WriteFrame f = Inr b \<Longrightarrow> concat (frame_chunks f b) = b"
proof -
  assume w: "WriteFrame f = Inr b"
  have cut: "take 7 b @ take (length b - 8) (drop 7 b) @ drop (length b - 1) b = b" if "8 \<le> length b"
  proof -
    have "drop 7 b = take (length b - 8) (drop 7 b) @ drop (length b - 8) (drop 7 b)"
      by (rule append_take_drop_id [symmetric])
    moreover have "drop (length b - 8) (drop 7 b) = drop (length b - 1) b"
      using that by simp
    ultimately show ?thesis by (metis append_take_drop_id)
  qed
  have "8 \<le> length b" if "\<nexists>ch body. f = BodyFrame ch body" "\<nexists>ch. f = HeartbeatFrame ch"
    using w that writeFrame_long
    by (cases f) (auto simp: MethodFrame_Write_def HeaderFrame_Write_def split: option.splits sum.splits prod.splits)
  then show ?thesis
    using cut by (cases f) (auto simp: frame_chunks_def Let_def)
qed

lemma live_NoFlush:
  assumes "live w" and "WriteFrame f = Inr b"
  obtains w' where "Writer_WriteFrameNoFlush f w = (True, w')" and "live w'" and "written w' = written w @ b"
  using live_fold_write [OF assms(1), of "frame_chunks f b"] concat_frame_chunks [OF assms(2)] assms(2)
  by (auto simp: Writer_WriteFrameNoFlush_def Let_def live_def)

lemma live_WriteFrame:
  assumes "live w" and "WriteFrame f = Inr b"
  obtains w' where "Writer_WriteFrame f w = (True, w')" and "live w'" and "cw_buf w' = []"
    and "cw_sock w' = written w @ b"
proof -
  obtain v where v: "Writer_WriteFrameNoFlush f w = (True, v)" "live v" "written v = written w @ b"
    using live_NoFlush [OF assms] .
  then show ?thesis
    using live_flush [of v] that [of "bufio_flush v"] by (simp add: Writer_WriteFrame_def Let_def live_def)
qed

section \<open>What send puts on the wire\<close>

function chunks :: "nat \<Rightarrow> 'a list \<Rightarrow> 'a list list" where
  "chunks k xs = (if k = 0 \<or> xs = [] then [] else take k xs # chunks k (drop k xs))"
  by pat_completeness auto
termination
  by (relation "measure (\<lambda>(k, xs). length xs)") auto

declare chunks.simps [simp del]

lemma chunks_Nil [simp]: "chunks k [] = []"
  by (simp add: chunks.simps)

lemma concat_chunks: "0 < k \<Longrightarrow> concat (chunks k xs) = xs"
  by (induction k xs rule: chunks.induct) (subst chunks.simps, auto)

lemma length_chunks: "c \<in> set (chunks k xs) \<Longrightarrow> 0 < length c \<and> length c \<le> k"
proof (induction k xs rule: chunks.induct)
  case (1 k xs)
  then show ?case
    using chunks.simps [of k xs] by (auto split: if_splits)
qed

text \<open>Only the writer and the counters of sent frames change.\<close>

definition sent_upd :: "cwriter \<Rightarrow> nat \<Rightarrow> 'a client_scheme \<Rightarrow> 'a client_scheme" where
  "sent_upd w n p = ((count_sent ^^ n) p)\<lparr>k_w := w\<rparr>"

lemma count_sent_k_w [simp]: "k_w (count_sent p) = k_w p" "k_tuned (count_sent p) = k_tuned p"
    "k_in (count_sent p) = k_in p"
  by (simp_all add: count_sent_def)

lemma count_sent_pow [simp]: "k_w ((count_sent ^^ n) p) = k_w p" "k_tuned ((count_sent ^^ n) p) = k_tuned p"
    "k_in ((count_sent ^^ n) p) = k_in p"
  by (induction n) simp_all

lemma sent_upd_simps [simp]: "k_w (sent_upd w n p) = w" "k_tuned (sent_upd w n p) = k_tuned p"
    "k_in (sent_upd w n p) = k_in p"
  by (simp_all add: sent_upd_def)

lemma count_sent_upd: "(count_sent ^^ n) (p\<lparr>k_w := w\<rparr>) = ((count_sent ^^ n) p)\<lparr>k_w := w\<rparr>"
  by (induction n) (simp_all add: count_sent_def)

lemma sent_upd_sent_upd: "sent_upd w n (sent_upd v m p) = sent_upd w (n + m) p"
  by (simp add: sent_upd_def count_sent_upd funpow_add)

lemma write_with_ok: "wr f (k_w p) = (True, w) \<Longrightarrow> write_with wr what f p = (Inr (), sent_upd w 1 p)"
  using count_sent_upd [of 1 w p] by (simp add: write_with_def sent_upd_def)

lemma sent_upd_0: "sent_upd (k_w p) 0 p = p"
  by (simp add: sent_upd_def)

lemma chunk_end:
  fixes fm :: u32 and body :: bytes
  assumes "8 < unat fm" and "offset < length body" and "e = min (int offset + uint fm - 8) (int (length body))"
  defines "k \<equiv> unat fm - 8"
  shows "nat e = min (offset + k) (length body)" and "\<not> e < int offset"
    and "take (nat e - offset) (drop offset body) = take k (drop offset body)"
    and "chunks k (drop offset body) = take k (drop offset body) # chunks k (drop (nat e) body)"
proof -
  have "uint fm = int k + 8"
    using assms(1) uint_nat [of fm] unfolding k_def by linarith
  then have "e = int (min (offset + k) (length body))"
    unfolding assms(3) by linarith
  then show e: "nat e = min (offset + k) (length body)" and "\<not> e < int offset"
    using assms(2) by auto
  show "take (nat e - offset) (drop offset body) = take k (drop offset body)"
    unfolding e by (simp add: min_def)
  have "drop (nat e) body = drop (offset + k) body"
    unfolding e by (simp add: min_def)
  then show "chunks k (drop offset body) = take k (drop offset body) # chunks k (drop (nat e) body)"
    using assms(1,2) unfolding k_def by (subst chunks.simps) (simp add: add.commute)
qed

lemma send_body_live:
  assumes "live (k_w p)" and "8 < unat (frameMax (k_tuned p))" and "length body - offset < n" and "offset \<le> length body"
  shows "\<exists>w. send_body n ch body offset p =
      (Inr (), sent_upd w (length (chunks (unat (frameMax (k_tuned p)) - 8) (drop offset body))) p) \<and> live w \<and>
    (if offset = length body then w = k_w p
     else cw_buf w = [] \<and> cw_sock w = written (k_w p) @
       concat (map (writeFrame frameBody ch) (chunks (unat (frameMax (k_tuned p)) - 8) (drop offset body))))"
  using assms
proof (induction n arbitrary: offset p)
  case (Suc n)
  let ?k = "unat (frameMax (k_tuned p)) - 8"
  show ?case
  proof (cases "offset < length body")
    case False
    then show ?thesis
      using Suc.prems by (auto simp: sent_upd_0 intro!: exI [of _ "k_w p"])
  next
    case True
    define e where "e = min (int offset + uint (frameMax (k_tuned p)) - 8) (int (length body))"
    let ?c = "take ?k (drop offset body)"
    note e = chunk_end [OF Suc.prems(2) True e_def]
    have "WriteFrame (BodyFrame ch ?c) = Inr (writeFrame frameBody ch ?c)"
      by (simp add: BodyFrame_Write_def)
    with Suc.prems(1) obtain v where v: "Writer_WriteFrame (BodyFrame ch ?c) (k_w p) = (True, v)"
      "live v" "cw_buf v = []" "cw_sock v = written (k_w p) @ writeFrame frameBody ch ?c"
      by (rule live_WriteFrame)
    let ?p = "sent_upd v 1 p"
    have "length body - nat e < n" "nat e \<le> length body"
      using Suc.prems True unfolding e(1) by auto
    then obtain w where w: "send_body n ch body (nat e) ?p =
        (Inr (), sent_upd w (length (chunks ?k (drop (nat e) body))) ?p)" "live w"
      "if nat e = length body then w = v
       else cw_buf w = [] \<and> cw_sock w = written v @ concat (map (writeFrame frameBody ch) (chunks ?k (drop (nat e) body)))"
      using Suc.IH [of ?p "nat e"] Suc.prems(2) v(2) by auto
    have "send_body (Suc n) ch body offset p =
        (Inr (), sent_upd w (length (chunks ?k (drop offset body))) p)"
      using True e(2,3) w(1) write_with_ok [where wr = Writer_WriteFrame, OF v(1)]
      by (simp add: e(4) sent_upd_sent_upd Let_def e_def [symmetric])
    moreover have "cw_buf w = [] \<and> cw_sock w = written (k_w p) @
        concat (map (writeFrame frameBody ch) (chunks ?k (drop offset body)))"
      using w(3) v(3,4) by (auto simp: e(4) written_def split: if_splits)
    ultimately show ?thesis
      using True w(2) by auto
  qed
qed simp

lemma send_content_live:
  assumes "live (k_w p)" and "8 < unat (frameMax (k_tuned p))" and "GetContent m = Some (props, body)"
    and mb: "MethodFrame_Write ch (Some m) = Inr mb"
    and hb: "HeaderFrame_Write ch (fst (message_ID m)) 0 (word_of_nat (length body)) props = Inr hb"
  shows "\<exists>w. send ch m p =
      (Inr (), sent_upd w (2 + length (chunks (unat (frameMax (k_tuned p)) - 8) body)) p) \<and> live w \<and>
    (body \<noteq> [] \<longrightarrow> cw_buf w = []) \<and> written w = written (k_w p) @ mb @ hb @
       concat (map (writeFrame frameBody ch) (chunks (unat (frameMax (k_tuned p)) - 8) body))"
proof -
  obtain v where v: "Writer_WriteFrameNoFlush (MethodFrame ch 0 0 (Some m)) (k_w p) = (True, v)"
    "live v" "written v = written (k_w p) @ mb"
    using live_NoFlush [OF assms(1), of "MethodFrame ch 0 0 (Some m)" mb] mb by auto
  let ?hf = "HeaderFrame ch (fst (message_ID m)) 0 (word_of_nat (length body)) props"
  obtain u where u: "Writer_WriteFrameNoFlush ?hf v = (True, u)" "live u" "written u = written v @ hb"
    using live_NoFlush [OF v(2), of ?hf hb] hb by auto
  let ?p = "sent_upd u 2 p"
  obtain w where w: "send_body (length body + 1) ch body 0 ?p =
      (Inr (), sent_upd w (length (chunks (unat (frameMax (k_tuned p)) - 8) body)) ?p)" "live w"
    "body \<noteq> [] \<longrightarrow> cw_buf w = []" "written w = written u @
       concat (map (writeFrame frameBody ch) (chunks (unat (frameMax (k_tuned p)) - 8) body))"
    using send_body_live [of ?p body 0 "length body + 1" ch] assms(2) u(2) by (cases "body = []") (auto simp: written_def)
  have "write_with Writer_WriteFrameNoFlush ''HeaderFrame'' ?hf (sent_upd v 1 p) = (Inr (), ?p)"
    using write_with_ok [where wr = Writer_WriteFrameNoFlush and p = "sent_upd v 1 p" and f = ?hf and w = u] u(1)
    by (simp add: sent_upd_sent_upd numeral_2_eq_2)
  then have "send ch m p = send_body (length body + 1) ch body 0 ?p"
    using assms(3) write_with_ok [where wr = Writer_WriteFrameNoFlush, OF v(1)]
    by (simp add: send_def)
  then show ?thesis
    using w u(3) v(3) by (auto simp: sent_upd_sent_upd add.commute)
qed

lemma send_method_live:
  assumes "live (k_w p)" and "GetContent m = None" and "MethodFrame_Write ch (Some m) = Inr b"
  shows "\<exists>w. send ch m p = (Inr (), sent_upd w 1 p) \<and> live w \<and> cw_buf w = [] \<and> cw_sock w = written (k_w p) @ b"
proof -
  obtain w where w: "Writer_WriteFrame (MethodFrame ch 0 0 (Some m)) (k_w p) = (True, w)" "live w" "cw_buf w = []"
    "cw_sock w = written (k_w p) @ b"
    using live_WriteFrame [OF assms(1), of "MethodFrame ch 0 0 (Some m)" b] assms(3) by auto
  then show ?thesis
    using assms(2) write_with_ok [where wr = Writer_WriteFrame, OF w(1)] by (auto simp: send_def)
qed

section \<open>What the peer reads back\<close>

lemma write_seq_bodies:
  "write_seq WriteFrame (map (BodyFrame ch) cs) = Inr (concat (map (writeFrame frameBody ch) cs))"
  by (induction cs) (simp_all add: BodyFrame_Write_def)

lemma sint_word_of_nat: "n < 2 ^ 63 \<Longrightarrow> sint (word_of_nat n :: u64) = int n"
  by (simp add: sint_uint signed_take_bit_eq_if_positive bit_iff_odd uint_nat unat_of_nat take_bit_int_eq_self)

lemma recv_bodies:
  assumes "GetContent m \<noteq> None" and "\<forall>c \<in> set cs. 0 < length c" and "cs \<noteq> []"
    and "r = word_of_nat (length (concat cs))" and "length (concat cs) < 2 ^ 63"
  shows "\<exists>mx'. recv_loop ch m (Some props) acc r (map (Inr \<circ> BodyFrame ch) cs @ ins) mx =
    (Inr (SetContent props (acc @ concat cs) m), ins, mx')"
  using assms(2-5)
proof (induction cs arbitrary: acc r mx)
  case (Cons c cs)
  show ?case
  proof (cases "cs = []")
    case True
    then show ?thesis using Cons.prems assms(1) by (auto simp: Let_def)
  next
    case False
    then have pos: "0 < length (concat cs)"
      using Cons.prems(1) by (cases cs) auto
    have small: "length (concat cs) < 2 ^ 63"
      using Cons.prems(4) by simp
    have rest: "r - word_of_nat (length c) = (word_of_nat (length (concat cs)) :: u64)"
      using Cons.prems(3) by simp
    have "0 < sint (word_of_nat (length (concat cs)) :: u64)"
      using pos by (simp only: sint_word_of_nat [OF small] of_nat_0_less_iff)
    then show ?thesis
      using False Cons.prems(1) small Cons.IH [of "word_of_nat (length (concat cs))" "acc @ c"]
      by (simp add: Let_def rest)
  qed
qed simp

lemma SetContent_without: "GetContent m = Some (props, body) \<Longrightarrow> SetContent props body (without_content m) = m"
  by (cases m) (auto simp: GetContent_def without_content_def SetContent_def)

lemma GetContent_without: "GetContent m \<noteq> None \<Longrightarrow> GetContent (without_content m) \<noteq> None"
  by (cases m) (auto simp: GetContent_def without_content_def SetContent_def)

lemma recv_content:
  assumes "GetContent m = Some (props, body)" and "length body < 2 ^ 63" and "0 < k"
  shows "\<exists>mx'. recv_loop ch (without_content m) None [] 0
      (map Inr (HeaderFrame ch c 0 (word_of_nat (length body)) props # map (BodyFrame ch) (chunks k body)) @ ins) mx =
    (Inr m, ins, mx')"
proof -
  have c: "GetContent (without_content m) \<noteq> None"
    using assms(1) by (intro GetContent_without) simp
  show ?thesis
  proof (cases "body = []")
    case True
    then show ?thesis
      using c SetContent_without [OF assms(1)] by (simp add: Let_def)
  next
    case False
    then have ne: "chunks k body \<noteq> []"
      using concat_chunks [OF assms(3), of body] by auto
    have "sint (word_of_nat (length body) :: u64) \<noteq> 0"
      using False by (simp only: sint_word_of_nat [OF assms(2)]) simp
    then have "(word_of_nat (length body) :: u64) \<noteq> 0" by auto
    then show ?thesis
      using recv_bodies [of "without_content m" "chunks k body" "word_of_nat (length body)" ch props "[]" ins]
        c ne length_chunks [of _ k body] concat_chunks [OF assms(3), of body] assms SetContent_without [OF assms(1)]
      by (simp add: Let_def comp_def)
  qed
qed

lemma read_frames_back:
  assumes "wf_message m" and "wf_properties props" and "\<forall>c \<in> set cs. length c < 2 ^ 32"
    and "MethodFrame_Write ch (Some m) = Inr mb" and "HeaderFrame_Write ch cl 0 sz props = Inr hb"
  shows "read_seq ReadFrame (2 + length cs) (mb @ hb @ concat (map (writeFrame frameBody ch) cs)) =
    (Inr (MethodFrame ch (fst (message_ID m)) (snd (message_ID m)) (Some (without_content m)) #
       HeaderFrame ch cl 0 sz props # map (BodyFrame ch) cs), [])"
proof -
  have 1: "ReadFrame (mb @ r) =
      (Inr (MethodFrame ch (fst (message_ID m)) (snd (message_ID m)) (Some (without_content m))), r)" for r
    using ReadFrame_method [OF assms(1), of ch] assms(4) by auto
  have 2: "ReadFrame (hb @ r) = (Inr (HeaderFrame ch cl 0 sz props), r)" for r
    using framec.dec_enc [of "HeaderFrame ch cl 0 sz props" hb r] assms(2,5) by simp
  have "list_all frame_ok (map (BodyFrame ch) cs)"
    using assms(3) by (simp add: list_all_iff)
  then have 3: "read_seq ReadFrame (length cs) (concat (map (writeFrame frameBody ch) cs)) = (Inr (map (BodyFrame ch) cs), [])"
    using framec.seq_round_trip [of "map (BodyFrame ch) cs"] write_seq_bodies [of ch cs]
    by (auto dest: spec [of _ "[]"])
  show ?thesis
    by (simp add: rbind_Inr [of ReadFrame, OF 1] rbind_Inr [of ReadFrame, OF 2]
        rbind_Inr [of "read_seq ReadFrame (length cs)", OF 3] rbind_def rret_def 1 2 3)
qed

section \<open>Properties\<close>

text \<open>C12. A message with content that the proxy sends on a working connection can be read back by the client: what
  is written are the bytes of one method frame, one header frame and body frames that all respect the
  negotiated frame size, and putting the frames together again gives the message that was sent, body
  and properties included. When the body is not empty the bytes have left the buffer. Those of a message
  with an empty body may still be in it, since nothing flushes the writer then.\<close>

theorem content_arrives:
  assumes "live (k_w p)" and "8 < unat (frameMax (k_tuned p))" and "GetContent m = Some (props, body)"
    and "length body < 2 ^ 63" and "wf_message m" and "wf_properties props"
  shows "\<exists>w b fs. send ch m p = (Inr (), sent_upd w (length fs) p) \<and> written w = written (k_w p) @ b \<and>
    (body \<noteq> [] \<longrightarrow> cw_buf w = [] \<and> cw_sock w = written (k_w p) @ b) \<and> read_seq ReadFrame (length fs) b = (Inr fs, []) \<and>
    hd fs = MethodFrame ch (fst (message_ID m)) (snd (message_ID m)) (Some (without_content m)) \<and>
    fst (recv_loop ch (without_content m) None [] 0 (map Inr (tl fs)) (k_metrics p)) = Inr m \<and>
    (\<forall>c. BodyFrame ch c \<in> set fs \<longrightarrow> length (writeFrame frameBody ch c) \<le> unat (frameMax (k_tuned p)))"
proof -
  let ?k = "unat (frameMax (k_tuned p)) - 8"
  let ?cs = "chunks ?k body"
  obtain mb where mb: "MethodFrame_Write ch (Some m) = Inr mb"
    using ReadFrame_method [OF assms(5), of ch] by blast
  obtain hb where hb: "HeaderFrame_Write ch (fst (message_ID m)) 0 (word_of_nat (length body)) props = Inr hb"
    using ReadFrame_WriteFrame [of "HeaderFrame ch (fst (message_ID m)) 0 (word_of_nat (length body)) props"] assms(6)
    by auto
  obtain w where w: "send ch m p = (Inr (), sent_upd w (2 + length ?cs) p)" "body \<noteq> [] \<longrightarrow> cw_buf w = []"
    "written w = written (k_w p) @ mb @ hb @ concat (map (writeFrame frameBody ch) ?cs)"
    using send_content_live [OF assms(1-3) mb hb] by blast
  let ?fs = "MethodFrame ch (fst (message_ID m)) (snd (message_ID m)) (Some (without_content m)) #
       HeaderFrame ch (fst (message_ID m)) 0 (word_of_nat (length body)) props # map (BodyFrame ch) ?cs"
  have small: "length c \<le> ?k" if "c \<in> set ?cs" for c
    using length_chunks [OF that] by simp
  have "?k < 2 ^ 32"
    using unsigned_less [of "frameMax (k_tuned p)", where ?'a = nat] by simp
  then have "\<forall>c \<in> set ?cs. length c < 2 ^ 32"
    using small by (meson le_less_trans)
  then have "read_seq ReadFrame (2 + length ?cs) (mb @ hb @ concat (map (writeFrame frameBody ch) ?cs)) = (Inr ?fs, [])"
    using read_frames_back [OF assms(5,6) _ mb hb] by blast
  moreover have "fst (recv_loop ch (without_content m) None [] 0 (map Inr (tl ?fs)) (k_metrics p)) = Inr m"
    using recv_content [OF assms(3,4), of ?k ch "fst (message_ID m)" "[]" "k_metrics p"] assms(2) by fastforce
  moreover have "length (writeFrame frameBody ch c) \<le> unat (frameMax (k_tuned p))" if "c \<in> set ?cs" for c
    using small [OF that] assms(2) by (simp add: writeFrame_eq)
  ultimately show ?thesis
    using w by (intro exI [of _ w] exI [of _ "mb @ hb @ concat (map (writeFrame frameBody ch) ?cs)"] exI [of _ ?fs])
      (auto simp: written_def simp del: recv_loop.simps read_seq.simps)
qed

definition new_writer :: cwriter where
  "new_writer = \<lparr>cw_sock = [], cw_buf = [], cw_err = False, cw_left = None\<rparr>"

definition sample_client :: client where
  "sample_client = \<lparr>k_w = new_writer, k_in = [], k_tuned = \<lparr>channelMax = 1023, frameMax = 131072, heartbeat = 60\<rparr>,
     k_stats = NewProxyStats, k_metrics = NewMetrics\<rparr>"

definition sample_delivery :: "bytes \<Rightarrow> message" where
  "sample_delivery body = BasicDeliver ''ctag'' 3 False ''amq.topic'' ''logs.app'' no_properties body"

theorem content_arrives_witness:
  "\<exists>w b fs. send 1 (sample_delivery [7, 8, 9]) (sample_client\<lparr>k_tuned := \<lparr>channelMax = 0, frameMax = 10, heartbeat = 0\<rparr>\<rparr>) =
      (Inr (), sent_upd w (length fs) (sample_client\<lparr>k_tuned := \<lparr>channelMax = 0, frameMax = 10, heartbeat = 0\<rparr>\<rparr>)) \<and>
    cw_sock w = b \<and> read_seq ReadFrame (length fs) b = (Inr fs, [])"
proof -
  let ?p = "sample_client\<lparr>k_tuned := \<lparr>channelMax = 0, frameMax = 10, heartbeat = 0\<rparr>\<rparr>"
  let ?m = "sample_delivery [7, 8, 9]"
  have "live (k_w ?p)" "8 < unat (frameMax (k_tuned ?p))" "GetContent ?m = Some (no_properties, [7, 8, 9])"
    "wf_message ?m" "wf_properties no_properties" "written (k_w ?p) = []"
    by (simp_all add: live_def sample_client_def new_writer_def sample_delivery_def GetContent_def wf_shortstr_def
        wf_properties_def no_properties_def zero_time_def written_def)
  with content_arrives [of ?p ?m no_properties "[7, 8, 9]" 1] obtain w b fs where
    "send 1 ?m ?p = (Inr (), sent_upd w (length fs) ?p)" "cw_sock w = written (k_w ?p) @ b"
    "read_seq ReadFrame (length fs) b = (Inr fs, [])"
    by (auto simp del: read_seq.simps)
  moreover have "written (k_w ?p) = []" by (simp add: written_def sample_client_def new_writer_def)
  ultimately show ?thesis by (intro exI conjI) (simp_all del: read_seq.simps)
qed

text \<open>A message with content and an empty body is written but not flushed: on a connection with room in
  the buffer the whole message stays in the proxy, and the client gets no byte of it until
  something else is sent.\<close>

theorem empty_body_not_flushed:
  assumes "live (k_w p)" and "GetContent m = Some (props, [])"
    and "MethodFrame_Write ch (Some m) = Inr mb"
    and "HeaderFrame_Write ch (fst (message_ID m)) 0 0 props = Inr hb"
    and "length (cw_buf (k_w p)) + length mb + length hb \<le> 4096"
  shows "\<exists>w. send ch m p = (Inr (), sent_upd w 2 p) \<and> cw_sock w = cw_sock (k_w p) \<and>
    cw_buf w = cw_buf (k_w p) @ mb @ hb"
proof -
  have room: "fold bufio_write bs w = w\<lparr>cw_buf := cw_buf w @ concat bs\<rparr>"
    if "\<not> cw_err w" "length (cw_buf w) + length (concat bs) \<le> 4096" for bs w
    using that
  proof (induction bs arbitrary: w)
    case (Cons b bs)
    then have "bufio_write b w = w\<lparr>cw_buf := cw_buf w @ b\<rparr>"
      by (subst bufio_write.simps) (auto simp: bufio_size_def)
    then show ?case
      using Cons by simp
  qed simp
  let ?w1 = "(k_w p)\<lparr>cw_buf := cw_buf (k_w p) @ mb\<rparr>"
  let ?w2 = "(k_w p)\<lparr>cw_buf := cw_buf (k_w p) @ mb @ hb\<rparr>"
  let ?mf = "MethodFrame ch 0 0 (Some m)" and ?hf = "HeaderFrame ch (fst (message_ID m)) 0 0 props"
  have enc: "WriteFrame ?mf = Inr mb" "WriteFrame ?hf = Inr hb"
    using assms(3,4) by simp_all
  have 1: "Writer_WriteFrameNoFlush ?mf (k_w p) = (True, ?w1)"
    using room [of "k_w p" "frame_chunks ?mf mb"] concat_frame_chunks [OF enc(1)] enc(1) assms(1,5)
    by (simp add: Writer_WriteFrameNoFlush_def live_def Let_def)
  have 2: "Writer_WriteFrameNoFlush ?hf ?w1 = (True, ?w2)"
    using room [of ?w1 "frame_chunks ?hf hb"] concat_frame_chunks [OF enc(2)] enc(2) assms(1,5)
    by (simp add: Writer_WriteFrameNoFlush_def live_def Let_def)
  have "write_with Writer_WriteFrameNoFlush ''HeaderFrame'' ?hf (sent_upd ?w1 1 p) = (Inr (), sent_upd ?w2 2 p)"
    using write_with_ok [where wr = Writer_WriteFrameNoFlush and p = "sent_upd ?w1 1 p" and f = ?hf and w = ?w2] 2
    by (simp add: sent_upd_sent_upd numeral_2_eq_2)
  then have "send ch m p = (Inr (), sent_upd ?w2 2 p)"
    using assms(2) write_with_ok [where wr = Writer_WriteFrameNoFlush, OF 1] by (simp add: send_def)
  then show ?thesis by auto
qed

theorem empty_body_not_flushed_witness:
  "\<exists>w mb hb. send 1 (sample_delivery []) sample_client = (Inr (), sent_upd w 2 sample_client) \<and>
    cw_sock w = [] \<and> cw_buf w = mb @ hb \<and> mb \<noteq> []"
proof -
  let ?m = "sample_delivery []"
  obtain mb where mb: "MethodFrame_Write 1 (Some ?m) = Inr mb" "length mb = 45"
    by (simp add: MethodFrame_Write_def sample_delivery_def msg_write writeShortstr_def writeFrameBuffer_eq)
  obtain hb where hb: "HeaderFrame_Write 1 (fst (message_ID ?m)) 0 0 no_properties = Inr hb" "length hb = 22"
    by (simp add: HeaderFrame_Write_def HeaderFrame_payload_def write_if_def property_mask_def no_properties_def
        hasProperty_def entries_def writeFrameBuffer_eq)
  have "live (k_w sample_client)" "GetContent ?m = Some (no_properties, [])" "cw_buf (k_w sample_client) = []"
    "cw_sock (k_w sample_client) = []"
    by (simp_all add: live_def sample_client_def new_writer_def sample_delivery_def GetContent_def)
  with empty_body_not_flushed [of sample_client ?m no_properties 1 mb hb] mb hb show ?thesis by force
qed

text \<open>The client chooses the frame size. With a frame size of eight, which leaves no room for payload,
  the loop that sends a body never ends on a working connection: it writes empty body frames for
  as long as it is run. With a smaller one it panics.\<close>

theorem frame_size_eight_diverges:
  assumes "live (k_w p)" and "unat (frameMax (k_tuned p)) = 8" and "body \<noteq> []"
  shows "\<exists>w. send_body n ch body 0 p = (Inl Diverges, sent_upd w n p) \<and> live w \<and>
    written w = written (k_w p) @ concat (replicate n (writeFrame frameBody ch []))"
  using assms
proof (induction n arbitrary: p)
  case 0
  then show ?case by (auto simp: sent_upd_0 intro!: exI [of _ "k_w p"])
next
  case (Suc n)
  have "WriteFrame (BodyFrame ch []) = Inr (writeFrame frameBody ch [])"
    by (simp add: BodyFrame_Write_def)
  with Suc.prems(1) obtain v where v: "Writer_WriteFrame (BodyFrame ch []) (k_w p) = (True, v)" "live v"
    "cw_buf v = []" "cw_sock v = written (k_w p) @ writeFrame frameBody ch []"
    by (rule live_WriteFrame)
  obtain w where w: "send_body n ch body 0 (sent_upd v 1 p) = (Inl Diverges, sent_upd w n (sent_upd v 1 p))" "live w"
    "written w = written v @ concat (replicate n (writeFrame frameBody ch []))"
    using Suc.IH [of "sent_upd v 1 p"] Suc.prems v(2) by auto
  have "uint (frameMax (k_tuned p)) = 8"
    using Suc.prems(2) uint_nat [of "frameMax (k_tuned p)"] by linarith
  then have "send_body (Suc n) ch body 0 p = (Inl Diverges, sent_upd w (Suc n) p)"
    using Suc.prems(3) w(1) write_with_ok [where wr = Writer_WriteFrame, OF v(1)]
    by (simp add: sent_upd_sent_upd Let_def)
  then show ?case
    using w(2,3) v(3,4) by (auto simp: written_def)
qed

theorem frame_size_eight_diverges_witness:
  "\<exists>w. send_body 1000 1 [42] 0 (sample_client\<lparr>k_tuned := \<lparr>channelMax = 0, frameMax = 8, heartbeat = 0\<rparr>\<rparr>) =
    (Inl Diverges, sent_upd w 1000 (sample_client\<lparr>k_tuned := \<lparr>channelMax = 0, frameMax = 8, heartbeat = 0\<rparr>\<rparr>))"
  using frame_size_eight_diverges [of "sample_client\<lparr>k_tuned := \<lparr>channelMax = 0, frameMax = 8, heartbeat = 0\<rparr>\<rparr>"
      "[42]" 1000 1]
  by (auto simp: live_def sample_client_def new_writer_def simp del: send_body.simps)

end
