(* ===== verification/Broker.thy ===== *)
theory Broker
  imports Config
begin

text \<open>
  The interface of the RabbitMQ client library, github.com/rabbitmq/amqp091-go, which is not part
  of the repository. Its operations are the fields of a record that the definitions of the proxy
  take as an argument; they act on a state of any type, the brokers and the network, and may fail.
  Connections and channels of the library are numbers.
\<close>

text \<open>An error of the library: \<^verbatim>\<open>*rabbitmq.Error\<close> with its code, or another one.\<close>

datatype rmq_error = RmqError int string | OtherError string

primrec rmq_text :: "rmq_error \<Rightarrow> string" where
  "rmq_text (RmqError code text) = text"
| "rmq_text (OtherError text) = text"

record rmq_queue =
  rq_Name :: string
  rq_Messages :: int
  rq_Consumers :: int

record rmq_delivery =
  rd_ContentType :: string
  rd_ContentEncoding :: string
  rd_Headers :: gotable
  rd_DeliveryMode :: u8
  rd_Priority :: u8
  rd_CorrelationId :: string
  rd_ReplyTo :: string
  rd_Expiration :: string
  rd_MessageId :: string
  rd_Timestamp :: gotime
  rd_Type :: string
  rd_UserId :: string
  rd_AppId :: string
  rd_MessageCount :: u32
  rd_DeliveryTag :: u64
  rd_Redelivered :: bool
  rd_Exchange :: string
  rd_RoutingKey :: string
  rd_Body :: bytes

record rmq_publishing =
  pb_Headers :: gotable
  pb_ContentType :: string
  pb_ContentEncoding :: string
  pb_DeliveryMode :: u8
  pb_Priority :: u8
  pb_CorrelationId :: string
  pb_ReplyTo :: string
  pb_Expiration :: string
  pb_MessageId :: string
  pb_Timestamp :: gotime
  pb_Type :: string
  pb_UserId :: string
  pb_AppId :: string
  pb_Body :: bytes

text \<open>
  The arguments are in the order of the library's methods, after the connection or channel:
  queue declare: name, durable, auto-delete, exclusive, no-wait, arguments; queue delete: name,
  if-unused, if-empty, no-wait; bind: name, key, exchange, no-wait, arguments; purge: name,
  no-wait; exchange declare: name, kind, durable, auto-delete, internal, no-wait, arguments;
  consume: queue, consumer, auto-ack, exclusive, no-local, no-wait, arguments; publish: exchange,
  key, mandatory, immediate, message.
\<close>

record 'w rabbitmq =
  lib_Channel :: "nat \<Rightarrow> 'w \<Rightarrow> (rmq_error + nat) \<times> 'w"
  lib_Connection_Close :: "nat \<Rightarrow> 'w \<Rightarrow> (rmq_error + unit) \<times> 'w"
  lib_Channel_Close :: "nat \<Rightarrow> 'w \<Rightarrow> (rmq_error + unit) \<times> 'w"
  lib_QueueDeclare :: "nat \<Rightarrow> string \<Rightarrow> bool \<Rightarrow> bool \<Rightarrow> bool \<Rightarrow> bool \<Rightarrow> gotable \<Rightarrow> 'w \<Rightarrow>
    (rmq_error + rmq_queue) \<times> 'w"
  lib_QueueDelete :: "nat \<Rightarrow> string \<Rightarrow> bool \<Rightarrow> bool \<Rightarrow> bool \<Rightarrow> 'w \<Rightarrow> (rmq_error + int) \<times> 'w"
  lib_QueueBind :: "nat \<Rightarrow> string \<Rightarrow> string \<Rightarrow> string \<Rightarrow> bool \<Rightarrow> gotable \<Rightarrow> 'w \<Rightarrow> (rmq_error + unit) \<times> 'w"
  lib_QueueUnbind :: "nat \<Rightarrow> string \<Rightarrow> string \<Rightarrow> string \<Rightarrow> gotable \<Rightarrow> 'w \<Rightarrow> (rmq_error + unit) \<times> 'w"
  lib_QueuePurge :: "nat \<Rightarrow> string \<Rightarrow> bool \<Rightarrow> 'w \<Rightarrow> (rmq_error + int) \<times> 'w"
  lib_ExchangeDeclare :: "nat \<Rightarrow> string \<Rightarrow> string \<Rightarrow> bool \<Rightarrow> bool \<Rightarrow> bool \<Rightarrow> bool \<Rightarrow> gotable \<Rightarrow> 'w \<Rightarrow>
    (rmq_error + unit) \<times> 'w"
  lib_Qos :: "nat \<Rightarrow> int \<Rightarrow> int \<Rightarrow> bool \<Rightarrow> 'w \<Rightarrow> (rmq_error + unit) \<times> 'w"
  lib_Cancel :: "nat \<Rightarrow> string \<Rightarrow> bool \<Rightarrow> 'w \<Rightarrow> (rmq_error + unit) \<times> 'w"
  lib_Ack :: "nat \<Rightarrow> u64 \<Rightarrow> bool \<Rightarrow> 'w \<Rightarrow> (rmq_error + unit) \<times> 'w"
  lib_Nack :: "nat \<Rightarrow> u64 \<Rightarrow> bool \<Rightarrow> bool \<Rightarrow> 'w \<Rightarrow> (rmq_error + unit) \<times> 'w"
  lib_Get :: "nat \<Rightarrow> string \<Rightarrow> bool \<Rightarrow> 'w \<Rightarrow> (rmq_error + rmq_delivery option) \<times> 'w"
  lib_Consume :: "nat \<Rightarrow> string \<Rightarrow> string \<Rightarrow> bool \<Rightarrow> bool \<Rightarrow> bool \<Rightarrow> bool \<Rightarrow> gotable \<Rightarrow> 'w \<Rightarrow>
    (rmq_error + nat) \<times> 'w"
  lib_Publish :: "nat \<Rightarrow> string \<Rightarrow> string \<Rightarrow> bool \<Rightarrow> bool \<Rightarrow> rmq_publishing \<Rightarrow> 'w \<Rightarrow>
    (rmq_error + unit) \<times> 'w"
  lib_Confirm :: "nat \<Rightarrow> bool \<Rightarrow> 'w \<Rightarrow> (rmq_error + unit) \<times> 'w"
  lib_GetNextPublishSeqNo :: "nat \<Rightarrow> 'w \<Rightarrow> u64"
  lib_Dial :: "string \<Rightarrow> string \<Rightarrow> string \<Rightarrow> string \<Rightarrow> table \<Rightarrow> 'w \<Rightarrow> (rmq_error + nat) \<times> 'w"

text \<open>
  A library over a list of calls, for concrete runs: every call is recorded and succeeds; a new
  connection or channel gets the length of the list as its number, and a declared queue has the
  requested name.
\<close>

datatype lib_call =
    CallChannel nat
  | CallConnClose nat
  | CallChClose nat
  | CallQueueDeclare nat string bool bool bool bool gotable
  | CallQueueDelete nat string bool bool bool
  | CallQueueBind nat string string string bool gotable
  | CallQueueUnbind nat string string string gotable
  | CallQueuePurge nat string bool
  | CallExchangeDeclare nat string string bool bool bool bool gotable
  | CallQos nat int int bool
  | CallCancel nat string bool
  | CallAck nat u64 bool
  | CallNack nat u64 bool bool
  | CallGet nat string bool
  | CallConsume nat string string bool bool bool bool gotable
  | CallPublish nat string string bool bool rmq_publishing
  | CallConfirm nat bool
  | CallDial string string string string table

definition logged :: "lib_call \<Rightarrow> 'a \<Rightarrow> lib_call list \<Rightarrow> (rmq_error + 'a) \<times> lib_call list" where
  "logged c x w = (Inr x, w @ [c])"

definition recording_lib :: "lib_call list rabbitmq" where
  "recording_lib = \<lparr>
     lib_Channel = (\<lambda>conn w. logged (CallChannel conn) (length w) w),
     lib_Connection_Close = (\<lambda>conn. logged (CallConnClose conn) ()),
     lib_Channel_Close = (\<lambda>ch. logged (CallChClose ch) ()),
     lib_QueueDeclare = (\<lambda>ch name durable autoDelete exclusive noWait args.
       logged (CallQueueDeclare ch name durable autoDelete exclusive noWait args)
         \<lparr>rq_Name = name, rq_Messages = 0, rq_Consumers = 0\<rparr>),
     lib_QueueDelete = (\<lambda>ch name a b c. logged (CallQueueDelete ch name a b c) 0),
     lib_QueueBind = (\<lambda>ch name key ex noWait args. logged (CallQueueBind ch name key ex noWait args) ()),
     lib_QueueUnbind = (\<lambda>ch name key ex args. logged (CallQueueUnbind ch name key ex args) ()),
     lib_QueuePurge = (\<lambda>ch name noWait. logged (CallQueuePurge ch name noWait) 0),
     lib_ExchangeDeclare = (\<lambda>ch name kind a b c d args. logged (CallExchangeDeclare ch name kind a b c d args) ()),
     lib_Qos = (\<lambda>ch a b c. logged (CallQos ch a b c) ()),
     lib_Cancel = (\<lambda>ch tag noWait. logged (CallCancel ch tag noWait) ()),
     lib_Ack = (\<lambda>ch tag multiple. logged (CallAck ch tag multiple) ()),
     lib_Nack = (\<lambda>ch tag multiple requeue. logged (CallNack ch tag multiple requeue) ()),
     lib_Get = (\<lambda>ch q noAck. logged (CallGet ch q noAck) None),
     lib_Consume = (\<lambda>ch q tag a b c d args w. logged (CallConsume ch q tag a b c d args) (length w) w),
     lib_Publish = (\<lambda>ch ex key mand imm msg. logged (CallPublish ch ex key mand imm msg) ()),
     lib_Confirm = (\<lambda>ch noWait. logged (CallConfirm ch noWait) ()),
     lib_GetNextPublishSeqNo = (\<lambda>ch w. word_of_nat (Suc (length (filter (\<lambda>c. case c of CallPublish ch' _ _ _ _ _ \<Rightarrow> ch' = ch | _ \<Rightarrow> False) w)))),
     lib_Dial = (\<lambda>addr user pw vhost props w. logged (CallDial addr user pw vhost props) (length w) w)\<rparr>"

end
