(* ===== verification/Upstream.thy ===== *)
theory Upstream
  imports Broker Metrics Containers
begin

text \<open>
  One upstream of a proxy: \<^verbatim>\<open>src/upstream.go\<close>. Its state is the record \<open>upstream\<close>; the
  map of channels is an association list, in the order in which \<^verbatim>\<open>Close\<close> would range over it.
  A nil connection, which only tests pass to \<^verbatim>\<open>NewUpstream\<close>, would panic; that is the
  error text \<open>panic: nil connection\<close> here. The functions appended to \<^verbatim>\<open>destruct\<close> are values of a datatype, run by \<open>run_destruct\<close>.
\<close>

section \<open>State\<close>

datatype destructor = CleanupAutoGenerated string | DeleteEmulated string

record upstream =
  us_name :: string
  us_address :: string
  us_conn :: "nat option"
  us_channel :: "(u16 \<times> nat) list"
  us_keyPatterns :: "string list"
  us_queueAttr :: "QueueAttributes option"
  us_queueOpts :: "QueueOptions option"
  us_destruct :: "destructor list"

definition NewUpstream :: "nat option \<Rightarrow> UpstreamConfig \<Rightarrow> string \<Rightarrow> Metrics \<Rightarrow> upstream \<times> Metrics" where
  "NewUpstream conn conf address mx =
     (\<lparr>us_name = uc_Name conf, us_address = address, us_conn = conn, us_channel = [],
       us_keyPatterns = uc_KeyPatterns conf, us_queueAttr = uc_QueueAttributes conf,
       us_queueOpts = uc_QueueOptions conf, us_destruct = []\<rparr>,
      mx\<lparr>UpstreamTotalConnections := on_label address Counter_Inc (UpstreamTotalConnections mx),
         UpstreamConnections := on_label address Counter_Inc (UpstreamConnections mx)\<rparr>)"

section \<open>Channels\<close>

definition NewChannel :: "'w rabbitmq \<Rightarrow> u16 \<Rightarrow> upstream \<Rightarrow> 'w \<Rightarrow> nat go \<times> upstream \<times> 'w" where
  "NewChannel lib cid u w =
     (if map_of (us_channel u) cid \<noteq> None then (Inl (''channel '' @ show_nat (unat cid) @ '' already exists''), u, w)
      else case us_conn u of
        None \<Rightarrow> (Inl ''panic: nil connection'', u, w)
      | Some conn \<Rightarrow>
          (case lib_Channel lib conn w of
             (Inl e, w) \<Rightarrow> (Inl (''failed to create upstream channel: '' @ rmq_text e), u, w)
           | (Inr ch, w) \<Rightarrow> (Inr ch, u\<lparr>us_channel := AList.update cid ch (us_channel u)\<rparr>, w)))"

definition GetChannel :: "u16 \<Rightarrow> upstream \<Rightarrow> nat go" where
  "GetChannel cid u =
     (case map_of (us_channel u) cid of Some ch \<Rightarrow> Inr ch | None \<Rightarrow> Inl (''channel '' @ show_nat (unat cid) @ '' not found''))"

definition CloseChannel :: "'w rabbitmq \<Rightarrow> u16 \<Rightarrow> upstream \<Rightarrow> 'w \<Rightarrow> unit go \<times> upstream \<times> 'w" where
  "CloseChannel lib cid u w =
     (case (case map_of (us_channel u) cid of
              None \<Rightarrow> (Inr (), w)
            | Some ch \<Rightarrow> lib_Channel_Close lib ch w) of
        (Inl e, w) \<Rightarrow> (Inl (''failed to close channel '' @ show_nat (unat cid) @ '': '' @ rmq_text e), u, w)
      | (Inr _, w) \<Rightarrow> (Inr (), u\<lparr>us_channel := AList.delete cid (us_channel u)\<rparr>, w))"

section \<open>Queues\<close>

definition AutoGenerateQueueNamePrefix :: string where
  "AutoGenerateQueueNamePrefix = ''trabbits.gen-''"

definition CleanupAutoGeneratedQueue :: "string \<Rightarrow> upstream \<Rightarrow> upstream" where
  "CleanupAutoGeneratedQueue name u =
     (if \<not> has_prefix name AutoGenerateQueueNamePrefix then u
      else u\<lparr>us_destruct := us_destruct u @ [CleanupAutoGenerated name]\<rparr>)"

definition RegisterEmulatedAutoDeleteQueue :: "string \<Rightarrow> upstream \<Rightarrow> upstream" where
  "RegisterEmulatedAutoDeleteQueue queueName u =
     u\<lparr>us_destruct := us_destruct u @ [DeleteEmulated queueName]\<rparr>"

text \<open>The fields of a \<^verbatim>\<open>QueueDeclare\<close> message that the declaration uses.\<close>

record declare_msg =
  dm_Queue :: string
  dm_Durable :: bool
  dm_Exclusive :: bool
  dm_AutoDelete :: bool
  dm_Arguments :: gotable

text \<open>The override of arguments: a nil value removes the key.\<close>

definition merge_args :: "gotable \<Rightarrow> gotable \<Rightarrow> gotable" where
  "merge_args msg attr =
     (if msg = None \<and> attr = None then None
      else Some (fold (\<lambda>(k, v) args. if v = FNil then AList.delete k args else AList.update k v args)
             (entries attr) (entries msg)))"

definition QueueDeclareArgs ::
  "declare_msg \<Rightarrow> upstream \<Rightarrow> string \<times> bool \<times> bool \<times> bool \<times> bool \<times> gotable" where
  "QueueDeclareArgs m u =
     (if has_prefix (dm_Queue m) AutoGenerateQueueNamePrefix
      then (dm_Queue m, False, True, True, False, dm_Arguments m)
      else case us_queueAttr u of
        None \<Rightarrow> (dm_Queue m, dm_Durable m, dm_AutoDelete m, dm_Exclusive m, False, dm_Arguments m)
      | Some attr \<Rightarrow>
          (let durable = (case qa_Durable attr of Some b \<Rightarrow> b | None \<Rightarrow> dm_Durable m);
               autoDelete = (case qa_AutoDelete attr of Some b \<Rightarrow> b | None \<Rightarrow> dm_AutoDelete m);
               exclusive = (case qa_Exclusive attr of Some b \<Rightarrow> b | None \<Rightarrow> dm_Exclusive m)
           in (dm_Queue m, durable, autoDelete, exclusive, False,
               merge_args (dm_Arguments m) (qa_Arguments attr))))"

definition shouldEmulateAutoDelete :: "declare_msg \<Rightarrow> upstream \<Rightarrow> bool" where
  "shouldEmulateAutoDelete m u =
     (if (case us_queueOpts u of None \<Rightarrow> True | Some o' \<Rightarrow> \<not> qo_EmulateAutoDelete o') then False
      else if \<not> dm_AutoDelete m then False
      else case us_queueAttr u of
        None \<Rightarrow> False
      | Some attr \<Rightarrow>
          (case qa_AutoDelete attr of
             None \<Rightarrow> False
           | Some b \<Rightarrow> if b then False else True))"

definition NotFound :: int where "NotFound = 404"

definition QueueDeclareWithTryPassive ::
  "'w rabbitmq \<Rightarrow> nat \<Rightarrow> declare_msg \<Rightarrow> upstream \<Rightarrow> 'w \<Rightarrow> rmq_queue go \<times> upstream \<times> 'w" where
  "QueueDeclareWithTryPassive lib ch m u w =
     (let normal = (\<lambda>w.
            case QueueDeclareArgs m u of (name, durable, autoDelete, exclusive, noWait, args) \<Rightarrow>
              (case lib_QueueDeclare lib ch name durable autoDelete exclusive noWait args w of
                 (Inl e, w) \<Rightarrow> (Inl (''failed to declare queue: '' @ rmq_text e), u, w)
               | (Inr q, w) \<Rightarrow>
                   (Inr q,
                    if shouldEmulateAutoDelete m u then RegisterEmulatedAutoDeleteQueue (rq_Name q) u
                    else u, w)))
      in
      if (case us_queueOpts u of None \<Rightarrow> False | Some o' \<Rightarrow> qo_TryPassive o') then
        (case lib_QueueDeclare lib ch (dm_Queue m) False False False True None w of
           (Inr q, w) \<Rightarrow> (Inr q, u, w)
         | (Inl (RmqError code text), w) \<Rightarrow>
             if code = NotFound then normal w
             else (Inl (''passive declare failed: '' @ text), u, w)
         | (Inl e, w) \<Rightarrow> (Inl (''passive declare failed: '' @ rmq_text e), u, w))
      else normal w)"

section \<open>Closing\<close>

text \<open>Both destructors delete their queue and only log a failure.\<close>

primrec destructor_queue :: "destructor \<Rightarrow> string" where
  "destructor_queue (CleanupAutoGenerated name) = name"
| "destructor_queue (DeleteEmulated name) = name"

definition run_destruct :: "'w rabbitmq \<Rightarrow> nat \<Rightarrow> destructor \<Rightarrow> 'w \<Rightarrow> 'w" where
  "run_destruct lib ch d w = snd (lib_QueueDelete lib ch (destructor_queue d) False False False w)"

definition Upstream_Close :: "'w rabbitmq \<Rightarrow> upstream \<Rightarrow> Metrics \<Rightarrow> 'w \<Rightarrow> unit go \<times> Metrics \<times> 'w" where
  "Upstream_Close lib u mx w =
     (case (case us_channel u of
              (_, ch) # _ \<Rightarrow> (Inr ch, w)
            | [] \<Rightarrow> (case us_conn u of
                       None \<Rightarrow> (Inl ''panic: nil connection'', w)
                     | Some conn \<Rightarrow>
                         (case lib_Channel lib conn w of
                            (Inl e, w) \<Rightarrow> (Inl (''failed to create channel: '' @ rmq_text e), w)
                          | (Inr ch, w) \<Rightarrow> (Inr ch, w)))) of
        (Inl e, w) \<Rightarrow> (Inl e, mx, w)
      | (Inr ch, w) \<Rightarrow>
          (let w = fold (run_destruct lib ch) (us_destruct u) w in
           case us_conn u of
             None \<Rightarrow> (Inr (), mx, w)
           | Some conn \<Rightarrow>
               (let mx = mx\<lparr>UpstreamConnections := on_label (us_address u) Gauge_Dec (UpstreamConnections mx)\<rparr> in
                case lib_Connection_Close lib conn w of
                  (Inl e, w) \<Rightarrow> (Inl (''failed to close connection: '' @ rmq_text e), mx, w)
                | (Inr _, w) \<Rightarrow> (Inr (), mx, w))))"

section \<open>The channel map is a keyed store\<close>

definition channel_get :: "upstream \<Rightarrow> u16 \<Rightarrow> nat option" where
  "channel_get u = map_of (us_channel u)"

definition channel_put :: "u16 \<Rightarrow> nat \<Rightarrow> upstream \<Rightarrow> upstream" where
  "channel_put cid ch u = u\<lparr>us_channel := AList.update cid ch (us_channel u)\<rparr>"

definition channel_del :: "u16 \<Rightarrow> upstream \<Rightarrow> upstream" where
  "channel_del cid u = u\<lparr>us_channel := AList.delete cid (us_channel u)\<rparr>"

interpretation channels: keyed_store channel_get channel_put channel_del
  by unfold_locales
    (auto simp: channel_get_def channel_put_def channel_del_def update_conv' delete_conv')

lemma GetChannel_get:
  "GetChannel cid u = (case channel_get u cid of Some ch \<Rightarrow> Inr ch
     | None \<Rightarrow> Inl (''channel '' @ show_nat (unat cid) @ '' not found''))"
  by (simp add: GetChannel_def channel_get_def)

lemma NewChannel_ok:
  "NewChannel lib cid u w = (Inr ch, u', w') \<Longrightarrow> channel_get u cid = None \<and> u' = channel_put cid ch u"
  by (auto simp: NewChannel_def channel_get_def channel_put_def
      split: if_splits option.splits prod.splits sum.splits)

lemma NewChannel_err: "NewChannel lib cid u w = (Inl e, u', w') \<Longrightarrow> u' = u"
  by (auto simp: NewChannel_def split: if_splits option.splits prod.splits sum.splits)

lemma CloseChannel_ok: "CloseChannel lib cid u w = (Inr x, u', w') \<Longrightarrow> u' = channel_del cid u"
  by (auto simp: CloseChannel_def channel_del_def split: option.splits prod.splits sum.splits)

lemma CloseChannel_err: "CloseChannel lib cid u w = (Inl e, u', w') \<Longrightarrow> u' = u"
  by (auto simp: CloseChannel_def split: option.splits prod.splits sum.splits)

section \<open>Queue attributes\<close>

lemma map_of_override:
  "distinct (map fst attr) \<Longrightarrow>
    map_of (fold (\<lambda>(k, v) args. if v = FNil then AList.delete k args else AList.update k v args) attr args) k =
      (case map_of attr k of None \<Rightarrow> map_of args k | Some v \<Rightarrow> if v = FNil then None else Some v)"
proof (induction attr arbitrary: args)
  case (Cons a attr)
  obtain l v where a: "a = (l, v)" by (cases a)
  have "map_of attr l = None"
    using Cons.prems a by (simp add: map_of_eq_None_iff)
  then show ?case
    using Cons a by (auto simp: update_conv' delete_conv' split: option.splits)
qed simp

lemma merge_args_lookup:
  "distinct (map fst (entries attr)) \<Longrightarrow>
    map_of (entries (merge_args msg attr)) k =
      (case map_of (entries attr) k of
         None \<Rightarrow> map_of (entries msg) k | Some v \<Rightarrow> if v = FNil then None else Some v)"
  by (auto simp: merge_args_def entries_def map_of_override [unfolded entries_def] split: option.splits)

lemma shouldEmulateAutoDelete_iff:
  "shouldEmulateAutoDelete m u \<longleftrightarrow>
    dm_AutoDelete m \<and> (\<exists>opts. us_queueOpts u = Some opts \<and> qo_EmulateAutoDelete opts) \<and>
    (\<exists>attr. us_queueAttr u = Some attr \<and> qa_AutoDelete attr = Some False)"
  by (auto simp: shouldEmulateAutoDelete_def split: option.splits)

section \<open>Properties\<close>

text \<open>The life of a channel on an upstream: a new channel is found under its number and changes no
  other; opening the number again is refused and changes nothing, without asking the upstream;
  after it is closed the number is free and the others are as before; closing a number that is not
  open succeeds without asking the upstream.\<close>

theorem channel_lifecycle:
  assumes "NewChannel lib cid u w = (Inr ch, u1, w1)"
    and "CloseChannel lib cid u1 w1 = (Inr x, u2, w2)"
  shows "GetChannel cid u1 = Inr ch \<and>
    (\<forall>cid'. cid' \<noteq> cid \<longrightarrow> GetChannel cid' u1 = GetChannel cid' u \<and> GetChannel cid' u2 = GetChannel cid' u) \<and>
    (\<exists>e. NewChannel lib cid u1 w1 = (Inl e, u1, w1)) \<and>
    (\<exists>e. GetChannel cid u2 = Inl e) \<and>
    (\<exists>u3. CloseChannel lib cid u2 w2 = (Inr (), u3, w2))"
proof -
  have u1: "u1 = channel_put cid ch u"
    using NewChannel_ok [OF assms(1)] by simp
  have u2: "u2 = channel_del cid u1"
    using CloseChannel_ok [OF assms(2)] by simp
  have "map_of (us_channel u1) cid = Some ch" "map_of (us_channel u2) cid = None"
    using channels.get_put [of cid ch u cid] channels.get_del [of cid u1 cid]
    by (simp_all add: u1 u2 channel_get_def)
  then show ?thesis
    by (auto simp: GetChannel_get NewChannel_def CloseChannel_def u1 u2 channels.get_put channels.get_del)
qed

definition sample_upstream :: upstream where
  "sample_upstream = \<lparr>us_name = ''primary'', us_address = ''localhost:5672'', us_conn = Some 0, us_channel = [],
     us_keyPatterns = [''logs.#''], us_queueAttr = None, us_queueOpts = None, us_destruct = []\<rparr>"

theorem channel_lifecycle_witness:
  "\<exists>u1 u2. NewChannel recording_lib 1 sample_upstream [] = (Inr 0, u1, [CallChannel 0]) \<and>
    GetChannel 1 u1 = Inr 0 \<and>
    CloseChannel recording_lib 1 u1 [CallChannel 0] = (Inr (), u2, [CallChannel 0, CallChClose 0]) \<and>
    (\<exists>e. GetChannel 1 u2 = Inl e)"
proof -
  let ?u1 = "channel_put 1 0 sample_upstream" and ?u2 = "channel_del 1 (channel_put 1 0 sample_upstream)"
  have 1: "NewChannel recording_lib 1 sample_upstream [] = (Inr 0, ?u1, [CallChannel 0])"
    by (simp add: NewChannel_def sample_upstream_def recording_lib_def logged_def channel_put_def)
  have 2: "CloseChannel recording_lib 1 ?u1 [CallChannel 0] = (Inr (), ?u2, [CallChannel 0, CallChClose 0])"
    by (simp add: CloseChannel_def sample_upstream_def recording_lib_def logged_def channel_put_def channel_del_def)
  from channel_lifecycle [OF 1 2] 1 2 show ?thesis by auto
qed

text \<open>The attributes of a queue declared on an upstream are the client's except where the
  configuration of the upstream overrides them; of the arguments, those of the configuration win
  and a nil value removes the client's. The declaration always waits for the upstream. A queue
  with a generated name keeps the client's arguments and is exclusive, auto-deleted and not
  durable.\<close>

theorem QueueDeclareArgs_override:
  assumes "us_queueAttr u = Some attr" and "distinct (map fst (entries (qa_Arguments attr)))"
    and "\<not> has_prefix (dm_Queue m) AutoGenerateQueueNamePrefix"
    and "QueueDeclareArgs m u = (name, durable, autoDelete, exclusive, noWait, args)"
  shows "name = dm_Queue m \<and> \<not> noWait \<and>
    durable = (case qa_Durable attr of None \<Rightarrow> dm_Durable m | Some b \<Rightarrow> b) \<and>
    autoDelete = (case qa_AutoDelete attr of None \<Rightarrow> dm_AutoDelete m | Some b \<Rightarrow> b) \<and>
    exclusive = (case qa_Exclusive attr of None \<Rightarrow> dm_Exclusive m | Some b \<Rightarrow> b) \<and>
    (\<forall>k. map_of (entries args) k =
      (case map_of (entries (qa_Arguments attr)) k of
         None \<Rightarrow> map_of (entries (dm_Arguments m)) k | Some v \<Rightarrow> if v = FNil then None else Some v))"
  using assms by (auto simp: QueueDeclareArgs_def Let_def merge_args_lookup split: option.splits)

theorem QueueDeclareArgs_override_witness:
  "QueueDeclareArgs \<lparr>dm_Queue = ''q'', dm_Durable = False, dm_Exclusive = True, dm_AutoDelete = True,
      dm_Arguments = Some [(''x-expires'', FInt32 1000), (''x-max-length'', FInt32 5)]\<rparr>
     (sample_upstream\<lparr>us_queueAttr := Some \<lparr>qa_Durable = Some True, qa_AutoDelete = None, qa_Exclusive = Some False,
       qa_Arguments = Some [(''x-expires'', FNil), (''x-queue-type'', FString ''quorum'')]\<rparr>\<rparr>) =
     (''q'', True, True, False, False,
       Some [(''x-max-length'', FInt32 5), (''x-queue-type'', FString ''quorum'')]) \<and>
   map_of (entries (Some [(''x-max-length'', FInt32 5), (''x-queue-type'', FString ''quorum'')])) ''x-expires'' = None"
proof -
  let ?m = "\<lparr>dm_Queue = ''q'', dm_Durable = False, dm_Exclusive = True, dm_AutoDelete = True,
      dm_Arguments = Some [(''x-expires'', FInt32 1000), (''x-max-length'', FInt32 5)]\<rparr>"
  let ?a = "\<lparr>qa_Durable = Some True, qa_AutoDelete = None, qa_Exclusive = Some False,
       qa_Arguments = Some [(''x-expires'', FNil), (''x-queue-type'', FString ''quorum'')]\<rparr>"
  let ?u = "sample_upstream\<lparr>us_queueAttr := Some ?a\<rparr>"
  have p: "\<not> has_prefix (dm_Queue ?m) AutoGenerateQueueNamePrefix"
    by (simp add: has_prefix_def AutoGenerateQueueNamePrefix_def)
  have r: "QueueDeclareArgs ?m ?u = (''q'', True, True, False, False,
       Some [(''x-max-length'', FInt32 5), (''x-queue-type'', FString ''quorum'')])"
    by (simp add: QueueDeclareArgs_def has_prefix_def AutoGenerateQueueNamePrefix_def merge_args_def entries_def)
  have "us_queueAttr ?u = Some ?a" "distinct (map fst (entries (qa_Arguments ?a)))"
    by (simp_all add: entries_def)
  from QueueDeclareArgs_override [OF this p r] r show ?thesis
    by (auto simp: entries_def)
qed

text \<open>When an upstream is closed it deletes every queue that was registered for deletion, in the
  order of registration, on a channel that is open or opened for it, and then closes the
  connection; a queue declared with emulated auto-delete is among them.\<close>

theorem Upstream_Close_deletes:
  assumes "us_conn u = Some conn"
    and "Upstream_Close recording_lib u mx w = (res, mx', w')"
  shows "\<exists>pre ch. res = Inr () \<and>
    w' = w @ pre @ map (\<lambda>d. CallQueueDelete ch (destructor_queue d) False False False) (us_destruct u) @
      [CallConnClose conn] \<and>
    pre = (if us_channel u = [] then [CallChannel conn] else []) \<and>
    ch = (if us_channel u = [] then length w else snd (hd (us_channel u))) \<and>
    WithLabelValues (UpstreamConnections mx') (us_address u) =
      WithLabelValues (UpstreamConnections mx) (us_address u) - 1"
proof -
  have "fold (run_destruct recording_lib ch) ds w =
      w @ map (\<lambda>d. CallQueueDelete ch (destructor_queue d) False False False) ds" for ch ds w
    by (induction ds arbitrary: w) (simp_all add: run_destruct_def recording_lib_def logged_def)
  moreover have "lib_Connection_Close recording_lib conn w = (Inr (), w @ [CallConnClose conn])"
    "lib_Channel recording_lib conn w = (Inr (length w), w @ [CallChannel conn])" for w
    by (simp_all add: recording_lib_def logged_def)
  ultimately show ?thesis
    using assms
    by (cases "us_channel u")
      (auto simp: Upstream_Close_def Let_def WithLabelValues_on_label Gauge_Dec_def)
qed

theorem Upstream_Close_deletes_witness:
  "\<exists>mx' w'. Upstream_Close recording_lib
      (RegisterEmulatedAutoDeleteQueue ''q'' (sample_upstream\<lparr>us_channel := [(1, 7)]\<rparr>)) NewMetrics [] =
      (Inr (), mx', w') \<and> CallQueueDelete 7 ''q'' False False False \<in> set w'"
proof -
  let ?u = "RegisterEmulatedAutoDeleteQueue ''q'' (sample_upstream\<lparr>us_channel := [(1, 7)]\<rparr>)"
  obtain res mx' w' where r: "Upstream_Close recording_lib ?u NewMetrics [] = (res, mx', w')"
    by (cases "Upstream_Close recording_lib ?u NewMetrics []") auto
  have "us_conn ?u = Some 0"
    by (simp add: RegisterEmulatedAutoDeleteQueue_def sample_upstream_def)
  from Upstream_Close_deletes [OF this r] r show ?thesis
    by (auto simp: Upstream_Close_def RegisterEmulatedAutoDeleteQueue_def sample_upstream_def
        recording_lib_def logged_def run_destruct_def Let_def)
qed

text \<open>An upstream whose connection is gone and on which the client has no channel is not closed: the
  attempt to open a channel for the cleanup fails, the connection is not closed and the gauge of
  upstream connections, by which nodes are chosen, is never decremented again.\<close>

theorem Upstream_Close_leaks_gauge:
  assumes "us_channel u = []" and "us_conn u = Some conn"
    and "lib_Channel lib conn w = (Inl e, w')"
  shows "Upstream_Close lib u (snd (NewUpstream (Some conn) conf (us_address u) mx)) w =
      (Inl (''failed to create channel: '' @ rmq_text e), snd (NewUpstream (Some conn) conf (us_address u) mx), w') \<and>
    WithLabelValues (UpstreamConnections (snd (NewUpstream (Some conn) conf (us_address u) mx))) (us_address u) =
      WithLabelValues (UpstreamConnections mx) (us_address u) + 1"
  using assms by (simp add: Upstream_Close_def NewUpstream_def WithLabelValues_on_label Counter_Inc_def)

theorem Upstream_Close_leaks_gauge_witness:
  "\<exists>mx'. Upstream_Close (recording_lib\<lparr>lib_Channel := (\<lambda>conn w. (Inl (OtherError ''closed''), w))\<rparr>) sample_upstream
      (snd (NewUpstream (Some 0) (hd (c_Upstreams sample_config)) (us_address sample_upstream) NewMetrics)) [] =
      (Inl (''failed to create channel: '' @ ''closed''), mx', []) \<and>
    WithLabelValues (UpstreamConnections mx') ''localhost:5672'' = 1"
  using Upstream_Close_leaks_gauge [of sample_upstream 0
      "recording_lib\<lparr>lib_Channel := (\<lambda>conn w. (Inl (OtherError ''closed''), w))\<rparr>" "[]" "OtherError ''closed''" "[]"
      "hd (c_Upstreams sample_config)" NewMetrics]
  by (simp add: sample_upstream_def NewMetrics_def WithLabelValues_def)

text \<open>With the option to try a passive declaration first, what is sent is not a passive declaration but
  a declaration of a non-durable queue that does not wait for an answer; the library reports such
  a declaration as successful without asking the upstream, so the declaration the client asked
  for, with its attributes and its emulated auto-delete, is never made.\<close>

theorem TryPassive_never_declares:
  assumes "us_queueOpts u = Some opts" and "qo_TryPassive opts"
    and "lib_QueueDeclare lib ch (dm_Queue m) False False False True None w = (Inr q, w')"
  shows "QueueDeclareWithTryPassive lib ch m u w = (Inr q, u, w')"
  using assms by (simp add: QueueDeclareWithTryPassive_def Let_def)

theorem TryPassive_never_declares_witness:
  "\<exists>q. QueueDeclareWithTryPassive recording_lib 7
      \<lparr>dm_Queue = ''q'', dm_Durable = True, dm_Exclusive = False, dm_AutoDelete = False, dm_Arguments = None\<rparr>
      (sample_upstream\<lparr>us_queueOpts := Some \<lparr>qo_TryPassive = True, qo_EmulateAutoDelete = False\<rparr>\<rparr>) [] =
    (Inr q, sample_upstream\<lparr>us_queueOpts := Some \<lparr>qo_TryPassive = True, qo_EmulateAutoDelete = False\<rparr>\<rparr>,
     [CallQueueDeclare 7 ''q'' False False False True None])"
proof -
  let ?m = "\<lparr>dm_Queue = ''q'', dm_Durable = True, dm_Exclusive = False, dm_AutoDelete = False, dm_Arguments = None\<rparr>"
  let ?o = "\<lparr>qo_TryPassive = True, qo_EmulateAutoDelete = False\<rparr>"
  have "lib_QueueDeclare recording_lib 7 (dm_Queue ?m) False False False True None [] =
      (Inr \<lparr>rq_Name = ''q'', rq_Messages = 0, rq_Consumers = 0\<rparr>, [CallQueueDeclare 7 ''q'' False False False True None])"
    by (simp add: recording_lib_def logged_def)
  from TryPassive_never_declares [of "sample_upstream\<lparr>us_queueOpts := Some ?o\<rparr>" ?o, OF _ _ this]
  show ?thesis by simp
qed

end
