(* ===== verification/Delivery.thy ===== *)
theory Delivery
  imports Trabbits_Prelude
begin

text \<open>
  Delivery tags: \<^verbatim>\<open>src/delivery.go\<close>. Every upstream numbers its deliveries on its own, so
  the proxy merges the upstream's index into the tag it gives to the client and takes it out again
  when the client acknowledges. The arithmetic is that of Go's \<^verbatim>\<open>uint64\<close>.
\<close>

section \<open>Definitions\<close>

record delivery =
  d_i :: nat
  d_n :: nat
  d_upstreamName :: string

definition newDelivery :: "nat \<Rightarrow> nat \<Rightarrow> string \<Rightarrow> delivery" where
  "newDelivery i n upstreamName = \<lparr>d_i = i, d_n = n, d_upstreamName = upstreamName\<rparr>"

definition Tag :: "delivery \<Rightarrow> u64 \<Rightarrow> u64" where
  "Tag d s = s * word_of_nat (d_n d) + word_of_nat (d_i d)"

text \<open>Division by zero panics; \<open>None\<close> is the panic.\<close>

definition restoreDeliveryTag :: "u64 \<Rightarrow> nat \<Rightarrow> (u64 \<times> nat) option" where
  "restoreDeliveryTag tag n =
     (if (word_of_nat n :: u64) = 0 then None
      else Some (tag div word_of_nat n, unat (tag mod word_of_nat n)))"

section \<open>Tags survive the round trip\<close>

lemma unat_u64: "n < 2 ^ 64 \<Longrightarrow> unat (word_of_nat n :: u64) = n"
  by (simp add: unat_of_nat)

lemma unat_Tag:
  assumes "d_n d < 2 ^ 64" and "d_i d < d_n d"
  shows "unat (Tag d s) = (unat s * d_n d + d_i d) mod 2 ^ 64"
  using assms by (simp add: Tag_def unat_word_ariths unat_of_nat mod_simps)

lemma restoreDeliveryTag_unat:
  assumes "0 < n" and "n < 2 ^ 64" and "restoreDeliveryTag tag n = Some (t, i)"
  shows "unat t = unat tag div n \<and> i = unat tag mod n"
proof -
  have "unat (word_of_nat n :: u64) = n"
    using assms(2) by (rule unat_u64)
  then show ?thesis
    using assms(3) by (auto simp: restoreDeliveryTag_def unat_div unat_mod split: if_splits)
qed

lemma restoreDeliveryTag_defined:
  assumes "0 < n" and "n < 2 ^ 64"
  shows "restoreDeliveryTag tag n = Some (tag div word_of_nat n, unat (tag mod word_of_nat n))"
  using assms unat_u64 [of n] by (auto simp: restoreDeliveryTag_def)

lemma Tag_restore:
  assumes "i < n" and "n < 2 ^ 64"
  shows "restoreDeliveryTag (Tag (newDelivery i n u) s) n = Some (s, i) \<longleftrightarrow> unat s * n + i < 2 ^ 64"
proof
  assume ok: "restoreDeliveryTag (Tag (newDelivery i n u) s) n = Some (s, i)"
  then have "unat s = unat (Tag (newDelivery i n u) s) div n"
    "i = unat (Tag (newDelivery i n u) s) mod n"
    using restoreDeliveryTag_unat [of n _ s i] assms by auto
  then have "unat (Tag (newDelivery i n u) s) = unat s * n + i"
    by (metis div_mult_mod_eq)
  then show "unat s * n + i < 2 ^ 64"
    using unsigned_less [of "Tag (newDelivery i n u) s", where ?'a = nat] by simp
next
  assume fits: "unat s * n + i < 2 ^ 64"
  let ?tag = "Tag (newDelivery i n u) s"
  have tag: "unat ?tag = unat s * n + i"
    using unat_Tag [of "newDelivery i n u" s] assms fits by (simp add: newDelivery_def)
  obtain t j where r: "restoreDeliveryTag ?tag n = Some (t, j)"
    using restoreDeliveryTag_defined [of n ?tag] assms by auto
  then have "unat t = unat s" "j = i"
    using restoreDeliveryTag_unat [OF _ assms(2) r] assms tag by auto
  then show "restoreDeliveryTag ?tag n = Some (s, i)"
    using r by (simp add: word_unat_eq_iff)
qed

section \<open>Properties\<close>

text \<open>The client's tag of a delivery, given to an acknowledgement, leads back to the upstream the
  delivery came from and to the tag that upstream gave it, exactly as long as the merged tag fits
  64 bits: beyond that point the multiplication wraps and the acknowledgement goes to another
  tag.\<close>

theorem delivery_tag_round_trip:
  assumes "i < n" and "n < 2 ^ 64"
  shows "restoreDeliveryTag (Tag (newDelivery i n u) s) n = Some (s, i) \<longleftrightarrow> unat s * n + i < 2 ^ 64"
  using assms by (rule Tag_restore)

theorem delivery_tag_round_trip_witness:
  "restoreDeliveryTag (Tag (newDelivery 1 2 ''u'') 21) 2 = Some (21, 1) \<and>
   restoreDeliveryTag (Tag (newDelivery 1 2 ''u'') 0x8000000000000000) 2 \<noteq> Some (0x8000000000000000, 1)"
  using delivery_tag_round_trip [of 1 2 "''u''" 21] delivery_tag_round_trip [of 1 2 "''u''" "0x8000000000000000"]
  by simp

text \<open>C22. Deliveries of different upstreams never share a client tag, and neither do two deliveries of one
  upstream, as long as the merged tags fit.\<close>

theorem delivery_tags_distinct:
  assumes "i < n" "j < n" "n < 2 ^ 64"
    and "unat s * n + i < 2 ^ 64" "unat t * n + j < 2 ^ 64"
    and "Tag (newDelivery i n u) s = Tag (newDelivery j n v) t"
  shows "i = j \<and> s = t"
  using Tag_restore [of i n u s] Tag_restore [of j n v t] assms by auto

theorem delivery_tags_distinct_witness:
  "Tag (newDelivery 0 2 ''a'') 7 \<noteq> Tag (newDelivery 1 2 ''b'') 7"
  using delivery_tags_distinct [of 0 2 1 7 7 "''a''" "''b''"] by auto

end
