(* ===== verification/Confirm_State.thy ===== *)
theory Confirm_State
  imports Trabbits_Prelude
begin

text \<open>
  Publisher confirms: the data structure of \<^verbatim>\<open>src/confirm.go\<close>. Every upstream numbers
  the messages published to it; the proxy gives the client one numbering over all upstreams. The
  state remembers, for every upstream and upstream tag, the client's tag, until the upstream
  confirms.
\<close>

section \<open>Definitions\<close>

type_synonym confirmKey = "nat \<times> u64"

record confirmState =
  clientTag :: u64
  tagMap :: "confirmKey \<rightharpoonup> u64"

definition newConfirmState :: confirmState where
  "newConfirmState = \<lparr>clientTag = 0, tagMap = Map.empty\<rparr>"

definition RecordPublish :: "nat \<Rightarrow> u64 \<Rightarrow> confirmState \<Rightarrow> u64 \<times> confirmState" where
  "RecordPublish upstreamIndex upstreamTag cs =
     (let cs = cs\<lparr>clientTag := clientTag cs + 1\<rparr>;
          cs = cs\<lparr>tagMap := (tagMap cs)((upstreamIndex, upstreamTag) \<mapsto> clientTag cs)\<rparr>
      in (clientTag cs, cs))"

definition LookupClientTag :: "nat \<Rightarrow> u64 \<Rightarrow> confirmState \<Rightarrow> u64 option \<times> confirmState" where
  "LookupClientTag upstreamIndex upstreamTag cs =
     (let key = (upstreamIndex, upstreamTag) in
      case tagMap cs key of
        Some tag \<Rightarrow> (Some tag, cs\<lparr>tagMap := (tagMap cs)(key := None)\<rparr>)
      | None \<Rightarrow> (None, cs))"

text \<open>
  What happens to one state: a publish recorded by \<^verbatim>\<open>replyBasicPublish\<close>, a confirmation
  taken by a \<^verbatim>\<open>listenConfirm\<close> goroutine. The lock makes each of them one step, in
  whatever order the goroutines get it. A confirmation that is known gives an ack or nack of the
  client's tag.
\<close>

datatype confirm_event = Published nat u64 | Confirmed nat u64 bool

fun confirm_exec :: "confirm_event list \<Rightarrow> confirmState \<Rightarrow> (u64 \<times> bool) list \<times> confirmState" where
  "confirm_exec [] cs = ([], cs)"
| "confirm_exec (Published i t # evs) cs = confirm_exec evs (snd (RecordPublish i t cs))"
| "confirm_exec (Confirmed i t ack # evs) cs =
     (case LookupClientTag i t cs of
        (None, cs') \<Rightarrow> confirm_exec evs cs'
      | (Some tag, cs') \<Rightarrow> (case confirm_exec evs cs' of (outs, cs'') \<Rightarrow> ((tag, ack) # outs, cs'')))"

section \<open>Specification\<close>

text \<open>
  The ledger a client would keep: the keys of its publishes in order, and those not confirmed
  yet. The client's tag of a publish is its position, counted from one.
\<close>

definition position :: "'a list \<Rightarrow> 'a \<Rightarrow> nat" where
  "position xs x = length (takeWhile (\<lambda>y. y \<noteq> x) xs)"

primrec confirm_spec :: "confirm_event list \<Rightarrow> confirmKey list \<Rightarrow> confirmKey set \<Rightarrow> (nat \<times> bool) list" where
  "confirm_spec [] ps pend = []"
| "confirm_spec (e # evs) ps pend = (case e of
     Published i t \<Rightarrow> confirm_spec evs (ps @ [(i, t)]) (insert (i, t) pend)
   | Confirmed i t ack \<Rightarrow>
       if (i, t) \<in> pend
       then (Suc (position ps (i, t)), ack) # confirm_spec evs ps (pend - {(i, t)})
       else confirm_spec evs ps pend)"

fun published :: "confirm_event list \<Rightarrow> confirmKey list" where
  "published [] = []"
| "published (Published i t # evs) = (i, t) # published evs"
| "published (Confirmed i t ack # evs) = published evs"

definition ledger :: "confirmState \<Rightarrow> confirmKey list \<Rightarrow> confirmKey set \<Rightarrow> bool" where
  "ledger cs ps pend \<longleftrightarrow>
     clientTag cs = word_of_nat (length ps) \<and> pend \<subseteq> set ps \<and> distinct ps \<and>
     tagMap cs = (\<lambda>k. if k \<in> pend then Some (word_of_nat (Suc (position ps k))) else None)"

section \<open>Refinement\<close>

lemma position_less: "x \<in> set xs \<Longrightarrow> position xs x < length xs"
  by (induction xs) (auto simp: position_def)

lemma nth_position: "x \<in> set xs \<Longrightarrow> xs ! position xs x = x"
  by (induction xs) (auto simp: position_def)

lemma position_append:
  "position (xs @ ys) x = (if x \<in> set xs then position xs x else length xs + position ys x)"
  by (induction xs) (auto simp: position_def)

lemma position_new: "position [x] x = 0"
  by (simp add: position_def)

lemma ledger_new: "ledger newConfirmState [] {}"
  by (simp add: ledger_def newConfirmState_def)

lemma ledger_publish:
  assumes "ledger cs ps pend" and "(i, t) \<notin> set ps"
  shows "ledger (snd (RecordPublish i t cs)) (ps @ [(i, t)]) (insert (i, t) pend)"
proof -
  have "position (ps @ [(i, t)]) k = position ps k" if "k \<in> pend" for k
    using assms(1) that by (auto simp: position_append ledger_def)
  moreover have "position (ps @ [(i, t)]) (i, t) = length ps"
    using assms(2) by (simp add: position_append position_new)
  ultimately show ?thesis
    using assms by (auto simp: ledger_def RecordPublish_def Let_def fun_eq_iff)
qed

lemma ledger_confirm:
  assumes "ledger cs ps pend"
  shows "LookupClientTag i t cs =
    (if (i, t) \<in> pend then (Some (word_of_nat (Suc (position ps (i, t)))), cs\<lparr>tagMap := (tagMap cs)((i, t) := None)\<rparr>)
     else (None, cs))"
  using assms by (simp add: LookupClientTag_def ledger_def Let_def)

lemma ledger_confirmed:
  "ledger cs ps pend \<Longrightarrow> ledger (cs\<lparr>tagMap := (tagMap cs)(k := None)\<rparr>) ps (pend - {k})"
  by (auto simp: ledger_def fun_eq_iff)

lemma confirm_exec_refines:
  assumes "ledger cs ps pend" and "distinct (ps @ published evs)"
  shows "fst (confirm_exec evs cs) = map (\<lambda>(n, ack). (word_of_nat n, ack)) (confirm_spec evs ps pend)"
  using assms
proof (induction evs cs arbitrary: ps pend rule: confirm_exec.induct)
  case (2 i t evs cs)
  then have "ledger (snd (RecordPublish i t cs)) (ps @ [(i, t)]) (insert (i, t) pend)"
    by (intro ledger_publish) auto
  with 2 show ?case by simp
next
  case (3 i t ack evs cs)
  show ?case
  proof (cases "(i, t) \<in> pend")
    case True
    with 3 have look: "LookupClientTag i t cs = (Some (word_of_nat (Suc (position ps (i, t)))),
        cs\<lparr>tagMap := (tagMap cs)((i, t) := None)\<rparr>)"
      by (simp add: ledger_confirm)
    have "fst (confirm_exec evs (cs\<lparr>tagMap := (tagMap cs)((i, t) := None)\<rparr>)) =
        map (\<lambda>(n, ack). (word_of_nat n, ack)) (confirm_spec evs ps (pend - {(i, t)}))"
      using 3 look ledger_confirmed [of cs ps pend "(i, t)"] by (intro "3.IH"(2)) auto
    then show ?thesis
      using True look by (simp add: case_prod_beta)
  next
    case False
    with 3 have "LookupClientTag i t cs = (None, cs)"
      by (simp add: ledger_confirm)
    then show ?thesis
      using False 3 by simp
  qed
qed simp

lemma confirm_spec_tags:
  assumes "pend \<subseteq> set ps" and "distinct (ps @ published evs)"
  shows "distinct (map fst (confirm_spec evs ps pend)) \<and>
    (\<forall>(n, ack) \<in> set (confirm_spec evs ps pend).
       0 < n \<and> n \<le> length (ps @ published evs) \<and>
       (let k = (ps @ published evs) ! (n - 1) in
         (k \<in> pend \<or> k \<in> set (published evs)) \<and> Confirmed (fst k) (snd k) ack \<in> set evs))"
  using assms
proof (induction evs arbitrary: ps pend)
  case (Cons e evs)
  show ?case
  proof (cases e)
    case (Published i t)
    then show ?thesis
      using Cons.IH [of "insert (i, t) pend" "ps @ [(i, t)]"] Cons.prems
      by (auto simp: Let_def split: prod.splits)
  next
    case (Confirmed i t ack)
    show ?thesis
    proof (cases "(i, t) \<in> pend")
      case False
      then show ?thesis
        using Confirmed Cons.IH [of pend ps] Cons.prems by (auto simp: Let_def split: prod.splits)
    next
      case True
      then have mem: "(i, t) \<in> set ps" using Cons.prems by auto
      let ?n = "position ps (i, t)"
      have n: "?n < length ps" "ps ! ?n = (i, t)"
        using mem by (auto simp: position_less nth_position)
      have ih: "distinct (map fst (confirm_spec evs ps (pend - {(i, t)})))"
        "\<And>m a. (m, a) \<in> set (confirm_spec evs ps (pend - {(i, t)})) \<Longrightarrow>
          0 < m \<and> m \<le> length (ps @ published evs) \<and>
          (let k = (ps @ published evs) ! (m - 1) in
            (k \<in> pend - {(i, t)} \<or> k \<in> set (published evs)) \<and> Confirmed (fst k) (snd k) a \<in> set evs)"
        using Confirmed Cons.IH [of "pend - {(i, t)}" ps] Cons.prems by auto
      have "Suc ?n \<notin> fst ` set (confirm_spec evs ps (pend - {(i, t)}))"
        using ih(2) [of "Suc ?n"] n Cons.prems Confirmed mem
        by (auto simp: Let_def nth_append)
      then show ?thesis
        using True Confirmed ih n by (auto simp: Let_def nth_append)
    qed
  qed
qed simp

lemma confirm_spec_pending:
  assumes "(i, t) \<in> pend" "pend \<subseteq> set ps" "Confirmed i t a \<in> set evs"
  shows "Suc (position ps (i, t)) \<in> fst ` set (confirm_spec evs ps pend)"
  using assms
proof (induction evs arbitrary: ps pend)
  case (Cons e evs)
  show ?case
  proof (cases e)
    case (Published j u)
    have "(i, t) \<in> set ps" using Cons.prems by auto
    then have "position (ps @ [(j, u)]) (i, t) = position ps (i, t)"
      by (simp add: position_append)
    then show ?thesis
      using Published Cons.IH [of "insert (j, u) pend" "ps @ [(j, u)]"] Cons.prems by auto
  next
    case (Confirmed j u b)
    show ?thesis
    proof (cases "(j, u) = (i, t)")
      case True
      then show ?thesis using Confirmed Cons.prems by simp
    next
      case False
      then have "Suc (position ps (i, t)) \<in> fst ` set (confirm_spec evs ps (pend - {(j, u)}))"
        "Suc (position ps (i, t)) \<in> fst ` set (confirm_spec evs ps pend)"
        using Confirmed Cons.IH [of "pend - {(j, u)}" ps] Cons.IH [of pend ps] Cons.prems by auto
      then show ?thesis using Confirmed by auto
    qed
  qed
qed simp

lemma confirm_spec_later:
  assumes "pend \<subseteq> set ps" "distinct (ps @ published (xs @ Published i t # ys))" "Confirmed i t a \<in> set ys"
  shows "Suc (length ps + length (published xs)) \<in>
    fst ` set (confirm_spec (xs @ Published i t # ys) ps pend)"
  using assms
proof (induction xs arbitrary: ps pend)
  case Nil
  then have "position (ps @ [(i, t)]) (i, t) = length ps"
    by (simp add: position_append position_new)
  then show ?case
    using Nil confirm_spec_pending [of i t "insert (i, t) pend" "ps @ [(i, t)]" a ys] by auto
next
  case (Cons e xs)
  show ?case
  proof (cases e)
    case (Published j u)
    then show ?thesis
      using Cons.IH [of "insert (j, u) pend" "ps @ [(j, u)]"] Cons.prems by auto
  next
    case (Confirmed j u b)
    then show ?thesis
      using Cons.IH [of "pend - {(j, u)}" ps] Cons.IH [of pend ps] Cons.prems by auto
  qed
qed

lemma confirm_exec_ledger:
  assumes "distinct (published evs)" and "length (published evs) < 2 ^ 64"
  shows "map (\<lambda>(tag, ack). (unat tag, ack)) (fst (confirm_exec evs newConfirmState)) = confirm_spec evs [] {}"
proof -
  have "n < 2 ^ 64" if "(n, a) \<in> set (confirm_spec evs [] {})" for n a
    using confirm_spec_tags [of "{}" "[]" evs] assms that by fastforce
  then have "map (\<lambda>(tag, ack). (unat tag, ack)) (map (\<lambda>(n, ack). (word_of_nat n :: u64, ack))
      (confirm_spec evs [] {})) = confirm_spec evs [] {}"
    by (auto simp: unat_of_nat intro!: map_idI)
  then show ?thesis
    using confirm_exec_refines [OF ledger_new, of evs] assms by simp
qed

section \<open>Properties\<close>

text \<open>C13. Publisher confirms refine the ledger of one numbering over all upstreams: for any interleaving
  of publishes and upstream confirmations in which no upstream tag is published twice, the acks
  and nacks that reach the client are those of the ledger, in the same order.\<close>

theorem confirm_refines_ledger:
  assumes "distinct (published evs)" and "length (published evs) < 2 ^ 64"
  shows "map (\<lambda>(tag, ack). (unat tag, ack)) (fst (confirm_exec evs newConfirmState)) = confirm_spec evs [] {}"
  using assms by (rule confirm_exec_ledger)

theorem confirm_refines_ledger_witness:
  "map (\<lambda>(tag, ack). (unat tag, ack)) (fst (confirm_exec
     [Published 0 1, Published 1 1, Confirmed 1 1 True, Published 0 2, Confirmed 0 1 False] newConfirmState)) =
   [(2, True), (1, False)]"
  using confirm_refines_ledger [of "[Published 0 1, Published 1 1, Confirmed 1 1 True, Published 0 2, Confirmed 0 1 False]"]
  by (simp add: position_def)

text \<open>C14. The client is never told twice about one publish and never about a publish it did not make: the
  tags it receives are pairwise different, each is the number of one of its publishes, and the
  verdict is one that the upstream holding that publish gave for it.\<close>

theorem confirms_unique_and_sound:
  assumes "distinct (published evs)" and "length (published evs) < 2 ^ 64"
    and "fst (confirm_exec evs newConfirmState) = outs"
  shows "distinct (map fst outs) \<and>
    (\<forall>(tag, ack) \<in> set outs. 0 < unat tag \<and> unat tag \<le> length (published evs) \<and>
       (case published evs ! (unat tag - 1) of (i, t) \<Rightarrow> Confirmed i t ack \<in> set evs))"
proof -
  have spec: "confirm_spec evs [] {} = map (\<lambda>(tag, ack). (unat tag, ack)) outs"
    using confirm_exec_ledger [OF assms(1,2)] assms(3) by simp
  have tags: "distinct (map fst (confirm_spec evs [] {}))"
    "\<And>n ack. (n, ack) \<in> set (confirm_spec evs [] {}) \<Longrightarrow> 0 < n \<and> n \<le> length (published evs) \<and>
       Confirmed (fst (published evs ! (n - 1))) (snd (published evs ! (n - 1))) ack \<in> set evs"
    using confirm_spec_tags [of "{}" "[]" evs] assms(1) by (auto simp: Let_def split: prod.splits)
  have "map fst (confirm_spec evs [] {}) = map unat (map fst outs)"
    by (simp add: spec case_prod_beta comp_def)
  then have "distinct (map fst outs)"
    using tags(1) by (metis distinct_map)
  moreover have "(unat tag, ack) \<in> set (confirm_spec evs [] {})" if "(tag, ack) \<in> set outs" for tag ack
    using that by (force simp: spec)
  ultimately show ?thesis
    using tags(2) by (fastforce split: prod.splits)
qed

theorem confirms_unique_and_sound_witness:
  "\<exists>outs. fst (confirm_exec [Published 0 1, Confirmed 0 1 True, Confirmed 0 1 True] newConfirmState) = outs \<and>
    distinct (map fst outs)"
  using confirms_unique_and_sound [of "[Published 0 1, Confirmed 0 1 True, Confirmed 0 1 True]"]
  by (simp del: confirm_exec.simps)

text \<open>No confirmation is lost: when an upstream confirms a publish after it was recorded, the client
  gets a verdict for the number of that publish, whatever else happens before, between and
  after.\<close>

theorem confirm_delivered:
  assumes "distinct (published (xs @ Published i t # ys))"
    and "length (published (xs @ Published i t # ys)) < 2 ^ 64"
    and "Confirmed i t a \<in> set ys"
  shows "Suc (length (published xs)) \<in>
    (\<lambda>(tag, ack). unat tag) ` set (fst (confirm_exec (xs @ Published i t # ys) newConfirmState))"
proof -
  have "Suc (length (published xs)) \<in> fst ` set (confirm_spec (xs @ Published i t # ys) [] {})"
    using confirm_spec_later [of "{}" "[]" xs i t ys a] assms by simp
  then show ?thesis
    unfolding confirm_exec_ledger [OF assms(1,2), symmetric] by force
qed

theorem confirm_delivered_witness:
  "Suc (Suc 0) \<in> (\<lambda>(tag, ack). unat tag) ` set (fst (confirm_exec
     ([Published 0 1] @ Published 1 1 # [Confirmed 1 1 False]) newConfirmState))"
  using confirm_delivered [of "[Published 0 1]" 1 1 "[Confirmed 1 1 False]" False]
  by (simp del: confirm_exec.simps)

end
