(* ===== verification/Proxy.thy ===== *)
theory Proxy
  imports Client_IO Upstream Delivery Confirm_State Topic_Pattern
begin

text \<open>
  The proxy of one client: \<^verbatim>\<open>src/methods.go\<close>, the dispatcher and the routing of
  \<^verbatim>\<open>src/proxy.go\<close>, the rest of \<^verbatim>\<open>src/delivery.go\<close> and \<^verbatim>\<open>src/confirm.go\<close>,
  and \<^verbatim>\<open>src/error.go\<close>.

  A handler is a function of the proxy's state that gives an error or a value and the new state.
  Library calls act on the field \<open>p_world\<close>. The states of publisher confirms are shared between the
  proxy and its listeners, so they live in a store, \<open>p_heap\<close>, and are referred to by number.
  Goroutines that a handler starts are recorded, listeners of confirms in \<open>p_listeners\<close> and
  consumers in \<open>p_consumers\<close>; their steps are \<open>listenConfirm_step\<close> and \<open>consume_step\<close>.
\<close>

section \<open>State\<close>

record listener =
  l_channelID :: u16
  l_upstreamIndex :: nat
  l_cs :: nat

record consumer =
  co_channelID :: u16
  co_queue :: string
  co_tag :: string
  co_ch :: nat
  co_delivery :: delivery

record 'w proxy = client +
  p_upstreams :: "upstream list"
  p_user :: string
  p_password :: string
  p_VirtualHost :: string
  p_clientProps :: gotable
  p_confirmStates :: "(u16 \<times> nat) list"
  p_heap :: "confirmState list"
  p_listeners :: "listener list"
  p_consumers :: "consumer list"
  p_shutdownMessage :: string
  p_clientAddr :: string
  p_world :: 'w

text \<open>
  What the Go runtime decides: the random \<^verbatim>\<open>rand.Text\<close>, \<^verbatim>\<open>rand.Perm\<close> and
  \<^verbatim>\<open>rand.IntN\<close>, the order in which \<^verbatim>\<open>sort.Slice\<close> leaves more than twelve
  elements under a comparison that is not consistent, and the text \<^verbatim>\<open>fmt\<close> gives to a field
  value that is no string.
\<close>

record 'w runtime =
  rt_Text :: "'w \<Rightarrow> string \<times> 'w"
  rt_Perm :: "nat \<Rightarrow> 'w \<Rightarrow> nat list \<times> 'w"
  rt_IntN :: "nat \<Rightarrow> 'w \<Rightarrow> nat \<times> 'w"
  rt_pdqsort :: "(string \<times> u64) list \<Rightarrow> 'w \<Rightarrow> (string \<times> u64) list \<times> 'w"
  rt_Sprint :: "field \<Rightarrow> string"

definition to_lower :: "char \<Rightarrow> char" where
  "to_lower c = (let n = of_char c :: nat in if 65 \<le> n \<and> n \<le> 90 then char_of (n + 32) else c)"

definition generateID :: "'w runtime \<Rightarrow> 'w \<Rightarrow> string \<times> 'w" where
  "generateID rt w = (case rt_Text rt w of (s, w') \<Rightarrow> (map to_lower s, w'))"

type_synonym ('w, 'a) pm = "'w proxy \<Rightarrow> (perr + 'a) \<times> 'w proxy"

definition pret :: "'a \<Rightarrow> ('w, 'a) pm" where "pret x p = (Inr x, p)"

definition pfail :: "perr \<Rightarrow> ('w, 'a) pm" where "pfail e p = (Inl e, p)"

definition pbind :: "('w, 'a) pm \<Rightarrow> ('a \<Rightarrow> ('w, 'b) pm) \<Rightarrow> ('w, 'b) pm" where
  "pbind m f p = (case m p of (Inl e, p') \<Rightarrow> (Inl e, p') | (Inr x, p') \<Rightarrow> f x p')"

text \<open>A library call; an error is turned into one of the proxy.\<close>

definition call :: "('w \<Rightarrow> (rmq_error + 'a) \<times> 'w) \<Rightarrow> (rmq_error \<Rightarrow> perr) \<Rightarrow> ('w, 'a) pm" where
  "call op err p =
     (case op (p_world p) of
        (Inl e, w) \<Rightarrow> (Inl (err e), p\<lparr>p_world := w\<rparr>)
      | (Inr x, w) \<Rightarrow> (Inr x, p\<lparr>p_world := w\<rparr>))"

text \<open>A Go loop over an indexed list that returns at the first error.\<close>

primrec for_each :: "nat \<Rightarrow> 'c list \<Rightarrow> (nat \<Rightarrow> 'c \<Rightarrow> ('w, unit) pm) \<Rightarrow> ('w, unit) pm" where
  "for_each i [] f = pret ()"
| "for_each i (x # xs) f = pbind (f i x) (\<lambda>_. for_each (Suc i) xs f)"

definition InternalError :: u16 where "InternalError = 541"
definition FrameError :: u16 where "FrameError = 501"
definition NotImplemented :: u16 where "NotImplemented = 540"

text \<open>\<^verbatim>\<open>NewError(amqp091.InternalError, ...)\<close> around an error of an upstream.\<close>

definition upstream_failed :: "string \<Rightarrow> string \<Rightarrow> rmq_error \<Rightarrow> perr" where
  "upstream_failed what us e = AMQPErr InternalError (what @ '' on upstream '' @ us @ '': '' @ rmq_text e)"

section \<open>Channels and routing\<close>

fun get_channels :: "u16 \<Rightarrow> upstream list \<Rightarrow> nat list go" where
  "get_channels cid [] = Inr []"
| "get_channels cid (u # us) =
     (case GetChannel cid u of
        Inl e \<Rightarrow> Inl (''failed to get channel '' @ show_nat (unat cid) @ '' on upstream '' @ us_name u @ '': '' @ e)
      | Inr ch \<Rightarrow> (case get_channels cid us of Inl e \<Rightarrow> Inl e | Inr chs \<Rightarrow> Inr (ch # chs)))"

definition of_go :: "'a go \<Rightarrow> ('w, 'a) pm" where
  "of_go r = (case r of Inl e \<Rightarrow> pfail (GoErr e) | Inr x \<Rightarrow> pret x)"

definition GetChannels :: "u16 \<Rightarrow> ('w, nat list) pm" where
  "GetChannels cid p = of_go (get_channels cid (p_upstreams p)) p"

text \<open>\<^verbatim>\<open>Upstream(i).String()\<close>; an index out of range would panic.\<close>

definition Upstream_name :: "nat \<Rightarrow> 'w proxy \<Rightarrow> string" where
  "Upstream_name i p = (if i < length (p_upstreams p) then us_name (p_upstreams p ! i) else [])"

definition matches :: "string \<Rightarrow> upstream \<Rightarrow> bool" where
  "matches routingKey u = list_ex (\<lambda>keyPattern. Match routingKey keyPattern) (us_keyPatterns u)"

fun first_match :: "nat \<Rightarrow> string \<Rightarrow> upstream list \<Rightarrow> nat option" where
  "first_match i routingKey [] = None"
| "first_match i routingKey (u # us) =
     (if matches routingKey u then Some i else first_match (Suc i) routingKey us)"

definition GetChannelWithIndex :: "u16 \<Rightarrow> string \<Rightarrow> ('w, nat \<times> nat) pm" where
  "GetChannelWithIndex cid routingKey p =
     (case first_match 0 routingKey (p_upstreams p) of
        Some i \<Rightarrow> pbind (of_go (GetChannel cid (p_upstreams p ! i))) (\<lambda>ch. pret (ch, i)) p
      | None \<Rightarrow>
          (case p_upstreams p of
             [] \<Rightarrow> (Inl (Panic ''index out of range''), p)
           | u # _ \<Rightarrow> pbind (of_go (GetChannel cid u)) (\<lambda>ch. pret (ch, 0)) p))"

text \<open>\<^verbatim>\<open>GetChannel\<close> of the proxy, which goes on after a match.\<close>

definition last_match :: "string \<Rightarrow> upstream list \<Rightarrow> upstream option" where
  "last_match routingKey us =
     fold (\<lambda>u routed. if matches routingKey u then Some u else routed) us None"

definition Proxy_GetChannel :: "u16 \<Rightarrow> string \<Rightarrow> ('w, nat) pm" where
  "Proxy_GetChannel cid routingKey p =
     (case last_match routingKey (p_upstreams p) of
        Some u \<Rightarrow> of_go (GetChannel cid u) p
      | None \<Rightarrow>
          (case p_upstreams p of
             [] \<Rightarrow> (Inl (Panic ''index out of range''), p)
           | u # _ \<Rightarrow> of_go (GetChannel cid u) p))"

text \<open>Opening and closing a channel on every upstream; an error leaves the earlier ones as they are.\<close>

fun open_channels :: "'w rabbitmq \<Rightarrow> u16 \<Rightarrow> upstream list \<Rightarrow> 'w \<Rightarrow> unit go \<times> upstream list \<times> 'w" where
  "open_channels lib cid [] w = (Inr (), [], w)"
| "open_channels lib cid (u # us) w =
     (case NewChannel lib cid u w of
        (Inl e, u', w') \<Rightarrow> (Inl (''failed to create channel on upstream '' @ us_name u @ '': '' @ e), u' # us, w')
      | (Inr _, u', w') \<Rightarrow>
          (case open_channels lib cid us w' of (res, us', w'') \<Rightarrow> (res, u' # us', w'')))"

fun close_channels :: "'w rabbitmq \<Rightarrow> u16 \<Rightarrow> upstream list \<Rightarrow> 'w \<Rightarrow> unit go \<times> upstream list \<times> 'w" where
  "close_channels lib cid [] w = (Inr (), [], w)"
| "close_channels lib cid (u # us) w =
     (case CloseChannel lib cid u w of
        (Inl e, u', w') \<Rightarrow> (Inl (''failed to close channel on upstream '' @ us_name u @ '': '' @ e), u' # us, w')
      | (Inr _, u', w') \<Rightarrow>
          (case close_channels lib cid us w' of (res, us', w'') \<Rightarrow> (res, u' # us', w'')))"

definition on_upstreams :: "(upstream list \<Rightarrow> 'w \<Rightarrow> 'a go \<times> upstream list \<times> 'w) \<Rightarrow> ('w, 'a) pm" where
  "on_upstreams f p =
     (case f (p_upstreams p) (p_world p) of (res, us, w) \<Rightarrow>
        of_go res (p\<lparr>p_upstreams := us, p_world := w\<rparr>))"

definition Proxy_NewChannel :: "'w rabbitmq \<Rightarrow> u16 \<Rightarrow> ('w, unit) pm" where
  "Proxy_NewChannel lib cid = on_upstreams (open_channels lib cid)"

definition Proxy_CloseChannel :: "'w rabbitmq \<Rightarrow> u16 \<Rightarrow> ('w, unit) pm" where
  "Proxy_CloseChannel lib cid = on_upstreams (close_channels lib cid)"

section \<open>Publisher confirms of a channel\<close>

definition getConfirmState :: "'w proxy \<Rightarrow> u16 \<Rightarrow> nat option" where
  "getConfirmState p cid = map_of (p_confirmStates p) cid"

definition setConfirmState :: "u16 \<Rightarrow> nat \<Rightarrow> 'w proxy \<Rightarrow> 'w proxy" where
  "setConfirmState cid cs p = p\<lparr>p_confirmStates := AList.update cid cs (p_confirmStates p)\<rparr>"

definition deleteConfirmState :: "u16 \<Rightarrow> 'w proxy \<Rightarrow> 'w proxy" where
  "deleteConfirmState cid p = p\<lparr>p_confirmStates := AList.delete cid (p_confirmStates p)\<rparr>"

section \<open>Delivery tags of a channel\<close>

definition GetChannelByDeliveryTag :: "u16 \<Rightarrow> u64 \<Rightarrow> ('w, nat \<times> u64) pm" where
  "GetChannelByDeliveryTag cid tag =
     pbind (GetChannels cid) (\<lambda>chs p.
       case restoreDeliveryTag tag (length (p_upstreams p)) of
         None \<Rightarrow> (Inl (Panic ''integer divide by zero''), p)
       | Some (t, index) \<Rightarrow>
           if length chs \<le> index
           then (Inl (GoErr (''channel not found: id='' @ show_nat (unat cid) @ '', tag='' @ show_nat (unat tag))), p)
           else (Inr (chs ! index, t), p))"

section \<open>Confirm states of channels are a keyed store\<close>

interpretation confirms: keyed_store getConfirmState setConfirmState deleteConfirmState
  by unfold_locales
    (auto simp: getConfirmState_def setConfirmState_def deleteConfirmState_def update_conv' delete_conv')

section \<open>Routing and channels\<close>

lemma first_match_Some:
  "first_match i key us = Some j \<Longrightarrow>
    i \<le> j \<and> j - i < length us \<and> matches key (us ! (j - i)) \<and> (\<forall>k < j - i. \<not> matches key (us ! k))"
proof (induction us arbitrary: i)
  case (Cons u us)
  show ?case
  proof (cases "matches key u")
    case True
    then show ?thesis using Cons.prems by auto
  next
    case False
    then have ih: "Suc i \<le> j \<and> j - Suc i < length us \<and> matches key (us ! (j - Suc i)) \<and>
        (\<forall>k < j - Suc i. \<not> matches key (us ! k))"
      using Cons by simp
    then have "j - i = Suc (j - Suc i)" by linarith
    then show ?thesis
      using ih False by (auto simp: less_Suc_eq_0_disj)
  qed
qed simp

lemma first_match_None: "first_match i key us = None \<longleftrightarrow> (\<forall>u \<in> set us. \<not> matches key u)"
  by (induction us arbitrary: i) auto

lemma pbind_of_go: "pbind (of_go r) f p = (case r of Inl e \<Rightarrow> (Inl (GoErr e), p) | Inr x \<Rightarrow> f x p)"
  by (simp add: pbind_def of_go_def pfail_def pret_def split: sum.splits)

lemma get_channels_ok:
  "get_channels cid us = Inr chs \<longleftrightarrow>
    length chs = length us \<and> (\<forall>i < length us. GetChannel cid (us ! i) = Inr (chs ! i))"
proof (induction us arbitrary: chs)
  case (Cons u us)
  show ?case
  proof (cases chs)
    case Nil
    then show ?thesis by (auto split: sum.splits)
  next
    case (Cons ch chs')
    have "get_channels cid (u # us) = Inr (ch # chs') \<longleftrightarrow> GetChannel cid u = Inr ch \<and> get_channels cid us = Inr chs'"
      by (auto split: sum.splits)
    then show ?thesis
      using Cons.IH [of chs'] \<open>chs = ch # chs'\<close> by (auto simp: nth_Cons less_Suc_eq_0_disj split: nat.splits)
  qed
qed auto

lemma GetChannels_ok:
  "GetChannels cid p = (Inr chs, p') \<longleftrightarrow> p' = p \<and> get_channels cid (p_upstreams p) = Inr chs"
  by (auto simp: GetChannels_def of_go_def pret_def pfail_def split: sum.splits)

text \<open>
  All upstreams of a proxy have the same channels open. \<open>open_ids\<close> is what the dispatcher must
  keep equal over the upstreams.
\<close>

definition open_ids :: "upstream \<Rightarrow> u16 set" where
  "open_ids u = dom (channel_get u)"

definition in_step :: "upstream list \<Rightarrow> bool" where
  "in_step us \<longleftrightarrow> (\<forall>u \<in> set us. \<forall>v \<in> set us. open_ids u = open_ids v)"

lemma open_ids_put: "open_ids (channel_put cid ch u) = insert cid (open_ids u)"
  by (auto simp: open_ids_def channels.get_put split: if_splits)

lemma open_ids_del: "open_ids (channel_del cid u) = open_ids u - {cid}"
  by (auto simp: open_ids_def channels.get_del split: if_splits)

lemma open_channels_ids:
  "open_channels lib cid us w = (Inr (), us', w') \<Longrightarrow>
    map open_ids us' = map (insert cid \<circ> open_ids) us"
proof (induction us arbitrary: w us')
  case (Cons u us)
  then show ?case
    by (auto simp: open_ids_put dest!: NewChannel_ok split: prod.splits sum.splits)
qed simp

lemma close_channels_ids:
  "close_channels lib cid us w = (Inr (), us', w') \<Longrightarrow>
    map open_ids us' = map (\<lambda>u. open_ids u - {cid}) us"
proof (induction us arbitrary: w us')
  case (Cons u us)
  then show ?case
    by (auto simp: open_ids_del dest!: CloseChannel_ok split: prod.splits sum.splits)
qed simp

lemma in_step_map:
  assumes "in_step us" and "map open_ids us' = map (f \<circ> open_ids) us"
  shows "in_step us'"
proof -
  have "\<exists>u \<in> set us. open_ids u' = f (open_ids u)" if "u' \<in> set us'" for u'
  proof -
    have "open_ids u' \<in> set (map (f \<circ> open_ids) us)"
      using that assms(2) by (metis image_eqI list.set_map)
    then show ?thesis by auto
  qed
  then show ?thesis
    using assms(1) unfolding in_step_def by metis
qed

section \<open>Properties\<close>

text \<open>C15. A published message is routed to the first upstream in the order of the configuration that has a
  pattern matching the routing key, and to the first upstream when none has; the channel is the
  one the client's channel number has there.\<close>

theorem publish_routing:
  assumes "GetChannelWithIndex cid key p = (Inr (ch, i), p')"
  shows "p' = p \<and> i < length (p_upstreams p) \<and> GetChannel cid (p_upstreams p ! i) = Inr ch \<and>
    (if \<exists>u \<in> set (p_upstreams p). matches key u
     then matches key (p_upstreams p ! i) \<and> (\<forall>j < i. \<not> matches key (p_upstreams p ! j))
     else i = 0)"
proof (cases "first_match 0 key (p_upstreams p)")
  case None
  then have "\<not> (\<exists>u \<in> set (p_upstreams p). matches key u)"
    by (simp add: first_match_None)
  then show ?thesis
    using assms None
    by (auto simp: GetChannelWithIndex_def pbind_of_go pret_def split: list.splits sum.splits)
next
  case (Some j)
  from first_match_Some [OF this] have j: "j < length (p_upstreams p)" "matches key (p_upstreams p ! j)"
    "\<forall>k < j. \<not> matches key (p_upstreams p ! k)" by auto
  moreover have "p' = p \<and> i = j \<and> GetChannel cid (p_upstreams p ! i) = Inr ch"
    using assms Some by (auto simp: GetChannelWithIndex_def pbind_of_go pret_def split: sum.splits)
  ultimately show ?thesis
    using nth_mem by fastforce
qed

definition sample_proxy :: "upstream list \<Rightarrow> lib_call list proxy" where
  "sample_proxy us = \<lparr>k_w = new_writer, k_in = [], k_tuned = \<lparr>channelMax = 1023, frameMax = 131072, heartbeat = 60\<rparr>,
     k_stats = NewProxyStats, k_metrics = NewMetrics, p_upstreams = us, p_user = ''guest'', p_password = ''guest'',
     p_VirtualHost = ''/'', p_clientProps = None, p_confirmStates = [], p_heap = [], p_listeners = [],
     p_consumers = [], p_shutdownMessage = ''Connection closed'',
     p_clientAddr = ''127.0.0.1:50000'', p_world = []\<rparr>"

definition two_upstreams :: "upstream list" where
  "two_upstreams = [sample_upstream\<lparr>us_channel := [(1, 10)]\<rparr>,
     sample_upstream\<lparr>us_name := ''secondary'', us_channel := [(1, 20)], us_keyPatterns := [''#'']\<rparr>]"

theorem publish_routing_witness:
  "\<exists>p'. GetChannelWithIndex 1 ''other'' (sample_proxy two_upstreams) = (Inr (20, 1), p') \<and>
    p' = sample_proxy two_upstreams"
proof -
  have "\<not> Match ''other'' ''logs.#''" "Match ''other'' ''#''"
    by (simp_all add: Match_def matchTokens.simps)
  then have "GetChannelWithIndex 1 ''other'' (sample_proxy two_upstreams) = (Inr (20, 1), sample_proxy two_upstreams)"
    by (simp add: GetChannelWithIndex_def sample_proxy_def two_upstreams_def sample_upstream_def matches_def
        pbind_of_go GetChannel_def pret_def)
  from publish_routing [OF this] this show ?thesis by simp
qed

text \<open>The proxy's other routing function, \<^verbatim>\<open>GetChannel\<close>, does not agree with the documented rule
  that the first match wins: when several upstreams match, it takes the last.\<close>

theorem GetChannel_takes_last:
  assumes "p_upstreams p = us @ [u]" and "matches key u"
  shows "Proxy_GetChannel cid key p = of_go (GetChannel cid u) p"
proof -
  have "last_match key (us @ [u]) = Some u"
    using assms(2) by (simp add: last_match_def)
  then show ?thesis
    using assms(1) by (simp add: Proxy_GetChannel_def)
qed

theorem GetChannel_takes_last_witness:
  "Proxy_GetChannel 1 ''logs.app'' (sample_proxy two_upstreams) = (Inr 20, sample_proxy two_upstreams) \<and>
   GetChannelWithIndex 1 ''logs.app'' (sample_proxy two_upstreams) = (Inr (10, 0), sample_proxy two_upstreams)"
proof -
  let ?u = "sample_upstream\<lparr>us_name := ''secondary'', us_channel := [(1, 20)], us_keyPatterns := [''#'']\<rparr>"
  have m: "Match ''logs.app'' ''#''" "Match ''logs.app'' ''logs.#''"
    by (simp_all add: Match_def matchTokens.simps)
  have "matches ''logs.app'' ?u" using m by (simp add: matches_def)
  then have "Proxy_GetChannel 1 ''logs.app'' (sample_proxy two_upstreams) =
      of_go (GetChannel 1 ?u) (sample_proxy two_upstreams)"
    by (intro GetChannel_takes_last [of _ "[sample_upstream\<lparr>us_channel := [(1, 10)]\<rparr>]"])
      (simp_all add: sample_proxy_def two_upstreams_def)
  moreover have "GetChannelWithIndex 1 ''logs.app'' (sample_proxy two_upstreams) =
      (Inr (10, 0), sample_proxy two_upstreams)"
    using m by (simp add: GetChannelWithIndex_def sample_proxy_def two_upstreams_def sample_upstream_def matches_def
        pbind_of_go GetChannel_def pret_def)
  ultimately show ?thesis
    by (simp add: of_go_def GetChannel_def pret_def)
qed

end
