(* ===== verification/Proxy_Methods.thy ===== *)
theory Proxy_Methods
  imports Proxy
begin

text \<open>
  The handlers of \<^verbatim>\<open>src/methods.go\<close> and \<^verbatim>\<open>src/confirm.go\<close>, one definition per
  method the proxy supports, and the dispatcher of \<^verbatim>\<open>src/proxy.go\<close> that calls them.
\<close>

section \<open>Channels\<close>

text \<open>Wrapping of an error by \<^verbatim>\<open>fmt.Errorf\<close>: the result is no \<^verbatim>\<open>AMQPError\<close>.\<close>

definition perr_text :: "perr \<Rightarrow> string" where
  "perr_text e = (case e of AMQPErr code text \<Rightarrow> show_nat (unat code) @ '': '' @ text
     | GoErr text \<Rightarrow> text | Panic text \<Rightarrow> text | Diverges \<Rightarrow> [])"

definition wrap_err :: "string \<Rightarrow> perr \<Rightarrow> perr" where
  "wrap_err what e = (case e of Panic t \<Rightarrow> Panic t | Diverges \<Rightarrow> Diverges | _ \<Rightarrow> GoErr (what @ '': '' @ perr_text e))"

definition pwrap :: "(perr \<Rightarrow> perr) \<Rightarrow> ('w, 'a) pm \<Rightarrow> ('w, 'a) pm" where
  "pwrap f m p = (case m p of (Inl e, p') \<Rightarrow> (Inl (f e), p') | (Inr x, p') \<Rightarrow> (Inr x, p'))"

text \<open>A failure of \<^verbatim>\<open>send\<close> reported as an internal error.\<close>

definition as_internal :: "string \<Rightarrow> perr \<Rightarrow> perr" where
  "as_internal what e = (case e of Panic t \<Rightarrow> Panic t | Diverges \<Rightarrow> Diverges
     | _ \<Rightarrow> AMQPErr InternalError (what @ '': '' @ perr_text e))"

definition replyChannelOpen :: "'w rabbitmq \<Rightarrow> u16 \<Rightarrow> ('w, unit) pm" where
  "replyChannelOpen lib cid =
     pbind (pwrap (wrap_err ''failed to create channel'') (Proxy_NewChannel lib cid)) (\<lambda>_.
     pwrap (wrap_err ''failed to write Channel.Open-Ok'') (send cid (ChannelOpenOk [])))"

definition replyChannelClose :: "'w rabbitmq \<Rightarrow> u16 \<Rightarrow> ('w, unit) pm" where
  "replyChannelClose lib cid p =
     pbind (Proxy_CloseChannel lib cid) (\<lambda>_. send cid ChannelCloseOk) (deleteConfirmState cid p)"

definition replyConnectionClose :: "('w, unit) pm" where
  "replyConnectionClose = send 0 ConnectionCloseOk"

section \<open>Queues and exchanges\<close>

text \<open>The part of \<^verbatim>\<open>replyQueueDeclare\<close> that works on one upstream.\<close>

definition declare_on :: "'w rabbitmq \<Rightarrow> declare_msg \<Rightarrow> nat \<Rightarrow> nat \<Rightarrow> ('w, rmq_queue) pm" where
  "declare_on lib m i ch p =
     (if length (p_upstreams p) \<le> i then (Inl (Panic ''index out of range''), p)
      else let us = p_upstreams p ! i in
        case QueueDeclareWithTryPassive lib ch m us (p_world p) of
          (Inl e, us', w) \<Rightarrow>
            (Inl (GoErr (''failed to declare queue on upstream '' @ us_name us @ '': '' @ e)),
             p\<lparr>p_upstreams := (p_upstreams p)[i := us'], p_world := w\<rparr>)
        | (Inr q, us', w) \<Rightarrow> (Inr q, p\<lparr>p_upstreams := (p_upstreams p)[i := us'], p_world := w\<rparr>))"

definition cleanup_on :: "nat \<Rightarrow> string \<Rightarrow> 'w proxy \<Rightarrow> 'w proxy" where
  "cleanup_on i name p =
     p\<lparr>p_upstreams := (p_upstreams p)[i := CleanupAutoGeneratedQueue name (p_upstreams p ! i)]\<rparr>"

fun declare_loop :: "'w rabbitmq \<Rightarrow> declare_msg \<Rightarrow> nat \<Rightarrow> nat list \<Rightarrow> int \<times> int \<times> string \<Rightarrow>
    ('w, int \<times> int \<times> string) pm" where
  "declare_loop lib m i [] acc = pret acc"
| "declare_loop lib m i (ch # chs) (messages, consumers, queueName) =
     pbind (declare_on lib m i ch) (\<lambda>q p.
       let messages = messages + rq_Messages q; consumers = consumers + rq_Consumers q in
       if queueName = [] then declare_loop lib m (Suc i) chs (messages, consumers, rq_Name q) (cleanup_on i (rq_Name q) p)
       else if queueName \<noteq> rq_Name q then (Inl (AMQPErr InternalError ''queue name mismatch''), p)
       else declare_loop lib m (Suc i) chs (messages, consumers, queueName) (cleanup_on i (rq_Name q) p))"

text \<open>A client that names no queue gets a generated name.\<close>

definition name_queue :: "'w runtime \<Rightarrow> declare_msg \<Rightarrow> ('w, declare_msg) pm" where
  "name_queue rt m p =
     (if dm_Queue m = [] then
        (case generateID rt (p_world p) of (i, w) \<Rightarrow>
           (Inr (m\<lparr>dm_Queue := AutoGenerateQueueNamePrefix @ i\<rparr>), p\<lparr>p_world := w\<rparr>))
      else (Inr m, p))"

definition replyQueueDeclare :: "'w rabbitmq \<Rightarrow> 'w runtime \<Rightarrow> u16 \<Rightarrow> declare_msg \<Rightarrow> ('w, unit) pm" where
  "replyQueueDeclare lib rt cid m =
     pbind (GetChannels cid) (\<lambda>chs.
     pbind (name_queue rt m) (\<lambda>m.
     pbind (declare_loop lib m 0 chs (0, 0, [])) (\<lambda>(messages, consumers, queueName).
     send cid (QueueDeclareOk queueName (word_of_int messages) (word_of_int consumers)))))"

text \<open>The handlers that make one call on the channel of every upstream and then answer.\<close>

definition call_on :: "string \<Rightarrow> (nat \<Rightarrow> 'w \<Rightarrow> (rmq_error + 'a) \<times> 'w) \<Rightarrow> nat \<Rightarrow> nat \<Rightarrow> ('w, unit) pm" where
  "call_on what op i ch p =
     pbind (call (op ch) (upstream_failed what (Upstream_name i p))) (\<lambda>_. pret ()) p"

definition broadcast :: "u16 \<Rightarrow> string \<Rightarrow> (nat \<Rightarrow> 'w \<Rightarrow> (rmq_error + 'a) \<times> 'w) \<Rightarrow> message \<Rightarrow> ('w, unit) pm" where
  "broadcast cid what op reply =
     pbind (GetChannels cid) (\<lambda>chs. pbind (for_each 0 chs (call_on what op)) (\<lambda>_. send cid reply))"

definition replyQueueDelete :: "'w rabbitmq \<Rightarrow> u16 \<Rightarrow> string \<Rightarrow> bool \<Rightarrow> bool \<Rightarrow> bool \<Rightarrow> ('w, unit) pm" where
  "replyQueueDelete lib cid Queue IfUnused IfEmpty NoWait =
     broadcast cid ''failed to delete queue'' (\<lambda>ch. lib_QueueDelete lib ch Queue IfUnused IfEmpty NoWait)
       (QueueDeleteOk 0)"

definition replyQueueBind :: "'w rabbitmq \<Rightarrow> u16 \<Rightarrow> string \<Rightarrow> string \<Rightarrow> string \<Rightarrow> bool \<Rightarrow> gotable \<Rightarrow> ('w, unit) pm" where
  "replyQueueBind lib cid Queue Exchange RoutingKey NoWait Arguments =
     broadcast cid ''failed to bind queue'' (\<lambda>ch. lib_QueueBind lib ch Queue RoutingKey Exchange NoWait Arguments)
       QueueBindOk"

definition replyQueuePurge :: "'w rabbitmq \<Rightarrow> u16 \<Rightarrow> string \<Rightarrow> ('w, unit) pm" where
  "replyQueuePurge lib cid Queue =
     broadcast cid ''failed to purge queue'' (\<lambda>ch. lib_QueuePurge lib ch Queue True) (QueuePurgeOk 0)"

definition replyBasicQos :: "'w rabbitmq \<Rightarrow> u16 \<Rightarrow> u32 \<Rightarrow> u16 \<Rightarrow> bool \<Rightarrow> ('w, unit) pm" where
  "replyBasicQos lib cid PrefetchSize PrefetchCount Global =
     broadcast cid ''failed to set QoS'' (\<lambda>ch. lib_Qos lib ch (uint PrefetchCount) (uint PrefetchSize) Global)
       BasicQosOk"

definition replyBasicCancel :: "'w rabbitmq \<Rightarrow> u16 \<Rightarrow> string \<Rightarrow> ('w, unit) pm" where
  "replyBasicCancel lib cid ConsumerTag =
     broadcast cid ''failed to cancel consumer'' (\<lambda>ch. lib_Cancel lib ch ConsumerTag False)
       (BasicCancelOk ConsumerTag)"

definition replyExchangeDeclare :: "'w rabbitmq \<Rightarrow> u16 \<Rightarrow> string \<Rightarrow> string \<Rightarrow> bool \<Rightarrow> bool \<Rightarrow> gotable \<Rightarrow> ('w, unit) pm" where
  "replyExchangeDeclare lib cid Exchange Kind Durable AutoDelete Arguments =
     broadcast cid ''failed to declare exchange''
       (\<lambda>ch. lib_ExchangeDeclare lib ch Exchange Kind Durable AutoDelete False False Arguments) ExchangeDeclareOk"

text \<open>\<^verbatim>\<open>replyQueueUnbind\<close> looks up each channel just before it uses it.\<close>

definition channel_of :: "u16 \<Rightarrow> upstream \<Rightarrow> ('w, nat) pm" where
  "channel_of cid u = (case GetChannel cid u of
     Inl e \<Rightarrow> pfail (GoErr (''failed to get channel on upstream '' @ us_name u @ '': '' @ e))
   | Inr ch \<Rightarrow> pret ch)"

definition replyQueueUnbind :: "'w rabbitmq \<Rightarrow> u16 \<Rightarrow> string \<Rightarrow> string \<Rightarrow> string \<Rightarrow> gotable \<Rightarrow> ('w, unit) pm" where
  "replyQueueUnbind lib cid Queue Exchange RoutingKey Arguments p =
     pbind (for_each 0 (p_upstreams p) (\<lambda>i u.
        pbind (channel_of cid u) (\<lambda>ch.
        call (lib_QueueUnbind lib ch Queue RoutingKey Exchange Arguments)
          (upstream_failed ''failed to unbind queue'' (us_name u))))) (\<lambda>_.
     send cid QueueUnbindOk) p"

section \<open>Publishing\<close>

definition publishing_of :: "properties \<Rightarrow> bytes \<Rightarrow> rmq_publishing" where
  "publishing_of props body = \<lparr>pb_Headers = Headers props, pb_ContentType = ContentType props,
     pb_ContentEncoding = ContentEncoding props, pb_DeliveryMode = DeliveryMode props, pb_Priority = 0,
     pb_CorrelationId = CorrelationId props, pb_ReplyTo = ReplyTo props, pb_Expiration = Expiration props,
     pb_MessageId = MessageId props, pb_Timestamp = Timestamp props, pb_Type = Type props,
     pb_UserId = UserId props, pb_AppId = AppId props, pb_Body = body\<rparr>"

definition record_publish :: "'w rabbitmq \<Rightarrow> u16 \<Rightarrow> nat \<Rightarrow> nat \<Rightarrow> 'w proxy \<Rightarrow> 'w proxy" where
  "record_publish lib cid ch upstreamIndex p =
     (case getConfirmState p cid of
        None \<Rightarrow> p
      | Some cs \<Rightarrow>
          p\<lparr>p_heap := (p_heap p)[cs := snd (RecordPublish upstreamIndex (lib_GetNextPublishSeqNo lib ch (p_world p))
              (p_heap p ! cs))]\<rparr>)"

definition replyBasicPublish :: "'w rabbitmq \<Rightarrow> u16 \<Rightarrow> string \<Rightarrow> string \<Rightarrow> bool \<Rightarrow> bool \<Rightarrow> properties \<Rightarrow> bytes \<Rightarrow>
    ('w, unit) pm" where
  "replyBasicPublish lib cid Exchange RoutingKey Mandatory Immediate props body =
     pbind (GetChannelWithIndex cid RoutingKey) (\<lambda>(ch, upstreamIndex) p.
       call (lib_Publish lib ch Exchange RoutingKey Mandatory Immediate (publishing_of props body))
         (\<lambda>e. AMQPErr InternalError (''failed to publish message: '' @ rmq_text e))
         (record_publish lib cid ch upstreamIndex p))"

text \<open>Confirm mode on one upstream, and the goroutine that listens to its confirmations.\<close>

definition confirm_on :: "'w rabbitmq \<Rightarrow> u16 \<Rightarrow> nat \<Rightarrow> nat \<Rightarrow> nat \<Rightarrow> ('w, unit) pm" where
  "confirm_on lib cid cs i ch =
     pbind (call_on ''failed to enable confirm mode'' (\<lambda>ch. lib_Confirm lib ch False) i ch) (\<lambda>_ p.
       (Inr (), p\<lparr>p_listeners := p_listeners p @ [\<lparr>l_channelID = cid, l_upstreamIndex = i, l_cs = cs\<rparr>]\<rparr>))"

definition replyConfirmSelect :: "'w rabbitmq \<Rightarrow> u16 \<Rightarrow> bool \<Rightarrow> ('w, unit) pm" where
  "replyConfirmSelect lib cid Nowait =
     pbind (GetChannels cid) (\<lambda>chs p.
       pbind (for_each 0 chs (confirm_on lib cid (length (p_heap p)))) (\<lambda>_ p'.
         (if Nowait then pret () else send cid ConfirmSelectOk) (setConfirmState cid (length (p_heap p)) p'))
       (p\<lparr>p_heap := p_heap p @ [newConfirmState]\<rparr>))"

text \<open>
  One turn of \<^verbatim>\<open>listenConfirm\<close>: a confirmation of the upstream for the listener. The flag of
  the result says whether the goroutine goes on.
\<close>

definition listenConfirm_step :: "listener \<Rightarrow> u64 \<Rightarrow> bool \<Rightarrow> 'w proxy \<Rightarrow> bool \<times> 'w proxy" where
  "listenConfirm_step l tag ack p =
     (case LookupClientTag (l_upstreamIndex l) tag (p_heap p ! l_cs l) of
        (None, _) \<Rightarrow> (True, p)
      | (Some ctag, cs) \<Rightarrow>
          (case send (l_channelID l) (if ack then BasicAck ctag False else BasicNack ctag False False)
             (p\<lparr>p_heap := (p_heap p)[l_cs l := cs]\<rparr>) of
             (Inl e, p') \<Rightarrow> (False, p')
           | (Inr _, p') \<Rightarrow> (True, p')))"

section \<open>Consuming\<close>

definition deliveryToProps :: "rmq_delivery \<Rightarrow> properties" where
  "deliveryToProps msg = \<lparr>ContentType = rd_ContentType msg, ContentEncoding = rd_ContentEncoding msg,
     Headers = rd_Headers msg, DeliveryMode = rd_DeliveryMode msg, Priority = rd_Priority msg,
     CorrelationId = rd_CorrelationId msg, ReplyTo = rd_ReplyTo msg, Expiration = rd_Expiration msg,
     MessageId = rd_MessageId msg, Timestamp = rd_Timestamp msg, Type = rd_Type msg,
     UserId = rd_UserId msg, AppId = rd_AppId msg, Reserved1 = []\<rparr>"

fun consume_loop :: "'w rabbitmq \<Rightarrow> u16 \<Rightarrow> string \<Rightarrow> string \<Rightarrow> bool \<Rightarrow> bool \<Rightarrow> bool \<Rightarrow> bool \<Rightarrow> gotable \<Rightarrow>
    nat \<Rightarrow> upstream list \<Rightarrow> consumer list \<Rightarrow> ('w, consumer list) pm" where
  "consume_loop lib cid Queue ConsumerTag NoLocal NoAck Exclusive NoWait Arguments i [] acc = pret acc"
| "consume_loop lib cid Queue ConsumerTag NoLocal NoAck Exclusive NoWait Arguments i (u # us) acc =
     pbind (channel_of cid u) (\<lambda>ch.
     pbind (call (lib_Consume lib ch Queue ConsumerTag NoAck Exclusive NoLocal NoWait Arguments)
              (upstream_failed ''failed to consume'' (us_name u))) (\<lambda>dch p.
     consume_loop lib cid Queue ConsumerTag NoLocal NoAck Exclusive NoWait Arguments (Suc i) us
       (acc @ [\<lparr>co_channelID = cid, co_queue = Queue, co_tag = ConsumerTag, co_ch = dch,
         co_delivery = newDelivery i (length (p_upstreams p)) (us_name u)\<rparr>]) p))"

definition replyBasicConsume :: "'w rabbitmq \<Rightarrow> u16 \<Rightarrow> string \<Rightarrow> string \<Rightarrow> bool \<Rightarrow> bool \<Rightarrow> bool \<Rightarrow> bool \<Rightarrow> gotable \<Rightarrow>
    ('w, unit) pm" where
  "replyBasicConsume lib cid Queue ConsumerTag NoLocal NoAck Exclusive NoWait Arguments p =
     pbind (consume_loop lib cid Queue ConsumerTag NoLocal NoAck Exclusive NoWait Arguments 0 (p_upstreams p) [])
       (\<lambda>cs. pbind (pwrap (as_internal ''failed to send Basic.ConsumeOk'') (send cid (BasicConsumeOk ConsumerTag)))
       (\<lambda>_ p. (Inr (), p\<lparr>p_consumers := p_consumers p @ cs\<rparr>))) p"

text \<open>
  One turn of \<^verbatim>\<open>consume\<close>: a delivery of the upstream for the consumer. An error of
  \<^verbatim>\<open>send\<close> ends the goroutine, a panic leaves it.
\<close>

definition consume_step :: "consumer \<Rightarrow> rmq_delivery \<Rightarrow> ('w, bool) pm" where
  "consume_step c msg p =
     (case send (co_channelID c) (BasicDeliver (co_tag c) (Tag (co_delivery c) (rd_DeliveryTag msg))
        (rd_Redelivered msg) (rd_Exchange msg) (rd_RoutingKey msg) (deliveryToProps msg) (rd_Body msg)) p of
        (Inl e, p') \<Rightarrow> (case e of Panic t \<Rightarrow> Inl (Panic t) | Diverges \<Rightarrow> Inl Diverges | _ \<Rightarrow> Inr False, p')
      | (Inr _, p') \<Rightarrow> (Inr True, p'))"

text \<open>The answer to a message found; an error of \<^verbatim>\<open>send\<close> is ignored there, a panic is not.\<close>

definition get_reply :: "u16 \<Rightarrow> nat \<Rightarrow> upstream \<Rightarrow> rmq_delivery \<Rightarrow> ('w, bool) pm" where
  "get_reply cid idx us msg p =
     (case send cid (BasicGetOk (Tag (newDelivery idx (length (p_upstreams p)) (us_name us)) (rd_DeliveryTag msg))
        (rd_Redelivered msg) (rd_Exchange msg) (rd_RoutingKey msg) (rd_MessageCount msg)
        (deliveryToProps msg) (rd_Body msg)) p of
        (Inl e, p') \<Rightarrow> (case e of Panic t \<Rightarrow> Inl (Panic t) | Diverges \<Rightarrow> Inl Diverges | _ \<Rightarrow> Inr True, p')
      | (Inr _, p') \<Rightarrow> (Inr True, p'))"

definition get_from :: "'w rabbitmq \<Rightarrow> u16 \<Rightarrow> string \<Rightarrow> bool \<Rightarrow> nat \<Rightarrow> upstream \<Rightarrow> ('w, bool) pm" where
  "get_from lib cid Queue NoAck idx us =
     pbind (channel_of cid us) (\<lambda>ch.
     pbind (call (lib_Get lib ch Queue NoAck) (upstream_failed ''failed to get message'' (us_name us))) (\<lambda>got.
     case got of None \<Rightarrow> pret False | Some msg \<Rightarrow> get_reply cid idx us msg))"

text \<open>The loop over the upstreams in random order; the result says whether a message was found.\<close>

primrec get_loop :: "'w rabbitmq \<Rightarrow> u16 \<Rightarrow> string \<Rightarrow> bool \<Rightarrow> nat list \<Rightarrow> ('w, bool) pm" where
  "get_loop lib cid Queue NoAck [] = pret False"
| "get_loop lib cid Queue NoAck (idx # indices) = (\<lambda>p.
     if length (p_upstreams p) \<le> idx then (Inl (Panic ''index out of range''), p)
     else pbind (get_from lib cid Queue NoAck idx (p_upstreams p ! idx)) (\<lambda>got.
       if got then pret True else get_loop lib cid Queue NoAck indices) p)"

definition replyBasicGet :: "'w rabbitmq \<Rightarrow> 'w runtime \<Rightarrow> u16 \<Rightarrow> string \<Rightarrow> bool \<Rightarrow> ('w, unit) pm" where
  "replyBasicGet lib rt cid Queue NoAck p =
     (case rt_Perm rt (length (p_upstreams p)) (p_world p) of (indices, w) \<Rightarrow>
        pbind (get_loop lib cid Queue NoAck indices) (\<lambda>got.
          if got then pret ()
          else pwrap (as_internal ''failed to send Basic.GetEmpty'') (send cid (BasicGetEmpty [])))
        (p\<lparr>p_world := w\<rparr>))"

definition replyBasicAck :: "'w rabbitmq \<Rightarrow> u16 \<Rightarrow> u64 \<Rightarrow> bool \<Rightarrow> ('w, unit) pm" where
  "replyBasicAck lib cid DeliveryTag Multiple =
     pbind (GetChannelByDeliveryTag cid DeliveryTag) (\<lambda>(ch, tag).
       call (lib_Ack lib ch tag Multiple) (\<lambda>e. GoErr (rmq_text e)))"

definition replyBasicNack :: "'w rabbitmq \<Rightarrow> u16 \<Rightarrow> u64 \<Rightarrow> bool \<Rightarrow> bool \<Rightarrow> ('w, unit) pm" where
  "replyBasicNack lib cid DeliveryTag Multiple Requeue =
     pbind (GetChannelByDeliveryTag cid DeliveryTag) (\<lambda>(ch, tag).
       call (lib_Nack lib ch tag Multiple Requeue) (\<lambda>e. GoErr (rmq_text e)))"

section \<open>Dispatch\<close>

definition dispatch_method :: "'w rabbitmq \<Rightarrow> 'w runtime \<Rightarrow> u16 \<Rightarrow> message \<Rightarrow> ('w, unit) pm" where
  "dispatch_method lib rt cid m =
     (case m of
        ChannelOpen _ \<Rightarrow> replyChannelOpen lib cid
      | ChannelClose _ _ _ _ \<Rightarrow> replyChannelClose lib cid
      | QueueDeclare _ Queue _ Durable Exclusive AutoDelete _ Arguments \<Rightarrow>
          replyQueueDeclare lib rt cid \<lparr>dm_Queue = Queue, dm_Durable = Durable, dm_Exclusive = Exclusive,
            dm_AutoDelete = AutoDelete, dm_Arguments = Arguments\<rparr>
      | QueueDelete _ Queue IfUnused IfEmpty NoWait \<Rightarrow> replyQueueDelete lib cid Queue IfUnused IfEmpty NoWait
      | QueueBind _ Queue Exchange RoutingKey NoWait Arguments \<Rightarrow>
          replyQueueBind lib cid Queue Exchange RoutingKey NoWait Arguments
      | QueueUnbind _ Queue Exchange RoutingKey Arguments \<Rightarrow>
          replyQueueUnbind lib cid Queue Exchange RoutingKey Arguments
      | QueuePurge _ Queue _ \<Rightarrow> replyQueuePurge lib cid Queue
      | ExchangeDeclare _ Exchange Kind _ Durable AutoDelete _ _ Arguments \<Rightarrow>
          replyExchangeDeclare lib cid Exchange Kind Durable AutoDelete Arguments
      | BasicPublish _ Exchange RoutingKey Mandatory Immediate props body \<Rightarrow>
          replyBasicPublish lib cid Exchange RoutingKey Mandatory Immediate props body
      | BasicConsume _ Queue ConsumerTag NoLocal NoAck Exclusive NoWait Arguments \<Rightarrow>
          replyBasicConsume lib cid Queue ConsumerTag NoLocal NoAck Exclusive NoWait Arguments
      | BasicGet _ Queue NoAck \<Rightarrow> replyBasicGet lib rt cid Queue NoAck
      | BasicAck DeliveryTag Multiple \<Rightarrow> replyBasicAck lib cid DeliveryTag Multiple
      | BasicNack DeliveryTag Multiple Requeue \<Rightarrow> replyBasicNack lib cid DeliveryTag Multiple Requeue
      | BasicCancel ConsumerTag _ \<Rightarrow> replyBasicCancel lib cid ConsumerTag
      | BasicQos PrefetchSize PrefetchCount Global \<Rightarrow> replyBasicQos lib cid PrefetchSize PrefetchCount Global
      | ConfirmSelect Nowait \<Rightarrow> replyConfirmSelect lib cid Nowait
      | _ \<Rightarrow> (\<lambda>p.
          (Inl (AMQPErr NotImplemented (''unsupported method: '' @ TypeName m)),
           p\<lparr>k_metrics := (k_metrics p)\<lparr>ErroredMessages :=
             on_label (TypeName m) Counter_Inc (ErroredMessages (k_metrics p))\<rparr>\<rparr>)))"

definition count_method :: "string \<Rightarrow> 'w proxy \<Rightarrow> 'w proxy" where
  "count_method methodName p =
     p\<lparr>k_metrics := (k_metrics p)\<lparr>ProcessedMessages :=
         on_label methodName Counter_Inc (ProcessedMessages (k_metrics p))\<rparr>,
       k_stats := IncrementMethod methodName (k_stats p)\<rparr>"

definition recv_frames_err :: "perr \<Rightarrow> perr" where
  "recv_frames_err e = (case e of Panic t \<Rightarrow> Panic t | Diverges \<Rightarrow> Diverges
     | _ \<Rightarrow> AMQPErr FrameError (''failed to read frames: '' @ perr_text e))"

definition dispatchN :: "'w rabbitmq \<Rightarrow> 'w runtime \<Rightarrow> frame \<Rightarrow> ('w, unit) pm" where
  "dispatchN lib rt f =
     (case f of
        MethodFrame channel _ _ msg \<Rightarrow>
          (case msg of
             None \<Rightarrow> pfail (Panic ''nil method'')
           | Some m \<Rightarrow>
               pbind (if GetContent m = None then pret m else pwrap recv_frames_err (recv channel m)) (\<lambda>m p.
                 dispatch_method lib rt channel m (count_method (TypeName m) p)))
      | HeartbeatFrame _ \<Rightarrow> pret ()
      | _ \<Rightarrow> pfail (GoErr ''unsupported frame''))"

definition dispatch0 :: "frame \<Rightarrow> ('w, unit) pm" where
  "dispatch0 f =
     (case f of
        MethodFrame _ _ _ msg \<Rightarrow>
          (case msg of
             Some (ConnectionClose _ _ _ _) \<Rightarrow> replyConnectionClose
           | _ \<Rightarrow> pfail (GoErr (''unsupported method: '' @ go_type msg)))
      | HeartbeatFrame _ \<Rightarrow> pret ()
      | _ \<Rightarrow> pfail (GoErr ''unsupported frame''))"

text \<open>\<^verbatim>\<open>AMQPMessage\<close> of \<^verbatim>\<open>Error\<close>.\<close>

definition AMQPMessage :: "u16 \<Rightarrow> string \<Rightarrow> message" where
  "AMQPMessage code message = ConnectionClose code message 0 0"

definition count_received :: "'w proxy \<Rightarrow> 'w proxy" where
  "count_received p = p\<lparr>k_stats := IncrementReceivedFrames (k_stats p),
     k_metrics := (k_metrics p)\<lparr>ClientReceivedFrames := Counter_Inc (ClientReceivedFrames (k_metrics p))\<rparr>\<rparr>"

definition process :: "'w rabbitmq \<Rightarrow> 'w runtime \<Rightarrow> ('w, unit) pm" where
  "process lib rt p =
     (case k_in p of
        [] \<Rightarrow> (Inl (GoErr ''failed to read frame: EOF''), p)
      | Inl ReadTimeout # ins \<Rightarrow> (Inr (), p\<lparr>k_in := ins\<rparr>)
      | Inl (ReadErr e) # ins \<Rightarrow>
          (Inl (if e = PanicMakeslice then Panic ''makeslice: len out of range''
                else GoErr (''failed to read frame: '' @ read_error_text e)), p\<lparr>k_in := ins\<rparr>)
      | Inr f # ins \<Rightarrow>
          (case (if fr_channel f = 0 then dispatch0 f else dispatchN lib rt f) (count_received (p\<lparr>k_in := ins\<rparr>)) of
             (Inl (AMQPErr code message), p') \<Rightarrow> send (fr_channel f) (AMQPMessage code message) p'
           | (res, p') \<Rightarrow> (res, p')))"

section \<open>What the handlers leave alone\<close>

text \<open>
  An observation of the proxy that does not depend on the world, the writer, the counters of messages,
  the confirm states or the goroutines, and of the upstreams only on their channels. The handlers that
  neither open nor close a channel do not change it.
\<close>

definition keeps :: "('w proxy \<Rightarrow> 'b) \<Rightarrow> ('w, 'a) pm \<Rightarrow> bool" where
  "keeps g m \<longleftrightarrow> (\<forall>p. g (snd (m p)) = g p)"

lemma keepsD: "keeps g m \<Longrightarrow> m p = (r, p') \<Longrightarrow> g p' = g p"
  by (metis keeps_def snd_conv)

lemma keeps_snd: "keeps g m \<Longrightarrow> g (snd (m p)) = g p"
  by (simp add: keeps_def)

lemma keeps_pret: "keeps g (pret x)"
  by (simp add: keeps_def pret_def)

lemma keeps_pfail: "keeps g (pfail e)"
  by (simp add: keeps_def pfail_def)

lemma keeps_pbind: "keeps g m \<Longrightarrow> (\<And>x. keeps g (f x)) \<Longrightarrow> keeps g (pbind m f)"
  unfolding keeps_def pbind_def
  by (auto split: prod.splits sum.splits) (metis snd_conv)+

lemma keeps_pwrap: "keeps g m \<Longrightarrow> keeps g (pwrap h m)"
  unfolding keeps_def pwrap_def by (auto split: prod.splits sum.splits) (metis snd_conv)+

lemma keeps_for_each: "(\<And>i x. keeps g (f i x)) \<Longrightarrow> keeps g (for_each i xs f)"
  by (induction xs arbitrary: i) (auto intro: keeps_pret keeps_pbind)

lemma keeps_of_go: "keeps g (of_go r)"
  by (simp add: of_go_def keeps_pret keeps_pfail split: sum.splits)

lemma keeps_GetChannels: "keeps g (GetChannels cid)"
  using keeps_of_go unfolding keeps_def GetChannels_def by metis

lemma keeps_channel_of: "keeps g (channel_of cid u)"
  by (simp add: channel_of_def keeps_pret keeps_pfail split: sum.splits)

lemma keeps_GetChannelWithIndex: "keeps g (GetChannelWithIndex cid key)"
proof -
  have "keeps g (pbind (of_go r) (\<lambda>ch. pret (ch, i)))" for r and i :: nat
    by (intro keeps_pbind keeps_of_go keeps_pret)
  then show ?thesis
    unfolding keeps_def GetChannelWithIndex_def
    by (auto split: option.split list.split)
qed

lemma keeps_GetChannelByDeliveryTag: "keeps g (GetChannelByDeliveryTag cid tag)"
  unfolding GetChannelByDeliveryTag_def
  by (intro keeps_pbind keeps_GetChannels) (simp add: keeps_def split: option.splits prod.splits)

lemmas keep_intros = keeps_pret keeps_pfail keeps_pbind keeps_pwrap keeps_for_each keeps_of_go
  keeps_GetChannels keeps_channel_of keeps_GetChannelWithIndex keeps_GetChannelByDeliveryTag

lemma keeps_case_prod: "(\<And>a b. x = (a, b) \<Longrightarrow> keeps g (f a b)) \<Longrightarrow> keeps g (case x of (a, b) \<Rightarrow> f a b)"
  by (cases x) simp

lemma send_body_keeps_of:
  fixes g :: "'w proxy \<Rightarrow> 'b"
  assumes write_with_keeps: "\<And>wr what f. keeps g (write_with wr what f)"
  shows "keeps g (send_body n ch body offset)"
proof (induction n arbitrary: offset)
  case (Suc n)
  have step: "send_body (Suc n) ch body offset p =
     (let end = min (int offset + uint (frameMax (k_tuned p)) - 8) (int (length body)) in
      if \<not> offset < length body then (Inr (), p)
      else if end < int offset then (Inl (Panic ''slice bounds out of range''), p)
      else pbind (write_with Writer_WriteFrame ''BodyFrame''
             (BodyFrame ch (take (nat end - offset) (drop offset body)))) (\<lambda>_. send_body n ch body (nat end)) p)"
    for p :: "'w proxy"
    by (cases "offset < length body")
      (simp_all only: send_body.simps pbind_def Let_def if_True if_False not_True_eq_False not_False_eq_True)
  have "keeps g (pbind (write_with Writer_WriteFrame what f) (\<lambda>_. send_body n ch body e))" for what f e
    using Suc by (intro keeps_pbind write_with_keeps)
  then show ?case
    unfolding keeps_def step by (simp add: Let_def)
qed (simp add: keeps_def)

lemma send_keeps_of:
  fixes g :: "'w proxy \<Rightarrow> 'b"
  assumes write_with_keeps: "\<And>wr what f. keeps g (write_with wr what f)"
  shows "keeps g (send ch m)"
proof -
  have step: "send ch m =
     (case GetContent m of
        Some (props, body) \<Rightarrow>
          pbind (write_with Writer_WriteFrameNoFlush ''MethodFrame'' (MethodFrame ch 0 0 (Some m))) (\<lambda>_.
          pbind (write_with Writer_WriteFrameNoFlush ''HeaderFrame''
                  (HeaderFrame ch (fst (message_ID m)) 0 (word_of_nat (length body)) props)) (\<lambda>_.
          send_body (length body + 1) ch body 0))
      | None \<Rightarrow> write_with Writer_WriteFrame ''MethodFrame'' (MethodFrame ch 0 0 (Some m)))"
    by (rule ext) (auto simp: send_def pbind_def split: option.splits prod.splits sum.splits)
  show ?thesis
    unfolding step
    by (auto split: option.splits intro!: keeps_pbind write_with_keeps send_body_keeps_of)
qed

locale observer =
  fixes g :: "'w proxy \<Rightarrow> 'b"
  assumes g_io: "g (p\<lparr>k_w := w\<rparr>) = g p" "g (p\<lparr>k_stats := s\<rparr>) = g p"
      "ClientConnections mx = ClientConnections (k_metrics p) \<Longrightarrow> g (p\<lparr>k_metrics := mx\<rparr>) = g p"
    and g_state: "g (p\<lparr>p_world := wd\<rparr>) = g p" "g (p\<lparr>p_heap := h\<rparr>) = g p" "g (p\<lparr>p_listeners := ls\<rparr>) = g p"
      "g (p\<lparr>p_consumers := cs\<rparr>) = g p" "g (p\<lparr>p_confirmStates := cfs\<rparr>) = g p"
    and g_upstreams: "map us_channel us = map us_channel (p_upstreams p) \<Longrightarrow> g (p\<lparr>p_upstreams := us\<rparr>) = g p"
begin

lemma call_keeps: "keeps g (call op err)"
  by (auto simp: keeps_def call_def g_state split: prod.splits sum.splits)

lemma write_with_keeps: "keeps g (write_with wr what f)"
proof -
  have "g (count_sent p) = g p" for p
    by (simp add: count_sent_def g_io)
  then show ?thesis
    by (auto simp: keeps_def write_with_def g_io split: prod.splits bool.splits)
qed

lemma send_keeps: "keeps g (send ch m)"
  by (intro send_keeps_of write_with_keeps)

lemmas io = call_keeps send_keeps

lemma call_on_keeps: "keeps g (call_on what op i ch)"
proof -
  have "keeps g (pbind (call (op ch) err) (\<lambda>_. pret ()))" for err
    by (intro keeps_pbind call_keeps keeps_pret)
  then show ?thesis
    by (simp add: keeps_def call_on_def)
qed

lemma broadcast_keeps: "keeps g (broadcast cid what op reply)"
  unfolding broadcast_def by (intro keep_intros io call_on_keeps)

lemma declare_on_keeps: "keeps g (declare_on lib m i ch)"
proof -
  have ch: "us_channel u' = us_channel u" if "QueueDeclareWithTryPassive lib ch m u w = (r, u', w')" for u w r u' w'
    using that
    by (auto simp: QueueDeclareWithTryPassive_def Let_def RegisterEmulatedAutoDeleteQueue_def
        split: prod.splits sum.splits if_splits option.splits rmq_error.splits)
  show ?thesis
    unfolding keeps_def declare_on_def
  proof
    fix p
    show "g (snd (if length (p_upstreams p) \<le> i then (Inl (Panic ''index out of range''), p)
      else let us = p_upstreams p ! i in
        case QueueDeclareWithTryPassive lib ch m us (p_world p) of
          (Inl e, us', w) \<Rightarrow>
            (Inl (GoErr (''failed to declare queue on upstream '' @ us_name us @ '': '' @ e)),
             p\<lparr>p_upstreams := (p_upstreams p)[i := us'], p_world := w\<rparr>)
        | (Inr q, us', w) \<Rightarrow> (Inr q, p\<lparr>p_upstreams := (p_upstreams p)[i := us'], p_world := w\<rparr>))) = g p"
      using ch [of "p_upstreams p ! i" "p_world p"]
      by (cases "QueueDeclareWithTryPassive lib ch m (p_upstreams p ! i) (p_world p)")
        (auto simp: Let_def g_state g_upstreams map_update list_update_same_conv split: sum.splits)
  qed
qed

lemma cleanup_on_keeps: "g (cleanup_on i name p) = g p"
proof -
  have "map us_channel ((p_upstreams p)[i := CleanupAutoGeneratedQueue name (p_upstreams p ! i)]) =
      map us_channel (p_upstreams p)"
    by (cases "i < length (p_upstreams p)")
      (simp_all add: map_update CleanupAutoGeneratedQueue_def list_update_same_conv list_update_beyond)
  then show ?thesis by (simp add: cleanup_on_def g_upstreams)
qed

lemma declare_loop_keeps: "keeps g (declare_loop lib m i chs acc)"
proof (induction chs arbitrary: i acc)
  case (Cons ch chs)
  obtain a b c where acc: "acc = (a, b, c)" by (cases acc)
  show ?case
    unfolding acc declare_loop.simps
    by (intro keeps_pbind declare_on_keeps)
      (use Cons in \<open>auto simp: keeps_def Let_def cleanup_on_keeps\<close>)
qed (auto intro: keep_intros)

lemma queue_handlers:
  "keeps g (replyQueueDeclare lib rt cid dm)" "keeps g (replyQueueDelete lib cid q iu ie nw)"
  "keeps g (replyQueueBind lib cid q ex rk nw args)" "keeps g (replyQueuePurge lib cid q)"
  "keeps g (replyQueueUnbind lib cid q ex rk args)" "keeps g (replyExchangeDeclare lib cid ex kd du ad args)"
proof -
  have "keeps g (name_queue rt dm)"
    by (auto simp: keeps_def name_queue_def g_state split: prod.splits)
  then show "keeps g (replyQueueDeclare lib rt cid dm)"
    unfolding replyQueueDeclare_def
    by (intro keep_intros declare_loop_keeps) (auto intro: io)
  have "keeps g (pbind (for_each 0 us (\<lambda>i u.
        pbind (channel_of cid u) (\<lambda>ch.
        call (lib_QueueUnbind lib ch q rk ex args)
          (upstream_failed ''failed to unbind queue'' (us_name u))))) (\<lambda>_.
     send cid QueueUnbindOk))" for us
    by (intro keep_intros io)
  then show "keeps g (replyQueueUnbind lib cid q ex rk args)"
    unfolding keeps_def replyQueueUnbind_def by metis
qed (simp_all add: replyQueueDelete_def replyQueueBind_def replyQueuePurge_def replyExchangeDeclare_def broadcast_keeps)

lemma publish_handlers:
  "keeps g (replyBasicPublish lib cid ex rk mand imm props body)" "keeps g (replyConfirmSelect lib cid nw)"
proof -
  have r: "g (record_publish lib cid ch i p) = g p" for ch i p
    by (simp add: record_publish_def g_state split: option.splits)
  have "keeps g (\<lambda>p. call op err (record_publish lib cid ch i p))"
    for op :: "'w \<Rightarrow> (rmq_error + unit) \<times> 'w" and err ch i
    using call_keeps [of op err] r unfolding keeps_def by metis
  then show "keeps g (replyBasicPublish lib cid ex rk mand imm props body)"
    unfolding replyBasicPublish_def
    by (intro keeps_pbind keeps_GetChannelWithIndex) (auto split: prod.splits)
  have s: "keeps g (\<lambda>p. (if nw then pret () else send cid ConfirmSelectOk) (setConfirmState cid cs p))" for cs
    using send_keeps [of cid ConfirmSelectOk] unfolding keeps_def
    by (simp add: pret_def setConfirmState_def g_state)
  have l: "keeps g (confirm_on lib cid cs i ch)" for cs i ch
    unfolding confirm_on_def by (intro keeps_pbind call_on_keeps) (simp add: keeps_def g_state)
  have "keeps g (pbind (for_each 0 chs (confirm_on lib cid cs)) (\<lambda>_ p'.
         (if nw then pret () else send cid ConfirmSelectOk) (setConfirmState cid cs p')))" for chs cs
    by (intro keep_intros l s)
  then have "keeps g (\<lambda>p. pbind (for_each 0 chs (confirm_on lib cid (length (p_heap p)))) (\<lambda>_ p'.
         (if nw then pret () else send cid ConfirmSelectOk) (setConfirmState cid (length (p_heap p)) p'))
       (p\<lparr>p_heap := p_heap p @ [newConfirmState]\<rparr>))" for chs
    unfolding keeps_def by (metis g_state(2))
  then show "keeps g (replyConfirmSelect lib cid nw)"
    unfolding replyConfirmSelect_def by (intro keeps_pbind keeps_GetChannels)
qed

lemma consume_loop_keeps: "keeps g (consume_loop lib cid q tag nl na ex nw args i us acc)"
proof (induction us arbitrary: i acc)
  case (Cons u us)
  show ?case
    unfolding consume_loop.simps
    by (intro keeps_pbind keeps_channel_of io) (use Cons in \<open>simp add: keeps_def\<close>)
qed (auto intro: keep_intros)

lemma get_reply_keeps: "keeps g (get_reply cid idx us msg)"
  using send_keeps unfolding keeps_def get_reply_def
  by (auto split: prod.splits sum.splits) (metis snd_conv)+

lemma get_loop_keeps: "keeps g (get_loop lib cid q na ixs)"
proof (induction ixs)
  case (Cons idx ixs)
  have "keeps g (get_from lib cid q na idx us)" for us
    unfolding get_from_def by (intro keep_intros io) (simp add: get_reply_keeps keeps_pret split: option.splits)
  then have "keeps g (pbind (get_from lib cid q na idx us) (\<lambda>got.
       if got then pret True else get_loop lib cid q na ixs))" for us
    using Cons by (intro keeps_pbind) (auto intro: keep_intros)
  then show ?case
    unfolding keeps_def by simp
qed (auto intro: keep_intros)

lemma consume_handlers:
  "keeps g (replyBasicConsume lib cid q tag nl na ex nw args)" "keeps g (replyBasicGet lib rt cid q na)"
  "keeps g (replyBasicAck lib cid t mu)" "keeps g (replyBasicNack lib cid t mu rq)"
  "keeps g (replyBasicCancel lib cid tag)" "keeps g (replyBasicQos lib cid ps pc gl)"
proof -
  have "keeps g (pbind (consume_loop lib cid q tag nl na ex nw args 0 us [])
       (\<lambda>cs. pbind (pwrap (as_internal ''failed to send Basic.ConsumeOk'') (send cid (BasicConsumeOk tag)))
       (\<lambda>_ p. (Inr (), p\<lparr>p_consumers := p_consumers p @ cs\<rparr>))))" for us
    by (intro keep_intros consume_loop_keeps io) (simp add: keeps_def g_state)
  then show "keeps g (replyBasicConsume lib cid q tag nl na ex nw args)"
    unfolding keeps_def replyBasicConsume_def by metis
  have "keeps g (pbind (get_loop lib cid q na ixs) (\<lambda>got.
          if got then pret ()
          else pwrap (as_internal ''failed to send Basic.GetEmpty'') (send cid (BasicGetEmpty []))))" for ixs
    by (intro keeps_pbind get_loop_keeps) (auto intro: keep_intros io)
  then show "keeps g (replyBasicGet lib rt cid q na)"
    unfolding keeps_def replyBasicGet_def by (simp add: g_state split: prod.splits)
qed (auto simp: replyBasicAck_def replyBasicNack_def replyBasicCancel_def replyBasicQos_def broadcast_keeps
    intro!: keep_intros io split: prod.splits)

end

interpretation input: observer k_in
  by unfold_locales simp_all

interpretation chans: observer "\<lambda>p. map us_channel (p_upstreams p)"
  by unfold_locales simp_all

section \<open>Dispatching\<close>

lemma on_upstreams_input: "keeps k_in (on_upstreams f)"
  by (auto simp: keeps_def on_upstreams_def of_go_def pret_def pfail_def split: prod.splits sum.splits)

lemma channel_handlers_input:
  "keeps k_in (replyChannelOpen lib cid)" "keeps k_in (replyChannelClose lib cid)"
proof -
  show "keeps k_in (replyChannelOpen lib cid)"
    unfolding replyChannelOpen_def Proxy_NewChannel_def
    by (intro keep_intros on_upstreams_input input.io)
  have "keeps k_in (pbind (Proxy_CloseChannel lib cid) (\<lambda>_. send cid ChannelCloseOk))"
    unfolding Proxy_CloseChannel_def by (intro keep_intros on_upstreams_input input.io)
  then show "keeps k_in (replyChannelClose lib cid)"
    unfolding keeps_def replyChannelClose_def deleteConfirmState_def by simp
qed

lemmas input_handlers = input.queue_handlers input.publish_handlers input.consume_handlers channel_handlers_input

lemma dispatch_method_input: "keeps k_in (dispatch_method lib rt cid m)"
  by (cases m) (simp_all add: dispatch_method_def input_handlers, simp_all add: keeps_def)

lemma dispatch_method_chans:
  "\<nexists>r. m = ChannelOpen r \<Longrightarrow> \<nexists>a b c d. m = ChannelClose a b c d \<Longrightarrow>
    keeps (\<lambda>p. map us_channel (p_upstreams p)) (dispatch_method lib rt cid m)"
  by (cases m)
    (simp_all add: dispatch_method_def chans.queue_handlers chans.publish_handlers chans.consume_handlers,
     simp_all add: keeps_def)

lemma recv_loop_suffix:
  "recv_loop ch m h b r ins mx = (res, ins', mx') \<Longrightarrow> length ins' \<le> length ins"
proof (induction ch m h b r ins mx rule: recv_loop.induct)
  case (3 channel m header body remaining f ins mx)
  show ?case
  proof (cases "fr_channel f = channel")
    case False
    with 3 show ?thesis by (simp add: Let_def split: prod.splits)
  next
    case True
    then show ?thesis
      using 3
      by (cases f) (auto simp: Let_def le_Suc_eq split: if_splits option.splits)
  qed
qed auto

lemma dispatch0_cases:
  "dispatch0 f = replyConnectionClose \<or> (\<exists>e. dispatch0 f = pfail e) \<or> dispatch0 f = pret ()"
proof (cases f)
  case (MethodFrame ch c mid msg)
  show ?thesis
  proof (cases msg)
    case (Some m)
    then show ?thesis
      using MethodFrame by (cases m) (simp_all add: dispatch0_def, blast+)
  qed (use MethodFrame in \<open>auto simp: dispatch0_def\<close>)
qed (auto simp: dispatch0_def)

context observer
begin

lemma dispatch0_keeps: "keeps g (dispatch0 f)"
proof -
  have "dispatch0 f = (replyConnectionClose :: ('w, unit) pm) \<or> (\<exists>e. dispatch0 f = (pfail e :: ('w, unit) pm)) \<or>
      dispatch0 f = (pret () :: ('w, unit) pm)"
    by (rule dispatch0_cases)
  then show ?thesis
    using send_keeps [of 0 ConnectionCloseOk] keeps_pret [of g "()"] keeps_pfail [of g]
    by (auto simp: replyConnectionClose_def)
qed

end

section \<open>Channels stay in step\<close>

lemma in_step_cong: "map us_channel us = map us_channel us' \<Longrightarrow> in_step us \<longleftrightarrow> in_step us'"
proof -
  assume eq: "map us_channel us = map us_channel us'"
  have "open_ids ` set vs = (\<lambda>c. dom (map_of c)) ` set (map us_channel vs)" for vs
    by (simp add: image_image open_ids_def channel_get_def)
  then have "open_ids ` set us = open_ids ` set us'"
    by (simp only: eq)
  moreover have "in_step vs \<longleftrightarrow> (\<forall>a \<in> open_ids ` set vs. \<forall>b \<in> open_ids ` set vs. a = b)" for vs
    by (simp add: in_step_def)
  ultimately show ?thesis by (simp only:)
qed

lemma keeps_in_step:
  "keeps (\<lambda>p. map us_channel (p_upstreams p)) m \<Longrightarrow> m p = (r, p') \<Longrightarrow>
    in_step (p_upstreams p') \<longleftrightarrow> in_step (p_upstreams p)"
  by (metis in_step_cong keepsD)

text \<open>The results after which the connection goes on: success, or an error that is answered.\<close>

definition goes_on :: "perr + unit \<Rightarrow> bool" where
  "goes_on r \<longleftrightarrow> (case r of Inr _ \<Rightarrow> True | Inl (AMQPErr _ _) \<Rightarrow> True | _ \<Rightarrow> False)"

lemma replyChannelOpen_in_step:
  assumes "in_step (p_upstreams p)" and "replyChannelOpen lib cid p = (r, p')" and "goes_on r"
  shows "in_step (p_upstreams p')"
proof -
  obtain res us w where o: "open_channels lib cid (p_upstreams p) (p_world p) = (res, us, w)"
    by (cases "open_channels lib cid (p_upstreams p) (p_world p)")
  show ?thesis
  proof (cases res)
    case (Inl e)
    then have "r = Inl (wrap_err ''failed to create channel'' (GoErr e))"
      using assms(2) o by (auto simp: replyChannelOpen_def Proxy_NewChannel_def on_upstreams_def pbind_def pwrap_def
          of_go_def pfail_def)
    then show ?thesis
      using assms(3) by (simp add: goes_on_def wrap_err_def)
  next
    case (Inr x)
    let ?p = "p\<lparr>p_upstreams := us, p_world := w\<rparr>"
    have "in_step us"
      using in_step_map [OF assms(1), of us "insert cid"] open_channels_ids [of lib cid "p_upstreams p" "p_world p" us w] o Inr
      by simp
    moreover have "pwrap (wrap_err ''failed to write Channel.Open-Ok'') (send cid (ChannelOpenOk [])) ?p = (r, p')"
      using assms(2) o Inr
      by (simp add: replyChannelOpen_def Proxy_NewChannel_def on_upstreams_def pbind_def pwrap_def of_go_def pret_def)
    ultimately show ?thesis
      using keeps_in_step [OF keeps_pwrap [OF chans.send_keeps]] by fastforce
  qed
qed

lemma replyChannelClose_in_step:
  assumes "in_step (p_upstreams p)" and "replyChannelClose lib cid p = (r, p')" and "goes_on r"
  shows "in_step (p_upstreams p')"
proof -
  obtain res us w where o: "close_channels lib cid (p_upstreams p) (p_world p) = (res, us, w)"
    by (cases "close_channels lib cid (p_upstreams p) (p_world p)")
  show ?thesis
  proof (cases res)
    case (Inl e)
    then have "r = Inl (GoErr e)"
      using assms(2) o by (auto simp: replyChannelClose_def Proxy_CloseChannel_def on_upstreams_def pbind_def
          of_go_def pfail_def deleteConfirmState_def)
    then show ?thesis
      using assms(3) by (simp add: goes_on_def)
  next
    case (Inr x)
    let ?p = "(deleteConfirmState cid p)\<lparr>p_upstreams := us, p_world := w\<rparr>"
    have "in_step us"
      using in_step_map [OF assms(1), of us "\<lambda>s. s - {cid}"]
        close_channels_ids [of lib cid "p_upstreams p" "p_world p" us w] o Inr
      by (simp add: comp_def)
    moreover have "send cid ChannelCloseOk ?p = (r, p')"
      using assms(2) o Inr
      by (simp add: replyChannelClose_def Proxy_CloseChannel_def on_upstreams_def pbind_def of_go_def pret_def
          deleteConfirmState_def)
    ultimately show ?thesis
      using keeps_in_step [OF chans.send_keeps] by fastforce
  qed
qed

lemma dispatch_method_in_step:
  assumes "in_step (p_upstreams p)" and "dispatch_method lib rt cid m p = (r, p')" and "goes_on r"
  shows "in_step (p_upstreams p')"
proof (cases "(\<exists>x. m = ChannelOpen x) \<or> (\<exists>a b c d. m = ChannelClose a b c d)")
  case True
  then show ?thesis
    using assms replyChannelOpen_in_step replyChannelClose_in_step
    by (auto simp: dispatch_method_def)
next
  case False
  then show ?thesis
    using assms keeps_in_step [OF dispatch_method_chans] by (metis (no_types, lifting))
qed

lemma dispatchN_in_step:
  assumes "in_step (p_upstreams p)" and "dispatchN lib rt f p = (r, p')" and "goes_on r"
  shows "in_step (p_upstreams p')"
proof (cases "\<exists>ch c mid m. f = MethodFrame ch c mid (Some m)")
  case False
  then show ?thesis
    using assms by (auto simp: dispatchN_def pret_def pfail_def split: frame.splits option.splits)
next
  case True
  then obtain ch c mid m where f: "f = MethodFrame ch c mid (Some m)" by auto
  let ?get = "if GetContent m = None then pret m else pwrap recv_frames_err (recv ch m)"
  obtain x q where q: "?get p = (x, q)" by (cases "?get p")
  then have us: "p_upstreams q = p_upstreams p"
    by (auto simp: pret_def pwrap_def recv_def split: if_splits prod.splits sum.splits)
  show ?thesis
  proof (cases x)
    case (Inl e)
    then show ?thesis
      using assms us q by (auto simp: dispatchN_def f pbind_def)
  next
    case (Inr m')
    then have "dispatch_method lib rt ch m' (count_method (TypeName m') q) = (r, p')"
      using assms(2) q by (auto simp: dispatchN_def f pbind_def)
    moreover have "in_step (p_upstreams (count_method (TypeName m') q))"
      using assms(1) us by (simp add: count_method_def)
    ultimately show ?thesis
      using dispatch_method_in_step assms(3) by blast
  qed
qed

end
