(* ===== verification/Proxy_Correctness.thy ===== *)
theory Proxy_Correctness
  imports Proxy_Methods
begin

text \<open>
  Properties of the proxy as a whole: what its dispatcher keeps, where messages, acknowledgements
  and confirms go, and what the client is told.
\<close>

section \<open>Lemmas\<close>

lemma for_each_ok:
  assumes "\<And>ch w. op ch w = (Inr x, w @ [c ch])"
  shows "for_each i chs (call_on what op) p = (Inr (), p\<lparr>p_world := p_world p @ map c chs\<rparr>)"
proof (induction chs arbitrary: i p)
  case (Cons ch chs)
  have "call_on what op i ch p = (Inr (), p\<lparr>p_world := p_world p @ [c ch]\<rparr>)"
    by (simp add: call_on_def call_def pbind_def pret_def assms)
  then show ?case
    using Cons by (simp add: pbind_def)
qed (simp add: pret_def)

text \<open>The state of the world after calls that all succeed.\<close>

fun run_ops :: "('c \<Rightarrow> 'w \<Rightarrow> (rmq_error + 'a) \<times> 'w) \<Rightarrow> 'c list \<Rightarrow> 'w \<Rightarrow> 'w option" where
  "run_ops op [] w = Some w"
| "run_ops op (ch # chs) w = (case op ch w of (Inl e, w') \<Rightarrow> None | (Inr x, w') \<Rightarrow> run_ops op chs w')"

lemma for_each_fails:
  assumes "run_ops op pre (p_world p) = Some w" and "op ch w = (Inl e, w')"
  shows "for_each i (pre @ ch # post) (call_on what op) p =
    (Inl (upstream_failed what (Upstream_name (i + length pre) p) e), p\<lparr>p_world := w'\<rparr>)"
  using assms
proof (induction pre arbitrary: i p)
  case Nil
  then show ?case
    by (simp add: call_on_def call_def pbind_def)
next
  case (Cons c pre)
  then obtain x v where v: "op c (p_world p) = (Inr x, v)" "run_ops op pre v = Some w"
    by (auto split: prod.splits sum.splits)
  then have "call_on what op i c p = (Inr (), p\<lparr>p_world := v\<rparr>)"
    by (simp add: call_on_def call_def pbind_def pret_def)
  moreover have "Upstream_name j (p\<lparr>p_world := v\<rparr>) = Upstream_name j p" for j
    by (simp add: Upstream_name_def)
  ultimately show ?case
    using Cons.IH [of "p\<lparr>p_world := v\<rparr>" "Suc i"] Cons.prems(2) v(2) by (simp add: pbind_def)
qed

lemma GetChannelByDeliveryTag_Tag:
  assumes "get_channels cid (p_upstreams p) = Inr chs" and "i < length (p_upstreams p)"
    and "length (p_upstreams p) < 2 ^ 64" and "unat t * length (p_upstreams p) + i < 2 ^ 64"
  shows "GetChannelByDeliveryTag cid (Tag (newDelivery i (length (p_upstreams p)) name) t) p = (Inr (chs ! i, t), p)"
proof -
  have "restoreDeliveryTag (Tag (newDelivery i (length (p_upstreams p)) name) t) (length (p_upstreams p)) = Some (t, i)"
    using assms by (simp add: Tag_restore)
  moreover have "length chs = length (p_upstreams p)"
    using assms(1) by (simp add: get_channels_ok)
  moreover have "GetChannels cid p = (Inr chs, p)"
    using assms(1) by (simp add: GetChannels_ok)
  ultimately show ?thesis
    using assms(2) by (simp add: GetChannelByDeliveryTag_def pbind_def)
qed

lemma pbind_InrE:
  assumes "pbind m f p = (Inr y, p'')"
  obtains x p' where "m p = (Inr x, p')" and "f x p' = (Inr y, p'')"
  using assms by (auto simp: pbind_def split: prod.splits sum.splits)

lemma call_upstreams: "call op err p = (r, p') \<Longrightarrow> p_upstreams p' = p_upstreams p \<and> p_heap p' = p_heap p"
  by (auto simp: call_def split: prod.splits sum.splits)

lemma consume_loop_deliveries:
  assumes "consume_loop lib cid q tag nl na ex nw args i us acc p = (Inr cs, p')"
  shows "length cs = length acc + length us \<and> take (length acc) cs = acc \<and>
    (\<forall>k < length us. co_delivery (cs ! (length acc + k)) = newDelivery (i + k) (length (p_upstreams p)) (us_name (us ! k)) \<and>
      co_channelID (cs ! (length acc + k)) = cid)"
  using assms
proof (induction us arbitrary: i acc p)
  case Nil
  then show ?case by (simp add: pret_def)
next
  case (Cons u us)
  from Cons.prems obtain ch p1 where 1: "channel_of cid u p = (Inr ch, p1)" and
    r: "pbind (call (lib_Consume lib ch q tag na ex nl nw args) (upstream_failed ''failed to consume'' (us_name u)))
      (\<lambda>dch p. consume_loop lib cid q tag nl na ex nw args (Suc i) us
       (acc @ [\<lparr>co_channelID = cid, co_queue = q, co_tag = tag, co_ch = dch,
         co_delivery = newDelivery i (length (p_upstreams p)) (us_name u)\<rparr>]) p) p1 = (Inr cs, p')"
    unfolding consume_loop.simps by (rule pbind_InrE)
  from r obtain dch p2 where 2: "call (lib_Consume lib ch q tag na ex nl nw args)
      (upstream_failed ''failed to consume'' (us_name u)) p1 = (Inr dch, p2)" and
    3: "consume_loop lib cid q tag nl na ex nw args (Suc i) us
       (acc @ [\<lparr>co_channelID = cid, co_queue = q, co_tag = tag, co_ch = dch,
         co_delivery = newDelivery i (length (p_upstreams p2)) (us_name u)\<rparr>]) p2 = (Inr cs, p')"
    by (rule pbind_InrE)
  have "p1 = p"
    using 1 by (auto simp: channel_of_def pret_def pfail_def split: sum.splits)
  then have p2: "p_upstreams p2 = p_upstreams p"
    using call_upstreams [OF 2] by simp
  let ?c = "\<lparr>co_channelID = cid, co_queue = q, co_tag = tag, co_ch = dch,
         co_delivery = newDelivery i (length (p_upstreams p2)) (us_name u)\<rparr>"
  note ih = Cons.IH [OF 3, unfolded p2]
  then have tk: "take (Suc (length acc)) cs = acc @ [?c]" "length cs = length acc + Suc (length us)"
    by (simp_all add: p2)
  have "take (length acc) cs = take (length acc) (take (Suc (length acc)) cs)"
    "cs ! length acc = take (Suc (length acc)) cs ! length acc"
    by simp_all
  then have "take (length acc) cs = acc" "cs ! length acc = ?c"
    by (simp_all add: tk(1))
  then show ?case
    using ih tk p2 by (auto simp: less_Suc_eq_0_disj)
qed

section \<open>Properties\<close>

text \<open>Processing a frame keeps the channels of the upstreams in step or returns an error.\<close>

lemma process_in_step:
  assumes "in_step (p_upstreams p)" and "process lib rt p = (Inr (), p')"
  shows "in_step (p_upstreams p')"
proof (cases "k_in p")
  case Nil
  then show ?thesis using assms by (simp add: process_def)
next
  case (Cons a ins)
  show ?thesis
  proof (cases a)
    case (Inl e)
    then show ?thesis
      using assms Cons by (cases e) (auto simp: process_def)
  next
    case (Inr f)
    let ?p = "count_received (p\<lparr>k_in := ins\<rparr>)"
    let ?d = "if fr_channel f = 0 then dispatch0 f else dispatchN lib rt f"
    obtain r q where d: "?d ?p = (r, q)" by (cases "?d ?p")
    have step: "in_step (p_upstreams ?p)"
      using assms(1) by (simp add: count_received_def)
    have q: "goes_on r \<Longrightarrow> in_step (p_upstreams q)"
      using d step keeps_in_step [OF chans.dispatch0_keeps] dispatchN_in_step
      by (auto split: if_splits)
    show ?thesis
    proof (cases "\<exists>c t. r = Inl (AMQPErr c t)")
      case True
      then obtain c t where r: "r = Inl (AMQPErr c t)" by auto
      then have "send (fr_channel f) (AMQPMessage c t) q = (Inr (), p')"
        using assms(2) Cons Inr d by (simp add: process_def)
      then show ?thesis
        using q r keeps_in_step [OF chans.send_keeps] by (fastforce simp: goes_on_def)
    next
      case False
      then have "(r, q) = (Inr (), p')"
        using assms(2) Cons Inr d by (auto simp: process_def split: sum.splits perr.splits)
      then show ?thesis using q by (auto simp: goes_on_def)
    qed
  qed
qed

definition recording_runtime :: "lib_call list runtime" where
  "recording_runtime = \<lparr>rt_Text = (\<lambda>w. (''id'', w)), rt_Perm = (\<lambda>n w. ([0..<n], w)),
     rt_IntN = (\<lambda>n w. (0, w)), rt_pdqsort = Pair, rt_Sprint = (\<lambda>f. [])\<rparr>"

lemma dispatchN_input: "length (k_in (snd (dispatchN lib rt f p))) \<le> length (k_in p)"
proof (cases "\<exists>ch c mid m. f = MethodFrame ch c mid (Some m)")
  case False
  then show ?thesis
    by (auto simp: dispatchN_def pret_def pfail_def split: frame.splits option.splits)
next
  case True
  then obtain ch c mid m where f: "f = MethodFrame ch c mid (Some m)" by auto
  have "length (k_in (snd (pwrap recv_frames_err (recv ch m) p))) \<le> length (k_in p)"
    using recv_loop_suffix by (fastforce simp: pwrap_def recv_def split: prod.splits sum.splits)
  moreover have "k_in (snd (dispatch_method lib rt ch m' (count_method nm q))) = k_in q" for m' nm q
    by (subst keeps_snd [OF dispatch_method_input]) (simp add: count_method_def)
  ultimately show ?thesis
    by (auto simp: dispatchN_def f pbind_def pret_def split: prod.splits sum.splits)
qed

text \<open>Processing a frame always uses up input, whatever the handler and the upstreams do.\<close>

lemma process_consumes:
  "if k_in p = [] then process lib rt p = (Inl (GoErr ''failed to read frame: EOF''), p)
   else length (k_in (snd (process lib rt p))) < length (k_in p)"
proof (cases "k_in p")
  case Nil
  then show ?thesis by (simp add: process_def)
next
  case (Cons a ins)
  show ?thesis
  proof (cases a)
    case (Inl e)
    then show ?thesis using Cons by (cases e) (simp_all add: process_def)
  next
    case (Inr f)
    let ?p = "count_received (p\<lparr>k_in := ins\<rparr>)"
    let ?d = "if fr_channel f = 0 then dispatch0 f else dispatchN lib rt f"
    obtain r q where d: "?d ?p = (r, q)" by (cases "?d ?p")
    have "length (k_in (snd (dispatchN lib rt f ?p))) \<le> length (k_in ?p)"
      by (rule dispatchN_input)
    moreover have "k_in (snd (dispatch0 f ?p)) = k_in ?p"
      by (rule keeps_snd [OF input.dispatch0_keeps])
    moreover have "k_in ?p = ins" by (simp add: count_received_def)
    ultimately have q: "length (k_in q) \<le> length ins"
      using d by (auto split: if_splits)
    have s: "k_in (snd (send ch m q)) = k_in q" for ch m
      by (rule keeps_snd [OF input.send_keeps])
    have "process lib rt p = (case (r, q) of
             (Inl (AMQPErr code message), p') \<Rightarrow> send (fr_channel f) (AMQPMessage code message) p'
           | (res, p') \<Rightarrow> (res, p'))"
      using Cons Inr d by (simp add: process_def)
    then have "k_in (snd (process lib rt p)) = k_in q"
      using s by (simp split: sum.splits perr.splits)
    then show ?thesis
      using q Cons by simp
  qed
qed

text \<open>C10. An acknowledgement goes back to where the delivery came from. After a successful
  \<^verbatim>\<open>Basic.Consume\<close> there is one consumer per upstream; when the client acks or nacks the tag
  under which the consumer of upstream number \<open>i\<close> hands on the upstream's tag \<open>t\<close>, the proxy acks or
  nacks exactly \<open>t\<close> on the client's channel of upstream \<open>i\<close>.\<close>

theorem ack_reaches_origin:
  assumes "replyBasicConsume lib cid q tag nl na ex nw args p = (Inr (), p')"
    and "i < length (p_upstreams p)" and "length (p_upstreams p) < 2 ^ 64"
    and "unat t * length (p_upstreams p) + i < 2 ^ 64"
    and "get_channels cid (p_upstreams p'') = Inr chs" and "length (p_upstreams p'') = length (p_upstreams p)"
  shows "\<exists>cs. p_consumers p' = p_consumers p @ cs \<and> length cs = length (p_upstreams p) \<and>
    replyBasicAck lib cid (Tag (co_delivery (cs ! i)) t) multiple p'' =
      call (lib_Ack lib (chs ! i) t multiple) (\<lambda>e. GoErr (rmq_text e)) p'' \<and>
    replyBasicNack lib cid (Tag (co_delivery (cs ! i)) t) multiple requeue p'' =
      call (lib_Nack lib (chs ! i) t multiple requeue) (\<lambda>e. GoErr (rmq_text e)) p''"
proof -
  obtain cs p1 where 1: "consume_loop lib cid q tag nl na ex nw args 0 (p_upstreams p) [] p = (Inr cs, p1)"
    and 2: "pbind (pwrap (as_internal ''failed to send Basic.ConsumeOk'') (send cid (BasicConsumeOk tag)))
       (\<lambda>_ p. (Inr (), p\<lparr>p_consumers := p_consumers p @ cs\<rparr>)) p1 = (Inr (), p')"
    using assms(1) unfolding replyBasicConsume_def by (rule pbind_InrE)
  have cons: "keeps p_consumers (consume_loop lib cid q tag nl na ex nw args k us acc)" for k us acc
  proof (induction us arbitrary: k acc)
    case (Cons u us)
    have "keeps p_consumers (call op err)" for op :: "'a \<Rightarrow> (rmq_error + 'c) \<times> 'a" and err
      by (simp add: keeps_def call_def split: prod.splits sum.splits)
    then show ?case
      unfolding consume_loop.simps by (intro keeps_pbind keeps_channel_of) (use Cons in \<open>simp_all add: keeps_def\<close>)
  qed (simp add: keeps_pret)
  have "p_consumers p1 = p_consumers p"
    using keepsD [OF cons 1] .
  moreover obtain p2 where "pwrap (as_internal ''failed to send Basic.ConsumeOk'') (send cid (BasicConsumeOk tag)) p1 = (Inr (), p2)"
    and "p' = p2\<lparr>p_consumers := p_consumers p2 @ cs\<rparr>"
    using 2 by (auto elim!: pbind_InrE)
  moreover have "keeps p_consumers (send cid m)" for m :: message
  proof -
    have "keeps p_consumers (write_with wr what f)" for wr what f
      by (simp add: keeps_def write_with_def count_sent_def split: prod.splits bool.splits)
    then show ?thesis
      by (rule send_keeps_of)
  qed
  ultimately have "p_consumers p' = p_consumers p @ cs"
    using keepsD [OF keeps_pwrap] by fastforce
  moreover have "length cs = length (p_upstreams p)"
    "co_delivery (cs ! i) = newDelivery i (length (p_upstreams p'')) (us_name (p_upstreams p ! i))"
    using consume_loop_deliveries [OF 1] assms(2,6) by auto
  moreover have "GetChannelByDeliveryTag cid (Tag (newDelivery i (length (p_upstreams p'')) nm) t) p'' = (Inr (chs ! i, t), p'')" for nm
    using assms by (intro GetChannelByDeliveryTag_Tag) auto
  ultimately show ?thesis
    by (intro exI [of _ cs]) (simp add: replyBasicAck_def replyBasicNack_def pbind_def)
qed

lemma sample_live: "live (k_w (sample_proxy us))"
  by (simp add: live_def sample_proxy_def new_writer_def)

theorem ack_reaches_origin_witness:
  "\<exists>p' cs. replyBasicConsume recording_lib 1 ''q'' ''ctag'' False False False False None (sample_proxy two_upstreams) =
      (Inr (), p') \<and> p_consumers p' = cs \<and> length cs = 2 \<and>
    replyBasicAck recording_lib 1 (Tag (co_delivery (cs ! 1)) 5) False (sample_proxy two_upstreams) =
      (Inr (), (sample_proxy two_upstreams)\<lparr>p_world := [CallAck 20 5 False]\<rparr>)"
proof -
  let ?p = "sample_proxy two_upstreams"
  let ?cs = "[\<lparr>co_channelID = 1, co_queue = ''q'', co_tag = ''ctag'', co_ch = 0, co_delivery = newDelivery 0 2 ''primary''\<rparr>,
    \<lparr>co_channelID = 1, co_queue = ''q'', co_tag = ''ctag'', co_ch = 1, co_delivery = newDelivery 1 2 ''secondary''\<rparr>]"
  let ?q = "?p\<lparr>p_world := [CallConsume 10 ''q'' ''ctag'' False False False False None,
    CallConsume 20 ''q'' ''ctag'' False False False False None]\<rparr>"
  have "consume_loop recording_lib 1 ''q'' ''ctag'' False False False False None 0 (p_upstreams ?p) [] ?p = (Inr ?cs, ?q)"
    by (simp add: sample_proxy_def two_upstreams_def sample_upstream_def channel_of_def GetChannel_def pbind_def pret_def
        call_def recording_lib_def logged_def numeral_2_eq_2)
  moreover obtain b where "MethodFrame_Write 1 (Some (BasicConsumeOk ''ctag'')) = Inr b"
    by (simp add: MethodFrame_Write_def msg_write)
  then obtain w where "send 1 (BasicConsumeOk ''ctag'') ?q = (Inr (), sent_upd w 1 ?q)"
    using send_method_live [of ?q "BasicConsumeOk ''ctag''" 1 b] sample_live [of two_upstreams]
    by (auto simp: GetContent_def)
  ultimately have r: "replyBasicConsume recording_lib 1 ''q'' ''ctag'' False False False False None ?p =
      (Inr (), (sent_upd w 1 ?q)\<lparr>p_consumers := p_consumers (sent_upd w 1 ?q) @ ?cs\<rparr>)"
    by (simp add: replyBasicConsume_def pbind_def pwrap_def)
  have "get_channels 1 (p_upstreams ?p) = Inr [10, 20]" "length (p_upstreams ?p) = 2" "p_consumers ?p = []"
    by (simp_all add: sample_proxy_def two_upstreams_def sample_upstream_def GetChannel_def)
  with ack_reaches_origin [OF r, of 1 5 ?p "[10, 20]" False False] r show ?thesis
    by (auto simp: call_def recording_lib_def logged_def sample_proxy_def)
qed

text \<open>Methods that concern all upstreams reach every upstream, in the order of the configuration, and
  are answered once, after the last upstream; the bindings of a queue are one of them.\<close>

theorem queue_bind_reaches_all:
  assumes "get_channels cid (p_upstreams p) = Inr chs"
  shows "replyQueueBind recording_lib cid q ex rk nw args p =
    send cid QueueBindOk (p\<lparr>p_world := p_world p @ map (\<lambda>ch. CallQueueBind ch q rk ex nw args) chs\<rparr>)"
proof -
  have "lib_QueueBind recording_lib ch q rk ex nw args w = (Inr (), w @ [CallQueueBind ch q rk ex nw args])" for ch w
    by (simp add: recording_lib_def logged_def)
  then show ?thesis
    using assms for_each_ok [of "\<lambda>ch. lib_QueueBind recording_lib ch q rk ex nw args" "()"
        "\<lambda>ch. CallQueueBind ch q rk ex nw args" 0 chs "''failed to bind queue''" p]
    by (simp add: replyQueueBind_def broadcast_def pbind_def GetChannels_ok [THEN iffD2, of p p cid chs])
qed

theorem queue_bind_reaches_all_witness:
  "replyQueueBind recording_lib 1 ''q'' ''ex'' ''logs.#'' False None (sample_proxy two_upstreams) =
    send 1 QueueBindOk ((sample_proxy two_upstreams)\<lparr>p_world :=
      [CallQueueBind 10 ''q'' ''logs.#'' ''ex'' False None, CallQueueBind 20 ''q'' ''logs.#'' ''ex'' False None]\<rparr>)"
proof -
  have "get_channels 1 (p_upstreams (sample_proxy two_upstreams)) = Inr [10, 20]"
    by (simp add: sample_proxy_def two_upstreams_def sample_upstream_def GetChannel_def)
  from queue_bind_reaches_all [OF this] show ?thesis
    by (simp add: sample_proxy_def)
qed

text \<open>When a method that concerns all upstreams fails on one of them, the upstreams before it keep what
  was done, those after it are not asked, nothing is sent to the client by the handler, and the
  error names the upstream.\<close>

theorem broadcast_stops_at_failure:
  assumes "get_channels cid (p_upstreams p) = Inr (pre @ ch # post)"
    and "run_ops op pre (p_world p) = Some w" and "op ch w = (Inl e, w')"
  shows "broadcast cid what op reply p =
    (Inl (AMQPErr InternalError (what @ '' on upstream '' @ us_name (p_upstreams p ! length pre) @ '': '' @ rmq_text e)),
     p\<lparr>p_world := w'\<rparr>)"
proof -
  have "length pre < length (p_upstreams p)"
    using assms(1) get_channels_ok [of cid "p_upstreams p" "pre @ ch # post"] by simp
  moreover have "GetChannels cid p = (Inr (pre @ ch # post), p)"
    using assms(1) by (simp add: GetChannels_ok)
  ultimately show ?thesis
    using for_each_fails [OF assms(2,3), of 0 post what]
    by (simp add: broadcast_def pbind_def upstream_failed_def Upstream_name_def)
qed

theorem broadcast_stops_at_failure_witness:
  "broadcast 1 ''failed to purge queue''
     (\<lambda>ch w. if ch = 20 then (Inl (OtherError ''gone''), w) else lib_QueuePurge recording_lib ch ''q'' True w)
     (QueuePurgeOk 0) (sample_proxy two_upstreams) =
    (Inl (AMQPErr InternalError ''failed to purge queue on upstream secondary: gone''),
     (sample_proxy two_upstreams)\<lparr>p_world := [CallQueuePurge 10 ''q'' True]\<rparr>)"
proof -
  let ?op = "\<lambda>ch w. if ch = 20 then (Inl (OtherError ''gone''), w) else lib_QueuePurge recording_lib ch ''q'' True w"
  have "get_channels 1 (p_upstreams (sample_proxy two_upstreams)) = Inr ([10] @ 20 # [])"
    by (simp add: sample_proxy_def two_upstreams_def sample_upstream_def GetChannel_def)
  moreover have "run_ops ?op [10] (p_world (sample_proxy two_upstreams)) = Some [CallQueuePurge 10 ''q'' True]"
    by (simp add: sample_proxy_def recording_lib_def logged_def)
  moreover have "?op 20 [CallQueuePurge 10 ''q'' True] = (Inl (OtherError ''gone''), [CallQueuePurge 10 ''q'' True])"
    by simp
  ultimately show ?thesis
    using broadcast_stops_at_failure [of 1 "sample_proxy two_upstreams" "[10]" 20 "[]" ?op]
    by (simp add: sample_proxy_def two_upstreams_def)
qed

text \<open>C9. A message published by the client reaches the upstream it is routed to with its body and with
  all its properties but one: the library is called with the exchange, the key and the flags of the
  client and with the headers, the content type and every other property of its message, one by one,
  except that the priority is always zero. Here the frames of the message are read from the client's
  stream, split over any number of body frames; the body may be empty.\<close>

theorem publish_end_to_end:
  assumes "m = BasicPublish r ex rk mand imm props body" and "length body < 2 ^ 63" and "0 < k"
    and "k_in p = map Inr (HeaderFrame cid 60 0 (word_of_nat (length body)) props # map (BodyFrame cid) (chunks k body)) @ ins"
    and "GetChannelWithIndex cid rk p = (Inr (ch, i), p)" and "getConfirmState p cid = None"
    and "lib_Publish lib ch ex rk mand imm
      \<lparr>pb_Headers = Headers props, pb_ContentType = ContentType props, pb_ContentEncoding = ContentEncoding props,
        pb_DeliveryMode = DeliveryMode props, pb_Priority = 0, pb_CorrelationId = CorrelationId props,
        pb_ReplyTo = ReplyTo props, pb_Expiration = Expiration props, pb_MessageId = MessageId props,
        pb_Timestamp = Timestamp props, pb_Type = Type props, pb_UserId = UserId props, pb_AppId = AppId props,
        pb_Body = body\<rparr> (p_world p) = (Inr (), w)"
  shows "\<exists>p'. dispatchN lib rt (MethodFrame cid 60 40 (Some (without_content m))) p = (Inr (), p') \<and>
    p_world p' = w \<and> k_in p' = ins"
proof -
  have gc: "GetContent m = Some (props, body)"
    using assms(1) by (simp add: GetContent_def)
  obtain a b where gw: "GetContent (without_content m) = Some (a, b)"
    using assms(1) by (simp add: GetContent_def without_content_def SetContent_def)
  obtain mx where r: "recv_loop cid (without_content m) None [] 0 (k_in p) (k_metrics p) = (Inr m, ins, mx)"
    using recv_content [OF gc assms(2,3), of cid 60 ins "k_metrics p"] assms(4) by auto
  let ?q = "count_method (TypeName m) (p\<lparr>k_in := ins, k_metrics := mx\<rparr>)"
  have q: "p_upstreams ?q = p_upstreams p" "p_world ?q = p_world p" "k_in ?q = ins" "getConfirmState ?q cid = None"
    using assms(6) by (simp_all add: count_method_def getConfirmState_def)
  have "GetChannelWithIndex cid rk ?q = (Inr (ch, i), ?q)"
    using assms(5) q(1)
    by (auto simp: GetChannelWithIndex_def pbind_of_go pret_def split: option.splits list.splits sum.splits)
  then have "dispatch_method lib rt cid m ?q = (Inr (), ?q\<lparr>p_world := w\<rparr>)"
    using assms(1,7) q
    by (simp add: dispatch_method_def replyBasicPublish_def publishing_of_def pbind_def call_def record_publish_def)
  moreover have "dispatchN lib rt (MethodFrame cid 60 40 (Some (without_content m))) p = dispatch_method lib rt cid m ?q"
    using gw r by (simp add: dispatchN_def pbind_def pwrap_def recv_def)
  ultimately show ?thesis
    using q by auto
qed

definition sample_properties :: properties where
  "sample_properties = no_properties\<lparr>ContentType := ''text/plain'', DeliveryMode := 2, CorrelationId := ''c7'', Priority := 9\<rparr>"

theorem publish_end_to_end_witness:
  "\<exists>p'. dispatchN recording_lib recording_runtime
      (MethodFrame 1 60 40 (Some (without_content (BasicPublish 0 ''ex'' ''other'' False False sample_properties [1, 2, 3]))))
      ((sample_proxy two_upstreams)\<lparr>k_in := map Inr (HeaderFrame 1 60 0 (word_of_nat (length [1, 2, 3 :: u8])) sample_properties #
         map (BodyFrame 1) (chunks 2 [1, 2, 3])) @ []\<rparr>) = (Inr (), p') \<and>
    p_world p' = [CallPublish 20 ''ex'' ''other'' False False
      \<lparr>pb_Headers = None, pb_ContentType = ''text/plain'', pb_ContentEncoding = [], pb_DeliveryMode = 2, pb_Priority = 0,
        pb_CorrelationId = ''c7'', pb_ReplyTo = [], pb_Expiration = [], pb_MessageId = [], pb_Timestamp = zero_time,
        pb_Type = [], pb_UserId = [], pb_AppId = [], pb_Body = [1, 2, 3]\<rparr>]"
proof -
  let ?p = "(sample_proxy two_upstreams)\<lparr>k_in := map Inr (HeaderFrame 1 60 0 (word_of_nat (length [1, 2, 3 :: u8])) sample_properties #
         map (BodyFrame 1) (chunks 2 [1, 2, 3])) @ []\<rparr>"
  let ?pb = "\<lparr>pb_Headers = None, pb_ContentType = ''text/plain'', pb_ContentEncoding = [], pb_DeliveryMode = 2, pb_Priority = 0,
        pb_CorrelationId = ''c7'', pb_ReplyTo = [], pb_Expiration = [], pb_MessageId = [], pb_Timestamp = zero_time,
        pb_Type = [], pb_UserId = [], pb_AppId = [], pb_Body = [1, 2, 3]\<rparr>"
  have "\<not> Match ''other'' ''logs.#''" "Match ''other'' ''#''"
    by (simp_all add: Match_def matchTokens.simps)
  then have "GetChannelWithIndex 1 ''other'' ?p = (Inr (20, 1), ?p)"
    by (simp add: GetChannelWithIndex_def sample_proxy_def two_upstreams_def sample_upstream_def matches_def
        pbind_of_go GetChannel_def pret_def)
  moreover have "getConfirmState ?p 1 = None" "p_world ?p = []"
    by (simp_all add: getConfirmState_def sample_proxy_def)
  moreover have "lib_Publish recording_lib 20 ''ex'' ''other'' False False ?pb [] =
      (Inr (), [CallPublish 20 ''ex'' ''other'' False False ?pb])"
    by (simp add: recording_lib_def logged_def)
  ultimately show ?thesis
    using publish_end_to_end [of "BasicPublish 0 ''ex'' ''other'' False False sample_properties [1, 2, 3]" 0 "''ex''" "''other''"
        False False sample_properties "[1, 2, 3]" 2 ?p 1 "[]" 20 1 recording_lib "[CallPublish 20 ''ex'' ''other'' False False ?pb]"
        recording_runtime]
    by (auto simp: sample_properties_def no_properties_def)
qed

section \<open>Publisher confirms\<close>

lemma send_heap: "keeps p_heap (send cid m)"
  by (intro send_keeps_of) (auto simp: keeps_def write_with_def count_sent_def split: prod.splits bool.splits)

text \<open>A confirmation of an upstream that the state knows is answered, and the state forgets it.\<close>

lemma listenConfirm_step_known:
  assumes "cs < length (p_heap p)" and "tagMap (p_heap p ! cs) (i, seq) = Some t"
    and "l = \<lparr>l_channelID = cid, l_upstreamIndex = i, l_cs = cs\<rparr>"
  shows "\<exists>r q. send cid (if ack then BasicAck t False else BasicNack t False False)
      (p\<lparr>p_heap := (p_heap p)[cs := (p_heap p ! cs)\<lparr>tagMap := (tagMap (p_heap p ! cs))((i, seq) := None)\<rparr>]\<rparr>) = (r, q) \<and>
    listenConfirm_step l seq ack p = (\<not> isl r, q) \<and> listenConfirm_step l seq ack' q = (True, q)"
proof -
  let ?c = "(p_heap p ! cs)\<lparr>tagMap := (tagMap (p_heap p ! cs))((i, seq) := None)\<rparr>"
  let ?p = "p\<lparr>p_heap := (p_heap p)[cs := ?c]\<rparr>"
  let ?m = "if ack then BasicAck t False else BasicNack t False False"
  obtain r q where s: "send cid ?m ?p = (r, q)" by (cases "send cid ?m ?p")
  have "listenConfirm_step l seq ack p = (\<not> isl r, q)"
    using s assms by (cases r) (simp_all add: listenConfirm_step_def LookupClientTag_def)
  moreover have "p_heap q ! cs = ?c"
    using keepsD [OF send_heap s] assms(1) by simp
  then have "listenConfirm_step l seq ack' q = (True, q)"
    using assms(3) by (simp add: listenConfirm_step_def LookupClientTag_def)
  ultimately show ?thesis using s by blast
qed

text \<open>C11. In confirm mode a publish takes the next of the client's tags, whichever upstream it is routed to; when
  that upstream confirms the sequence number it gave the message, the client is sent one ack (or nack)
  with that tag on its channel, and another confirmation of the same number sends nothing.\<close>

theorem publish_confirmed_once:
  assumes "getConfirmState p cid = Some cs" and "cs < length (p_heap p)"
    and "GetChannelWithIndex cid rk p = (Inr (ch, i), p)"
    and "lib_Publish lib ch ex rk mand imm (publishing_of props body) (p_world p) = (Inr (), w)"
    and "lib_GetNextPublishSeqNo lib ch (p_world p) = seq"
    and "l = \<lparr>l_channelID = cid, l_upstreamIndex = i, l_cs = cs\<rparr>"
  shows "\<exists>p' p'' r q. replyBasicPublish lib cid ex rk mand imm props body p = (Inr (), p') \<and>
    p_heap p'' ! cs = (p_heap p' ! cs)\<lparr>tagMap := (tagMap (p_heap p' ! cs))((i, seq) := None)\<rparr> \<and>
    send cid (if ack then BasicAck (clientTag (p_heap p ! cs) + 1) False
              else BasicNack (clientTag (p_heap p ! cs) + 1) False False) p'' = (r, q) \<and>
    listenConfirm_step l seq ack p' = (\<not> isl r, q) \<and> listenConfirm_step l seq ack' q = (True, q)"
proof -
  let ?q = "p\<lparr>p_heap := (p_heap p)[cs := snd (RecordPublish i seq (p_heap p ! cs))], p_world := w\<rparr>"
  have p': "replyBasicPublish lib cid ex rk mand imm props body p = (Inr (), ?q)"
    using assms by (simp add: replyBasicPublish_def pbind_def call_def record_publish_def)
  have "cs < length (p_heap ?q)" "tagMap (p_heap ?q ! cs) (i, seq) = Some (clientTag (p_heap p ! cs) + 1)"
    using assms(2) by (simp_all add: RecordPublish_def)
  from listenConfirm_step_known [OF this assms(6), of ack ack'] obtain r q where
    "send cid (if ack then BasicAck (clientTag (p_heap p ! cs) + 1) False
        else BasicNack (clientTag (p_heap p ! cs) + 1) False False)
      (?q\<lparr>p_heap := (p_heap ?q)[cs := (p_heap ?q ! cs)\<lparr>tagMap := (tagMap (p_heap ?q ! cs))((i, seq) := None)\<rparr>]\<rparr>) = (r, q)"
    "listenConfirm_step l seq ack ?q = (\<not> isl r, q)" "listenConfirm_step l seq ack' q = (True, q)"
    by blast
  moreover have "p_heap (?q\<lparr>p_heap := (p_heap ?q)[cs := (p_heap ?q ! cs)\<lparr>tagMap :=
      (tagMap (p_heap ?q ! cs))((i, seq) := None)\<rparr>]\<rparr>) ! cs =
      (p_heap ?q ! cs)\<lparr>tagMap := (tagMap (p_heap ?q ! cs))((i, seq) := None)\<rparr>"
    using assms(2) by simp
  ultimately show ?thesis using p' by blast
qed

theorem publish_confirmed_once_witness:
  "\<exists>p' p'' r q. replyBasicPublish recording_lib 1 ''ex'' ''other'' False False no_properties [7]
      ((sample_proxy two_upstreams)\<lparr>p_heap := [newConfirmState], p_confirmStates := [(1, 0)]\<rparr>) = (Inr (), p') \<and>
    send 1 (BasicAck 1 False) p'' = (r, q) \<and>
    listenConfirm_step \<lparr>l_channelID = 1, l_upstreamIndex = 1, l_cs = 0\<rparr> 1 True p' = (\<not> isl r, q)"
proof -
  let ?p = "(sample_proxy two_upstreams)\<lparr>p_heap := [newConfirmState], p_confirmStates := [(1, 0)]\<rparr>"
  have "\<not> Match ''other'' ''logs.#''" "Match ''other'' ''#''"
    by (simp_all add: Match_def matchTokens.simps)
  then have "GetChannelWithIndex 1 ''other'' ?p = (Inr (20, 1), ?p)"
    by (simp add: GetChannelWithIndex_def sample_proxy_def two_upstreams_def sample_upstream_def matches_def
        pbind_of_go GetChannel_def pret_def)
  moreover have "getConfirmState ?p 1 = Some 0" "0 < length (p_heap ?p)"
    by (simp_all add: getConfirmState_def)
  moreover have "lib_GetNextPublishSeqNo recording_lib 20 (p_world ?p) = 1"
    by (simp add: recording_lib_def sample_proxy_def)
  moreover have "lib_Publish recording_lib 20 ''ex'' ''other'' False False (publishing_of no_properties [7]) (p_world ?p) =
      (Inr (), [CallPublish 20 ''ex'' ''other'' False False (publishing_of no_properties [7])])"
    by (simp add: recording_lib_def logged_def sample_proxy_def)
  ultimately show ?thesis
    using publish_confirmed_once [of ?p 1 0 "''other''" 20 1 recording_lib "''ex''" False False no_properties "[7]"
        "[CallPublish 20 ''ex'' ''other'' False False (publishing_of no_properties [7])]" 1
        "\<lparr>l_channelID = 1, l_upstreamIndex = 1, l_cs = 0\<rparr>" True True]
    by (auto simp: newConfirmState_def)
qed

end
