(* ===== verification/Proxy_Observers.thy ===== *)
theory Proxy_Observers
  imports Proxy_Methods
begin

text \<open>
  What a whole turn of the connection leaves alone. An observation of the proxy that depends neither
  on the input nor on the upstreams, beside what no handler touches anyway, is the same after every
  message, every frame and every turn.
\<close>

lemma recv_loop_gauge: "ClientConnections (snd (snd (recv_loop ch m h b r ins mx))) = ClientConnections mx"
proof (induction ch m h b r ins mx rule: recv_loop.induct)
  case (3 channel m header body remaining f ins mx)
  then show ?case
    by (cases f) (auto simp: Let_def split: option.splits)
qed auto

locale bystander = observer g for g :: "'w proxy \<Rightarrow> 'b" +
  assumes g_in: "g (p\<lparr>k_in := ins\<rparr>) = g p"
    and g_us: "g (p\<lparr>p_upstreams := us\<rparr>) = g p"
begin

lemma recv_keeps: "keeps g (recv ch m)"
proof -
  have "g (p\<lparr>k_in := ins, k_metrics := mx\<rparr>) = g p"
    if "recv_loop ch m None [] 0 (k_in p) (k_metrics p) = (res, ins, mx)" for p res ins mx
    using recv_loop_gauge [of ch m None "[]" 0 "k_in p" "k_metrics p"] that by (simp add: g_io g_in)
  then show ?thesis
    by (auto simp: keeps_def recv_def split: prod.splits)
qed

lemma on_upstreams_keeps: "keeps g (on_upstreams f)"
  by (auto simp: keeps_def on_upstreams_def of_go_def pret_def pfail_def g_us g_state split: prod.splits sum.splits)

lemma channel_handlers: "keeps g (replyChannelOpen lib cid)" "keeps g (replyChannelClose lib cid)"
proof -
  show "keeps g (replyChannelOpen lib cid)"
    unfolding replyChannelOpen_def Proxy_NewChannel_def by (intro keep_intros on_upstreams_keeps io)
  have "keeps g (pbind (Proxy_CloseChannel lib cid) (\<lambda>_. send cid ChannelCloseOk))"
    unfolding Proxy_CloseChannel_def by (intro keep_intros on_upstreams_keeps io)
  then show "keeps g (replyChannelClose lib cid)"
    unfolding keeps_def replyChannelClose_def deleteConfirmState_def by (simp add: g_state)
qed

lemma dispatch_method_keeps: "keeps g (dispatch_method lib rt cid m)"
  by (cases m)
    (simp_all add: dispatch_method_def queue_handlers publish_handlers consume_handlers channel_handlers,
     simp_all add: keeps_def g_io)

lemma counters_keep: "g (count_method n p) = g p" "g (count_received p) = g p"
  by (simp_all add: count_method_def count_received_def g_io)

lemma dispatchN_keeps: "keeps g (dispatchN lib rt f)"
proof -
  have m: "keeps g (\<lambda>p. dispatch_method lib rt cid m (count_method n p))" for cid m n
    using keeps_snd [OF dispatch_method_keeps] counters_keep(1) by (simp add: keeps_def)
  show ?thesis
    unfolding dispatchN_def
    by (auto split: frame.split option.split intro!: keep_intros recv_keeps m)
qed

lemma process_keeps: "keeps g (process lib rt)"
  unfolding keeps_def
proof
  fix p :: "'w proxy"
  have p: "g (count_received (p\<lparr>k_in := ins\<rparr>)) = g p" for ins
    by (simp add: counters_keep g_in)
  have s: "g (snd (send ch m q)) = g q" for ch m q
    by (rule keeps_snd [OF send_keeps])
  have d: "g q = g p" if "dispatch0 f (count_received (p\<lparr>k_in := ins\<rparr>)) = (r, q) \<or>
      dispatchN lib rt f (count_received (p\<lparr>k_in := ins\<rparr>)) = (r, q)" for f ins r q
    using that keepsD [OF dispatch0_keeps [of f]] keepsD [OF dispatchN_keeps [of lib rt f]] by (auto simp: p)
  show "g (snd (process lib rt p)) = g p"
    by (auto simp: process_def g_in s dest: d [OF disjI1] d [OF disjI2] split: list.split sum.split read_fail.split prod.split perr.split)
qed

end

interpretation gauge: bystander "\<lambda>p. ClientConnections (k_metrics p)"
  by unfold_locales simp_all

interpretation tuning: bystander k_tuned
  by unfold_locales simp_all

interpretation client: bystander "\<lambda>p. (p_shutdownMessage p, p_clientAddr p)"
  by unfold_locales simp_all

end
