(* ===== verification/Proxy_Termination.thy ===== *)
theory Proxy_Termination
  imports Proxy_Methods
begin

text \<open>
  Every handler returns. The only loop of the proxy that can go on forever is that of
  \<^verbatim>\<open>send\<close> over the body of a message, and only when the client has negotiated a frame size of
  exactly eight bytes; with any other frame size each handler, and \<^verbatim>\<open>process\<close> itself, comes
  to a result.
\<close>

definition steady :: "('w, 'a) pm \<Rightarrow> bool" where
  "steady m \<longleftrightarrow> keeps k_tuned m \<and> (\<forall>p. frameMax (k_tuned p) \<noteq> 8 \<longrightarrow> fst (m p) \<noteq> Inl Diverges)"

lemma steadyI:
  "(\<And>p. k_tuned (snd (m p)) = k_tuned p) \<Longrightarrow> (\<And>p. frameMax (k_tuned p) \<noteq> 8 \<Longrightarrow> fst (m p) \<noteq> Inl Diverges) \<Longrightarrow> steady m"
  by (simp add: steady_def keeps_def)

lemma steady_keeps: "steady m \<Longrightarrow> k_tuned (snd (m p)) = k_tuned p"
  by (simp add: steady_def keeps_def)

lemma steady_returns: "steady m \<Longrightarrow> frameMax (k_tuned p) \<noteq> 8 \<Longrightarrow> fst (m p) \<noteq> Inl Diverges"
  by (simp add: steady_def)

lemma steadyD:
  assumes "steady m" and "m p = (r, q)"
  shows "k_tuned q = k_tuned p" and "frameMax (k_tuned p) \<noteq> 8 \<Longrightarrow> r \<noteq> Inl Diverges"
  using steady_keeps [OF assms(1), of p] steady_returns [OF assms(1), of p] assms(2) by simp_all

section \<open>Combinators\<close>

lemma steady_pret: "steady (pret x)"
  by (simp add: steadyI pret_def)

lemma steady_pfail: "e \<noteq> Diverges \<Longrightarrow> steady (pfail e)"
  by (simp add: steadyI pfail_def)

lemma steady_pbind:
  assumes "steady m" and "\<And>x. steady (f x)" shows "steady (pbind m f)"
proof (rule steadyI)
  fix p
  show "k_tuned (snd (pbind m f p)) = k_tuned p"
    using keeps_snd [OF keeps_pbind] assms by (metis steady_def)
  assume p: "frameMax (k_tuned p) \<noteq> 8"
  obtain r q where q: "m p = (r, q)" by fastforce
  then have "frameMax (k_tuned q) \<noteq> 8" "r \<noteq> Inl Diverges"
    using p steady_keeps [OF assms(1), of p] steady_returns [OF assms(1) p] by auto
  then show "fst (pbind m f p) \<noteq> Inl Diverges"
    using q steady_returns [OF assms(2), of q] by (cases r) (auto simp: pbind_def)
qed

lemma steady_pwrap:
  assumes "steady m" and "\<And>e. h e = Diverges \<Longrightarrow> e = Diverges" shows "steady (pwrap h m)"
proof (rule steadyI)
  fix p
  show "k_tuned (snd (pwrap h m p)) = k_tuned p"
    using keeps_snd [OF keeps_pwrap] assms(1) by (metis steady_def)
  assume p: "frameMax (k_tuned p) \<noteq> 8"
  show "fst (pwrap h m p) \<noteq> Inl Diverges"
    using steady_returns [OF assms(1) p] assms(2) by (cases "m p"; cases "fst (m p)") (auto simp: pwrap_def)
qed

lemma steady_for_each: "(\<And>i x. steady (f i x)) \<Longrightarrow> steady (for_each i xs f)"
  by (induction xs arbitrary: i) (auto intro: steady_pret steady_pbind)

lemma steady_of_go: "steady (of_go r)"
  by (cases r) (simp_all add: of_go_def steady_pret steady_pfail)

lemma steady_at: "(\<And>q. steady (m q)) \<Longrightarrow> steady (\<lambda>p. m (h p) p)"
  by (simp add: steady_def keeps_def)

lemma steady_after: "steady m \<Longrightarrow> (\<And>p. k_tuned (h p) = k_tuned p) \<Longrightarrow> steady (\<lambda>p. m (h p))"
  by (simp add: steady_def keeps_def)

lemma wraps_diverges:
  "wrap_err what e = Diverges \<Longrightarrow> e = Diverges" "as_internal what e = Diverges \<Longrightarrow> e = Diverges"
  "recv_frames_err e = Diverges \<Longrightarrow> e = Diverges"
  by (cases e; simp add: wrap_err_def as_internal_def recv_frames_err_def)+

lemma steady_GetChannels: "steady (GetChannels cid)"
  unfolding GetChannels_def by (rule steady_at [where h = p_upstreams]) (rule steady_of_go)

lemma steady_channel_of: "steady (channel_of cid u)"
  by (simp add: channel_of_def steady_pret steady_pfail split: sum.splits)

lemma steady_call: "(\<And>e. err e \<noteq> Diverges) \<Longrightarrow> steady (call op err)"
  by (rule steadyI) (auto simp: call_def split: prod.splits sum.splits)

lemma upstream_failed_ne [simp]: "upstream_failed what us e \<noteq> Diverges"
  by (simp add: upstream_failed_def)

section \<open>Sending\<close>

lemma steady_write_with: "steady (write_with wr what f)"
  by (rule steadyI) (auto simp: write_with_def split: prod.splits bool.splits)

lemma send_body_ends:
  fixes p :: "'w proxy"
  assumes "frameMax (k_tuned p) \<noteq> 8" and "length body - offset < n" and "offset \<le> length body"
  shows "fst (send_body n ch body offset p) \<noteq> Inl Diverges"
  using assms
proof (induction n arbitrary: offset p)
  case (Suc n)
  let ?e = "min (int offset + uint (frameMax (k_tuned p)) - 8) (int (length body))"
  have "uint (frameMax (k_tuned p)) \<noteq> 8"
    using Suc.prems(1) by (metis word_of_int_numeral word_of_int_uint)
  then have adv: "offset < length body \<Longrightarrow> \<not> ?e < int offset \<Longrightarrow> offset < nat ?e \<and> nat ?e \<le> length body"
    by linarith
  show ?case
  proof (cases "offset < length body \<and> \<not> ?e < int offset")
    case True
    obtain r q where q: "write_with Writer_WriteFrame ''BodyFrame''
        (BodyFrame ch (take (nat ?e - offset) (drop offset body))) p = (r, q)" by fastforce
    have "k_tuned q = k_tuned p" "r \<noteq> Inl Diverges"
      using steady_keeps [OF steady_write_with, of _ _ _ p] steady_returns [OF steady_write_with Suc.prems(1)] q
      by (metis snd_conv, metis fst_conv)
    moreover from this have "fst (send_body n ch body (nat ?e) q) \<noteq> Inl Diverges"
      using adv True Suc.prems by (intro Suc.IH) auto
    ultimately show ?thesis
      using q True by (cases r) (simp_all add: Let_def)
  qed (use Suc.prems in \<open>auto simp: Let_def\<close>)
qed simp

lemma steady_send: "steady (send ch m)"
proof (rule steadyI)
  fix p :: "'a proxy"
  have "keeps k_tuned (send ch m :: ('a, unit) pm)"
    by (intro send_keeps_of) (rule steady_write_with [unfolded steady_def, THEN conjunct1])
  then show "k_tuned (snd (send ch m p)) = k_tuned p" by (rule keeps_snd)
  assume p: "frameMax (k_tuned p) \<noteq> 8"
  have body: "steady (\<lambda>q :: 'a proxy. if frameMax (k_tuned q) \<noteq> 8 then send_body (length b + 1) ch b 0 q else (Inr (), q))"
    (is "steady ?f") for b
  proof (rule steadyI)
    fix q :: "'a proxy"
    have "keeps k_tuned (send_body (length b + 1) ch b 0 :: ('a, unit) pm)"
      by (intro send_body_keeps_of) (rule steady_write_with [unfolded steady_def, THEN conjunct1])
    then show "k_tuned (snd (?f q)) = k_tuned q"
      by (simp add: keeps_snd del: send_body.simps)
    show "fst (?f q) \<noteq> Inl Diverges"
      using send_body_ends [of q b 0 "length b + 1"] by (simp del: send_body.simps)
  qed
  show "fst (send ch m p) \<noteq> Inl Diverges"
  proof (cases "GetContent m")
    case None
    then show ?thesis
      using steady_returns [OF steady_write_with p] by (simp add: send_def)
  next
    case (Some pb)
    obtain props b where pb: "pb = (props, b)" by (cases pb)
    let ?m = "pbind (write_with Writer_WriteFrameNoFlush ''MethodFrame'' (MethodFrame ch 0 0 (Some m))) (\<lambda>_.
      pbind (write_with Writer_WriteFrameNoFlush ''HeaderFrame''
        (HeaderFrame ch (fst (message_ID m)) 0 (word_of_nat (length b)) props))
        (\<lambda>_ q. if frameMax (k_tuned q) \<noteq> 8 then send_body (length b + 1) ch b 0 q else (Inr (), q))) :: ('a, unit) pm"
    have s: "steady ?m"
      by (intro steady_pbind steady_write_with body)
    have w: "k_tuned q = k_tuned p'" if "write_with wr what f p' = (r, q)" for wr what f r q and p' :: "'a proxy"
      using steady_keeps [OF steady_write_with, of wr what f p'] that by simp
    have "send ch m p = ?m p"
      using Some pb p by (auto simp: send_def pbind_def dest!: w split: prod.splits sum.splits)
    then show ?thesis
      using steady_returns [OF s p] by simp
  qed
qed

lemma recv_loop_returns: "fst (recv_loop ch m h b r ins mx) \<noteq> Inl Diverges"
proof (induction ch m h b r ins mx rule: recv_loop.induct)
  case (3 channel m header body remaining f ins mx)
  then show ?case
    by (cases f) (auto simp: Let_def split: option.splits)
qed auto

lemma steady_recv: "steady (recv ch m)"
  by (rule steadyI) (use recv_loop_returns in \<open>auto simp: recv_def split: prod.splits\<close>, metis fst_conv)

lemmas steady_intros = steady_pret steady_pfail steady_pbind steady_pwrap steady_for_each steady_of_go
  steady_GetChannels steady_channel_of steady_call steady_send steady_recv

section \<open>The handlers\<close>

lemma steady_on_upstreams: "steady (on_upstreams f)"
  by (intro steadyI) (auto simp: on_upstreams_def of_go_def pret_def pfail_def split: prod.splits sum.splits)

lemma steady_GetChannelWithIndex: "steady (GetChannelWithIndex cid key)"
  by (intro steadyI)
    (auto simp: GetChannelWithIndex_def pbind_of_go pret_def split: option.split list.split sum.split)

lemma steady_GetChannelByDeliveryTag: "steady (GetChannelByDeliveryTag cid tag)"
  unfolding GetChannelByDeliveryTag_def
  by (intro steady_pbind steady_GetChannels) (auto intro!: steadyI split: option.splits if_splits)

lemma steady_channels: "steady (replyChannelOpen lib cid)" "steady (replyChannelClose lib cid)"
proof -
  show "steady (replyChannelOpen lib cid)"
    unfolding replyChannelOpen_def Proxy_NewChannel_def
    by (intro steady_intros steady_on_upstreams) (auto dest: wraps_diverges)
  have "steady (\<lambda>p. pbind (Proxy_CloseChannel lib cid) (\<lambda>_. send cid ChannelCloseOk) (deleteConfirmState cid p))"
    unfolding Proxy_CloseChannel_def
    by (rule steady_after, intro steady_intros steady_on_upstreams) (simp add: deleteConfirmState_def)
  then show "steady (replyChannelClose lib cid)"
    by (simp add: replyChannelClose_def [abs_def])
qed

lemma steady_call_on: "steady (call_on what op i ch)"
proof -
  have "steady (\<lambda>p. pbind (call (op ch) (upstream_failed what (Upstream_name i p))) (\<lambda>_. pret ()) p)"
    by (rule steady_at [where h = "Upstream_name i"], intro steady_intros) simp
  then show ?thesis by (simp add: call_on_def [abs_def])
qed

lemma steady_broadcast: "steady (broadcast cid what op reply)"
  unfolding broadcast_def by (intro steady_intros steady_call_on)

lemma steady_declare_loop: "steady (declare_loop lib m i chs acc)"
proof (induction chs arbitrary: i acc)
  case (Cons ch chs)
  obtain a b c where acc: "acc = (a, b, c)" by (cases acc)
  have "steady (declare_on lib m i ch)"
    by (intro steadyI) (auto simp: declare_on_def Let_def split: prod.splits sum.splits)
  moreover have "steady (\<lambda>p. declare_loop lib m j chs acc' (cleanup_on i n p))" for j acc' n
    by (rule steady_after, rule Cons) (simp add: cleanup_on_def)
  then have "steady (\<lambda>p.
       let messages = a + rq_Messages q; consumers = b + rq_Consumers q in
       if c = [] then declare_loop lib m (Suc i) chs (messages, consumers, rq_Name q) (cleanup_on i (rq_Name q) p)
       else if c \<noteq> rq_Name q then (Inl (AMQPErr InternalError ''queue name mismatch''), p)
       else declare_loop lib m (Suc i) chs (messages, consumers, c) (cleanup_on i (rq_Name q) p))" for q
    by (cases "c = []"; cases "c = rq_Name q") (simp_all add: Let_def steadyI)
  ultimately show ?case
    unfolding acc declare_loop.simps by (intro steady_pbind)
qed (auto intro: steady_intros)

lemma steady_queues:
  "steady (replyQueueDeclare lib rt cid dm)" "steady (replyQueueDelete lib cid q iu ie nw)"
  "steady (replyQueueBind lib cid q ex rk nw args)" "steady (replyQueuePurge lib cid q)"
  "steady (replyQueueUnbind lib cid q ex rk args)" "steady (replyExchangeDeclare lib cid ex kd du ad args)"
proof -
  have "steady (name_queue rt dm)"
    by (intro steadyI) (auto simp: name_queue_def split: prod.splits)
  then show "steady (replyQueueDeclare lib rt cid dm)"
    unfolding replyQueueDeclare_def
    by (intro steady_intros steady_declare_loop) (auto intro: steady_intros)
  have "steady (\<lambda>p. pbind (for_each 0 (p_upstreams p) (\<lambda>i u.
        pbind (channel_of cid u) (\<lambda>ch.
        call (lib_QueueUnbind lib ch q rk ex args)
          (upstream_failed ''failed to unbind queue'' (us_name u))))) (\<lambda>_.
     send cid QueueUnbindOk) p)"
    by (rule steady_at [where h = p_upstreams], intro steady_intros) simp
  then show "steady (replyQueueUnbind lib cid q ex rk args)"
    by (simp add: replyQueueUnbind_def [abs_def])
qed (simp_all add: replyQueueDelete_def replyQueueBind_def replyQueuePurge_def replyExchangeDeclare_def steady_broadcast)

lemma steady_publishing:
  "steady (replyBasicPublish lib cid ex rk mand imm props body)" "steady (replyConfirmSelect lib cid nw)"
proof -
  have r: "steady (\<lambda>p. call op err (record_publish lib cid ch i p))" if "\<And>e. err e \<noteq> Diverges"
    for op :: "'a \<Rightarrow> (rmq_error + unit) \<times> 'a" and err ch i
    by (rule steady_after, rule steady_call) (simp_all add: that record_publish_def split: option.splits)
  show "steady (replyBasicPublish lib cid ex rk mand imm props body)"
    unfolding replyBasicPublish_def
    by (rule steady_pbind, rule steady_GetChannelWithIndex) (auto intro: r split: prod.splits)
  have s: "steady (\<lambda>p. (if nw then pret () else send cid ConfirmSelectOk) (setConfirmState cid cs p))" for cs
    by (rule steady_after) (simp_all add: setConfirmState_def steady_pret steady_send)
  have l: "steady (confirm_on lib cid cs i ch)" for cs i ch
    unfolding confirm_on_def by (rule steady_pbind, rule steady_call_on) (simp add: steadyI)
  have "steady (\<lambda>p. pbind (for_each 0 chs (confirm_on lib cid cs)) (\<lambda>_ p'.
         (if nw then pret () else send cid ConfirmSelectOk) (setConfirmState cid cs p'))
       (p\<lparr>p_heap := p_heap p @ [newConfirmState]\<rparr>))" for chs cs
    by (rule steady_after, intro steady_pbind steady_for_each l s) simp
  then have "steady (\<lambda>p. pbind (for_each 0 chs (confirm_on lib cid (length (p_heap p)))) (\<lambda>_ p'.
         (if nw then pret () else send cid ConfirmSelectOk) (setConfirmState cid (length (p_heap p)) p'))
       (p\<lparr>p_heap := p_heap p @ [newConfirmState]\<rparr>))" for chs
    by (simp add: steady_def keeps_def)
  then show "steady (replyConfirmSelect lib cid nw)"
    unfolding replyConfirmSelect_def by (intro steady_pbind steady_GetChannels)
qed

lemma steady_consume_loop: "steady (consume_loop lib cid q tag nl na ex nw args i us acc)"
proof (induction us arbitrary: i acc)
  case (Cons u us)
  have "steady (\<lambda>p. consume_loop lib cid q tag nl na ex nw args (Suc i) us (acc @ [f (length (p_upstreams p))]) p)" for f
    by (rule steady_at [where h = "\<lambda>p. length (p_upstreams p)"]) (rule Cons)
  then show ?case
    unfolding consume_loop.simps by (intro steady_pbind steady_channel_of steady_call) simp_all
qed (auto intro: steady_intros)

lemma steady_get_loop: "steady (get_loop lib cid q na ixs)"
proof (induction ixs)
  case (Cons idx ixs)
  have "steady (get_reply cid idx us msg)" for us msg
    by (intro steadyI) (auto simp: get_reply_def dest: steadyD [OF steady_send] split: prod.splits sum.splits perr.splits)
  then have g: "steady (get_from lib cid q na idx us)" for us
    unfolding get_from_def by (intro steady_intros) (auto intro: steady_intros split: option.splits)
  have "steady (\<lambda>p. pbind (get_from lib cid q na idx (p_upstreams p ! idx)) (\<lambda>got.
       if got then pret True else get_loop lib cid q na ixs) p)"
    by (rule steady_at [where h = "\<lambda>p. p_upstreams p ! idx"], intro steady_pbind g) (simp add: steady_pret Cons)
  then show ?case
    by (simp add: steady_def keeps_def)
qed (auto intro: steady_intros)

lemma steady_consuming:
  "steady (replyBasicConsume lib cid q tag nl na ex nw args)" "steady (replyBasicGet lib rt cid q na)"
  "steady (replyBasicAck lib cid t mul)" "steady (replyBasicNack lib cid t mul req)"
  "steady (replyBasicCancel lib cid tag)" "steady (replyBasicQos lib cid ps pc gl)"
proof -
  have c: "steady (\<lambda>p :: 'a proxy. (Inr (), p\<lparr>p_consumers := p_consumers p @ cs\<rparr>) :: (perr + unit) \<times> 'a proxy)" for cs
    by (intro steadyI) simp_all
  have "steady (\<lambda>p. pbind (consume_loop lib cid q tag nl na ex nw args 0 (p_upstreams p) [])
       (\<lambda>cs. pbind (pwrap (as_internal ''failed to send Basic.ConsumeOk'') (send cid (BasicConsumeOk tag)))
       (\<lambda>_ p. (Inr (), p\<lparr>p_consumers := p_consumers p @ cs\<rparr>))) p)"
    by (rule steady_at [where h = p_upstreams], intro steady_pbind steady_pwrap steady_consume_loop steady_send c)
      (auto dest: wraps_diverges)
  then show "steady (replyBasicConsume lib cid q tag nl na ex nw args)"
    by (simp add: replyBasicConsume_def [abs_def])
  have "steady (pbind (get_loop lib cid q na ixs) (\<lambda>got.
          if got then pret ()
          else pwrap (as_internal ''failed to send Basic.GetEmpty'') (send cid (BasicGetEmpty []))))" for ixs
    by (rule steady_pbind, rule steady_get_loop) (auto intro!: steady_intros dest: wraps_diverges)
  then show "steady (replyBasicGet lib rt cid q na)"
    by (intro steadyI) (auto simp: replyBasicGet_def steady_keeps steady_returns split: prod.splits)
qed (auto simp: replyBasicAck_def replyBasicNack_def replyBasicCancel_def replyBasicQos_def steady_broadcast
    intro!: steady_pbind steady_GetChannelByDeliveryTag steady_call)

lemmas steady_handlers = steady_channels steady_queues steady_publishing steady_consuming

lemma steady_dispatch_method: "steady (dispatch_method lib rt cid m)"
proof -
  have "steady (\<lambda>p :: 'a proxy. (Inl (AMQPErr NotImplemented t), p\<lparr>k_metrics := f p\<rparr>) :: (perr + unit) \<times> 'a proxy)" for t f
    by (intro steadyI) simp_all
  then show ?thesis
    by (cases m) (simp_all add: dispatch_method_def steady_handlers)
qed

lemma steady_dispatchN: "steady (dispatchN lib rt f)"
proof -
  have m: "steady (\<lambda>p. dispatch_method lib rt cid m (count_method n p))" for cid m n
    by (rule steady_after, rule steady_dispatch_method) (simp add: count_method_def)
  show ?thesis
    unfolding dispatchN_def
    by (auto split: frame.split option.split intro!: steady_intros m dest: wraps_diverges)
qed

lemma steady_dispatch0: "steady (dispatch0 f)"
  unfolding dispatch0_def replyConnectionClose_def
  by (auto split: frame.split option.split message.split intro!: steady_intros)

lemma steady_process: "steady (process lib rt)"
proof (rule steadyI)
  fix p :: "'a proxy"
  let ?d = "\<lambda>f. if fr_channel f = 0 then dispatch0 f else dispatchN lib rt f"
  have d: "steady (?d f)" for f
    by (simp add: steady_dispatch0 steady_dispatchN)
  have k: "k_tuned (count_received (p\<lparr>k_in := ins\<rparr>)) = k_tuned p" for ins
    by (simp add: count_received_def)
  let ?e = "\<lambda>f r. case r of (Inl (AMQPErr code message), p') \<Rightarrow> send (fr_channel f) (AMQPMessage code message) p'
    | (res, p') \<Rightarrow> (res, p')"
  have e: "k_tuned (snd (?e f (r, q))) = k_tuned q \<and>
      (frameMax (k_tuned q) \<noteq> 8 \<longrightarrow> r \<noteq> Inl Diverges \<longrightarrow> fst (?e f (r, q)) \<noteq> Inl Diverges)" for f r and q :: "'a proxy"
    by (auto split: sum.split perr.split simp: steady_keeps [OF steady_send] steady_returns [OF steady_send])
  have "k_tuned (snd (?e f (?d f q))) = k_tuned q \<and>
      (frameMax (k_tuned q) \<noteq> 8 \<longrightarrow> fst (?e f (?d f q)) \<noteq> Inl Diverges)" for f and q :: "'a proxy"
    using e [of f "fst (?d f q)" "snd (?d f q)"] steady_keeps [OF d, of f q] steady_returns [OF d, of q f]
    unfolding prod.collapse by metis
  from this [of _ "count_received (p\<lparr>k_in := _\<rparr>)"]
  show "k_tuned (snd (process lib rt p)) = k_tuned p"
    and "frameMax (k_tuned p) \<noteq> 8 \<Longrightarrow> fst (process lib rt p) \<noteq> Inl Diverges"
    by (auto simp: process_def k split: list.split sum.split read_fail.split)
qed

lemma process_returns: "frameMax (k_tuned p) \<noteq> 8 \<Longrightarrow> fst (process lib rt p) \<noteq> Inl Diverges"
  by (rule steady_returns [OF steady_process])

end
