(* ===== verification/Connect.thy ===== *)
theory Connect
  imports Proxy_Methods "HOL-Library.Multiset"
begin

text \<open>
  Connecting a proxy to its upstreams: the node selection and the dialling of
  \<^verbatim>\<open>src/proxy.go\<close>, with the part of Go's \<^verbatim>\<open>net/url\<close> and
  \<^verbatim>\<open>sort\<close> that they use.
\<close>

section \<open>Addresses as URLs\<close>

text \<open>\<^verbatim>\<open>shouldEscape\<close> and \<^verbatim>\<open>escape\<close> of \<^verbatim>\<open>net/url\<close>, in the three modes that occur.\<close>

datatype url_part = UserPart | HostPart | PathPart

definition is_alnum :: "char \<Rightarrow> bool" where
  "is_alnum c = (let n = of_char c :: nat in 48 \<le> n \<and> n \<le> 57 \<or> 65 \<le> n \<and> n \<le> 90 \<or> 97 \<le> n \<and> n \<le> 122)"

definition shouldEscape :: "url_part \<Rightarrow> char \<Rightarrow> bool" where
  "shouldEscape mode c =
     (if is_alnum c then False
      else if mode = HostPart \<and> c \<in> set (CHR 0x27 # CHR 0x22 # ''!$&()*+,;=:[]<>'') then False
      else if c \<in> set ''-_.~'' then False
      else if c \<in> set ''$&+,/:;=?@'' then
        (case mode of PathPart \<Rightarrow> c = CHR ''?'' | UserPart \<Rightarrow> c \<in> set ''@/?:'' | HostPart \<Rightarrow> True)
      else True)"

definition upperhex :: "nat \<Rightarrow> char" where
  "upperhex n = (if n < 10 then char_of (48 + n) else char_of (55 + n))"

definition escape :: "url_part \<Rightarrow> string \<Rightarrow> string" where
  "escape mode s = concat (map (\<lambda>c.
     if shouldEscape mode c then [CHR ''%'', upperhex (of_char c div 16), upperhex (of_char c mod 16)] else [c]) s)"

text \<open>\<^verbatim>\<open>URL.String\<close> of the URL that \<^verbatim>\<open>connectToUpstreamServer\<close> builds.\<close>

definition amqp_url :: "string \<Rightarrow> string \<Rightarrow> string \<Rightarrow> string \<Rightarrow> string" where
  "amqp_url user password host path =
     (let p = (if path = ''*'' then ''*'' else escape PathPart path) in
      ''amqp://'' @ escape UserPart user @ '':'' @ escape UserPart password @ ''@'' @ escape HostPart host @
      (if p \<noteq> [] \<and> hd p \<noteq> CHR ''/'' \<and> host \<noteq> [] then ''/'' else []) @ p)"

definition safeURLString :: "string \<Rightarrow> string \<Rightarrow> string \<Rightarrow> string" where
  "safeURLString user host path = amqp_url user ''********'' host path"

section \<open>Least connections\<close>

text \<open>
  The comparison of \<^verbatim>\<open>sortNodesByLeastConnections\<close> tosses a coin on equal counts.
  \<^verbatim>\<open>sort.Slice\<close> sorts up to twelve elements by insertion: \<open>sink\<close> moves one element down
  the sorted part, which it takes from its end.
\<close>

type_synonym nodeInfo = "string \<times> u64"

definition node_less :: "'w runtime \<Rightarrow> nodeInfo \<Rightarrow> nodeInfo \<Rightarrow> 'w \<Rightarrow> bool \<times> 'w" where
  "node_less rt a b w =
     (if snd a = snd b then (case rt_IntN rt 2 w of (n, w') \<Rightarrow> (n = 0, w'))
      else (sint (snd a) < sint (snd b), w))"

fun sink :: "'w runtime \<Rightarrow> nodeInfo \<Rightarrow> nodeInfo list \<Rightarrow> 'w \<Rightarrow> nodeInfo list \<times> 'w" where
  "sink rt x [] w = ([x], w)"
| "sink rt x (y # before) w =
     (case node_less rt x y w of
        (True, w') \<Rightarrow> (case sink rt x before w' of (r, w'') \<Rightarrow> (y # r, w''))
      | (False, w') \<Rightarrow> (x # y # before, w'))"

fun insertionSort :: "'w runtime \<Rightarrow> nodeInfo list \<Rightarrow> nodeInfo list \<Rightarrow> 'w \<Rightarrow> nodeInfo list \<times> 'w" where
  "insertionSort rt before [] w = (rev before, w)"
| "insertionSort rt before (x # xs) w =
     (case sink rt x before w of (before', w') \<Rightarrow> insertionSort rt before' xs w')"

definition sort_Slice :: "'w runtime \<Rightarrow> nodeInfo list \<Rightarrow> 'w \<Rightarrow> nodeInfo list \<times> 'w" where
  "sort_Slice rt xs w = (if length xs \<le> 12 then insertionSort rt [] xs w else rt_pdqsort rt xs w)"

text \<open>Asking a vector for the gauge of an address makes it exist.\<close>

definition touch_all :: "string list \<Rightarrow> Metrics \<Rightarrow> Metrics" where
  "touch_all nodes mx =
     mx\<lparr>UpstreamConnections := fold (\<lambda>addr. on_label addr (\<lambda>c. c)) nodes (UpstreamConnections mx)\<rparr>"

definition sortNodesByLeastConnections :: "'w runtime \<Rightarrow> string list \<Rightarrow> 'w proxy \<Rightarrow> string list \<times> 'w proxy" where
  "sortNodesByLeastConnections rt nodes p =
     (if length nodes \<le> 1 then (nodes, p)
      else
        let nodeInfos = map (\<lambda>addr. (addr, WithLabelValues (UpstreamConnections (k_metrics p)) addr)) nodes in
        case sort_Slice rt nodeInfos (p_world p) of
          (infos, w) \<Rightarrow> (map fst infos, p\<lparr>k_metrics := touch_all nodes (k_metrics p), p_world := w\<rparr>))"

section \<open>Dialling\<close>

definition Version :: string where "Version = ''v0.0.19''"

text \<open>\<^verbatim>\<open>%s\<close> of a value of a table.\<close>

definition fmt_s :: "'w runtime \<Rightarrow> field option \<Rightarrow> string" where
  "fmt_s rt v = (case v of None \<Rightarrow> ''%!s(<nil>)'' | Some FNil \<Rightarrow> ''%!s(<nil>)'' | Some (FString s) \<Rightarrow> s
     | Some f \<Rightarrow> rt_Sprint rt f)"

definition table_of :: "gotable \<Rightarrow> table" where
  "table_of t = (case t of None \<Rightarrow> [] | Some kvs \<Rightarrow> kvs)"

definition ClientBanner :: "'w runtime \<Rightarrow> 'w proxy \<Rightarrow> string" where
  "ClientBanner rt p =
     (case p_clientProps p of
        None \<Rightarrow> []
      | Some props \<Rightarrow> fmt_s rt (map_of props ''platform'') @ ''/'' @ fmt_s rt (map_of props ''product'') @ ''/'' @
          fmt_s rt (map_of props ''version''))"

definition upstream_props :: "'w runtime \<Rightarrow> string \<Rightarrow> gotable \<Rightarrow> table" where
  "upstream_props rt clientAddr props =
     AList.update ''product''
       (FString (fmt_s rt (map_of (table_of props) ''product'') @ '' ('' @ clientAddr @ '') via trabbits/'' @ Version))
       (table_of props)"

definition connectToUpstreamServer :: "'w rabbitmq \<Rightarrow> 'w runtime \<Rightarrow> string \<Rightarrow> gotable \<Rightarrow> ('w, nat) pm" where
  "connectToUpstreamServer lib rt addr props p =
     (case lib_Dial lib addr (p_user p) (p_password p) (p_VirtualHost p)
             (upstream_props rt (p_clientAddr p) props) (p_world p) of
        (Inl e, w) \<Rightarrow>
          (Inl (GoErr (''failed to open upstream '' @
             amqp_url (p_user p) (p_password p) addr (p_VirtualHost p) @ '' '' @ rmq_text e)),
           p\<lparr>p_world := w, k_metrics := (k_metrics p)\<lparr>UpstreamConnectionErrors :=
             on_label addr Counter_Inc (UpstreamConnectionErrors (k_metrics p))\<rparr>\<rparr>)
      | (Inr conn, w) \<Rightarrow> (Inr conn, p\<lparr>p_world := w\<rparr>))"

fun try_nodes :: "'w rabbitmq \<Rightarrow> 'w runtime \<Rightarrow> string list \<Rightarrow> gotable \<Rightarrow> 'w proxy \<Rightarrow> (nat \<times> string) option \<times> 'w proxy" where
  "try_nodes lib rt [] props p = (None, p)"
| "try_nodes lib rt (addr # addrs) props p =
     (case connectToUpstreamServer lib rt addr props p of
        (Inr conn, p') \<Rightarrow> (Some (conn, addr), p')
      | (Inl _, p') \<Rightarrow> try_nodes lib rt addrs props p')"

text \<open>\<^verbatim>\<open>%v\<close> of a slice of strings, without its brackets.\<close>

fun join_space :: "string list \<Rightarrow> string" where
  "join_space [] = []"
| "join_space [s] = s"
| "join_space (s # ss) = s @ '' '' @ join_space ss"

definition connectToUpstreamServers :: "'w rabbitmq \<Rightarrow> 'w runtime \<Rightarrow> string \<Rightarrow> string list \<Rightarrow> gotable \<Rightarrow>
    ('w, nat \<times> string) pm" where
  "connectToUpstreamServers lib rt upstreamName addrs props p =
     (case sortNodesByLeastConnections rt addrs p of
        (nodesToTry, p') \<Rightarrow>
          (case try_nodes lib rt nodesToTry props p' of
             (Some ca, p'') \<Rightarrow> (Inr ca, p'')
           | (None, p'') \<Rightarrow>
               (Inl (GoErr (''failed to connect to any upstream node in '' @ upstreamName @ '': tried ['' @
                  join_space nodesToTry @ '']'')), p'')))"

definition newUpstream :: "nat \<Rightarrow> UpstreamConfig \<Rightarrow> string \<Rightarrow> 'w proxy \<Rightarrow> 'w proxy" where
  "newUpstream conn conf address p =
     (case NewUpstream (Some conn) conf address (k_metrics p) of
        (us, mx) \<Rightarrow> p\<lparr>p_upstreams := p_upstreams p @ [us], k_metrics := mx\<rparr>)"

fun ConnectToUpstreams :: "'w rabbitmq \<Rightarrow> 'w runtime \<Rightarrow> UpstreamConfig list \<Rightarrow> gotable \<Rightarrow> ('w, unit) pm" where
  "ConnectToUpstreams lib rt [] props = pret ()"
| "ConnectToUpstreams lib rt (conf # confs) props =
     pbind (connectToUpstreamServers lib rt (uc_Name conf) (Addresses conf) props) (\<lambda>(conn, addr) p.
       ConnectToUpstreams lib rt confs props (newUpstream conn conf addr p))"

section \<open>Correctness of the selection\<close>

lemma mset_sink: "sink rt x before w = (r, w') \<Longrightarrow> mset r = add_mset x (mset before)"
  by (induction before arbitrary: r w w') (auto split: prod.splits bool.splits)

text \<open>The sorted part is kept from its end: the counts do not increase.\<close>

definition down :: "nodeInfo list \<Rightarrow> bool" where
  "down xs = sorted_wrt (\<lambda>a b. sint (snd b) \<le> sint (snd a)) xs"

lemma down_sink: "down before \<Longrightarrow> sink rt x before w = (r, w') \<Longrightarrow> down r"
proof (induction before arbitrary: r w w')
  case (Cons y before)
  obtain c w1 where l: "node_less rt x y w = (c, w1)" by (cases "node_less rt x y w")
  show ?case
  proof (cases c)
    case True
    then have le: "sint (snd x) \<le> sint (snd y)"
      using l by (auto simp: node_less_def split: prod.splits if_splits)
    obtain r' w2 where r': "sink rt x before w1 = (r', w2)" by (cases "sink rt x before w1")
    then have r: "r = y # r'" using Cons.prems(2) l True by simp
    have "set r' = insert x (set before)"
      using mset_sink [OF r'] by (metis set_mset_add_mset_insert set_mset_mset)
    moreover have "down r'"
      using Cons.IH [of w1 r' w2] Cons.prems(1) r' by (simp add: down_def)
    ultimately show ?thesis
      using Cons.prems(1) le r by (auto simp: down_def)
  next
    case False
    then have "sint (snd y) \<le> sint (snd x)"
      using l by (auto simp: node_less_def split: prod.splits if_splits)
    moreover have "r = x # y # before" using Cons.prems(2) l False by simp
    ultimately show ?thesis
      using Cons.prems(1) by (auto simp: down_def)
  qed
qed (simp add: down_def)

lemma insertionSort_sorts:
  "down before \<Longrightarrow> insertionSort rt before xs w = (r, w') \<Longrightarrow>
    mset r = mset before + mset xs \<and> sorted_wrt (\<lambda>a b. sint (snd a) \<le> sint (snd b)) r"
proof (induction xs arbitrary: before w)
  case Nil
  then show ?case by (auto simp: down_def sorted_wrt_rev)
next
  case (Cons x xs)
  obtain b' w1 where s: "sink rt x before w = (b', w1)" by (cases "sink rt x before w")
  then show ?case
    using Cons.IH [of b' w1] down_sink [OF Cons.prems(1) s] Cons.prems(2) mset_sink [OF s] by simp
qed

text \<open>Nodes are tried in the order of their connections: for a cluster of up to twelve nodes the result is a
  permutation of the configured nodes, and the number of connections the proxy server has open to a
  node never exceeds that of a later one, whatever the random choices between equal nodes.\<close>

theorem least_connections_sorted:
  assumes "length nodes \<le> 12" and "sortNodesByLeastConnections rt nodes p = (nodes', p')"
  shows "mset nodes' = mset nodes \<and>
    sorted_wrt (\<lambda>a b. sint (WithLabelValues (UpstreamConnections (k_metrics p)) a) \<le>
      sint (WithLabelValues (UpstreamConnections (k_metrics p)) b)) nodes'"
proof (cases "length nodes \<le> 1")
  case True
  then show ?thesis
    using assms(2) by (cases nodes) (auto simp: sortNodesByLeastConnections_def)
next
  case False
  let ?count = "WithLabelValues (UpstreamConnections (k_metrics p))"
  let ?infos = "map (\<lambda>addr. (addr, ?count addr)) nodes"
  obtain r w where r: "insertionSort rt [] ?infos (p_world p) = (r, w)" by fastforce
  then have n': "nodes' = map fst r"
    using assms False by (auto simp: sortNodesByLeastConnections_def sort_Slice_def)
  have srt: "mset r = mset ?infos" "sorted_wrt (\<lambda>a b. sint (snd a) \<le> sint (snd b)) r"
    using insertionSort_sorts [OF _ r] by (simp_all add: down_def)
  then have "mset nodes' = mset (map fst ?infos)"
    unfolding n' mset_map by simp
  moreover have "\<forall>x \<in> set r. snd x = ?count (fst x)"
    using mset_eq_setD [OF srt(1)] by auto
  then have "sorted_wrt (\<lambda>a b. sint (?count a) \<le> sint (?count b)) nodes'"
    unfolding n' sorted_wrt_map by (intro sorted_wrt_mono_rel [OF _ srt(2)]) metis
  ultimately show ?thesis by (simp add: comp_def)
qed

definition busy_proxy :: "lib_call list proxy" where
  "busy_proxy = (sample_proxy [])\<lparr>k_metrics := NewMetrics\<lparr>UpstreamConnections :=
     [''a:5672'' \<mapsto> 3, ''b:5672'' \<mapsto> 1]\<rparr>\<rparr>"

definition first_runtime :: "lib_call list runtime" where
  "first_runtime = \<lparr>rt_Text = (\<lambda>w. (''id'', w)), rt_Perm = (\<lambda>n w. ([0..<n], w)), rt_IntN = (\<lambda>n w. (0, w)),
     rt_pdqsort = Pair, rt_Sprint = (\<lambda>f. [])\<rparr>"

lemma busy_sort:
  "\<exists>p'. sortNodesByLeastConnections first_runtime [''a:5672'', ''b:5672'', ''c:5672''] busy_proxy =
    ([''c:5672'', ''b:5672'', ''a:5672''], p')"
  by (simp add: sortNodesByLeastConnections_def sort_Slice_def busy_proxy_def node_less_def WithLabelValues_def
      NewMetrics_def sample_proxy_def)

theorem least_connections_sorted_witness:
  "sorted_wrt (\<lambda>a b. sint (WithLabelValues (UpstreamConnections (k_metrics busy_proxy)) a) \<le>
      sint (WithLabelValues (UpstreamConnections (k_metrics busy_proxy)) b)) [''c:5672'', ''b:5672'', ''a:5672'']"
proof -
  obtain p' where "sortNodesByLeastConnections first_runtime [''a:5672'', ''b:5672'', ''c:5672''] busy_proxy =
    ([''c:5672'', ''b:5672'', ''a:5672''], p')"
    using busy_sort by blast
  from least_connections_sorted [OF _ this] show ?thesis by simp
qed

section \<open>Connecting\<close>

lemma sort_keeps_nodes:
  assumes "length nodes \<le> 12" and "sortNodesByLeastConnections rt nodes p = (nodes', p')"
  shows "set nodes' = set nodes"
proof (cases "length nodes \<le> 1")
  case True
  then show ?thesis using assms(2) by (simp add: sortNodesByLeastConnections_def)
next
  case False
  let ?infos = "map (\<lambda>addr. (addr, WithLabelValues (UpstreamConnections (k_metrics p)) addr)) nodes"
  obtain r w where r: "insertionSort rt [] ?infos (p_world p) = (r, w)" by fastforce
  then have "nodes' = map fst r"
    using assms False by (auto simp: sortNodesByLeastConnections_def sort_Slice_def)
  moreover have "set r = set ?infos"
    using insertionSort_sorts [OF _ r] mset_eq_setD [of r ?infos] by (simp add: down_def)
  ultimately show ?thesis by (simp add: image_image)
qed

text \<open>The part of the proxy that connecting does not touch.\<close>

definition same_client :: "'w proxy \<Rightarrow> 'w proxy \<Rightarrow> bool" where
  "same_client p q \<longleftrightarrow> p_user q = p_user p \<and> p_password q = p_password p \<and> p_VirtualHost q = p_VirtualHost p \<and>
     p_clientAddr q = p_clientAddr p \<and> p_upstreams q = p_upstreams p \<and>
     WithLabelValues (UpstreamConnections (k_metrics q)) = WithLabelValues (UpstreamConnections (k_metrics p))"

lemma same_client_refl [simp]: "same_client p p"
  by (simp add: same_client_def)

lemma same_client_trans: "same_client p q \<Longrightarrow> same_client q r \<Longrightarrow> same_client p r"
  by (simp add: same_client_def)

lemma WithLabelValues_touch: "WithLabelValues (fold (\<lambda>addr. on_label addr (\<lambda>c. c)) nodes v) = WithLabelValues v"
  by (induction nodes arbitrary: v) (auto simp: WithLabelValues_on_label fun_eq_iff)

lemma sort_same_client: "sortNodesByLeastConnections rt nodes p = (nodes', p') \<Longrightarrow> same_client p p'"
  by (auto simp: sortNodesByLeastConnections_def same_client_def touch_all_def WithLabelValues_touch Let_def
      split: if_splits prod.splits)

lemma connect_same_client: "connectToUpstreamServer lib rt addr props p = (r, p') \<Longrightarrow> same_client p p'"
  by (auto simp: connectToUpstreamServer_def same_client_def split: prod.splits sum.splits)

lemma try_nodes_result:
  "try_nodes lib rt nodes props p = (r, p') \<Longrightarrow>
    same_client p p' \<and> (case r of None \<Rightarrow> True | Some (conn, addr) \<Rightarrow> addr \<in> set nodes)"
proof (induction nodes arbitrary: p)
  case (Cons a nodes)
  obtain x q where x: "connectToUpstreamServer lib rt a props p = (x, q)" by fastforce
  note same_client_trans [OF connect_same_client [OF x]]
  with Cons x connect_same_client [OF x] show ?case
    by (cases x) (fastforce split: option.splits)+
qed simp

lemma connectToUpstreamServers_result:
  assumes "connectToUpstreamServers lib rt name addrs props p = (Inr (conn, addr), p')" and "length addrs \<le> 12"
  shows "same_client p p' \<and> addr \<in> set addrs"
proof -
  obtain nodes q where s: "sortNodesByLeastConnections rt addrs p = (nodes, q)" by fastforce
  then have "try_nodes lib rt nodes props q = (Some (conn, addr), p')"
    using assms(1) by (auto simp: connectToUpstreamServers_def split: prod.splits option.splits)
  from try_nodes_result [OF this] show ?thesis
    using sort_same_client [OF s] same_client_trans sort_keeps_nodes [OF assms(2) s] by auto
qed

text \<open>C37. A proxy that has connected has one upstream for each configured upstream, in the order of the
  configuration, connected to one of its nodes and without channels, and the number of connections
  counted for an address has gone up by the upstreams connected to it.\<close>

theorem ConnectToUpstreams_all:
  assumes "ConnectToUpstreams lib rt confs props p = (Inr (), p')"
    and "\<forall>conf \<in> set confs. length (Addresses conf) \<le> 12"
  shows "\<exists>us. p_upstreams p' = p_upstreams p @ us \<and>
    list_all2 (\<lambda>u conf. us_name u = uc_Name conf \<and> us_keyPatterns u = uc_KeyPatterns conf \<and>
      us_address u \<in> set (Addresses conf) \<and> us_conn u \<noteq> None \<and> us_channel u = []) us confs \<and>
    (\<forall>a. WithLabelValues (UpstreamConnections (k_metrics p')) a =
      WithLabelValues (UpstreamConnections (k_metrics p)) a + word_of_nat (length (filter (\<lambda>u. us_address u = a) us)))"
  using assms
proof (induction confs arbitrary: p)
  case Nil
  then show ?case by (simp add: pret_def)
next
  case (Cons conf confs)
  obtain conn addr q where c: "connectToUpstreamServers lib rt (uc_Name conf) (Addresses conf) props p = (Inr (conn, addr), q)"
    and r: "ConnectToUpstreams lib rt confs props (newUpstream conn conf addr q) = (Inr (), p')"
    using Cons.prems(1) by (auto simp: pbind_def split: prod.splits sum.splits)
  have q: "same_client p q" "addr \<in> set (Addresses conf)"
    using connectToUpstreamServers_result [OF c] Cons.prems(2) by auto
  let ?u = "fst (NewUpstream (Some conn) conf addr (k_metrics q))"
  have nu: "p_upstreams (newUpstream conn conf addr q) = p_upstreams p @ [?u]"
    "WithLabelValues (UpstreamConnections (k_metrics (newUpstream conn conf addr q))) a =
      WithLabelValues (UpstreamConnections (k_metrics p)) a + (if a = addr then 1 else 0)" for a
    using q(1) by (simp_all add: newUpstream_def NewUpstream_def same_client_def WithLabelValues_on_label Counter_Inc_def)
  have u: "us_name ?u = uc_Name conf" "us_keyPatterns ?u = uc_KeyPatterns conf" "us_address ?u = addr"
    "us_conn ?u \<noteq> None" "us_channel ?u = []"
    by (simp_all add: NewUpstream_def)
  from Cons.IH [OF r] obtain us where us: "p_upstreams p' = p_upstreams p @ ?u # us"
    "list_all2 (\<lambda>u conf. us_name u = uc_Name conf \<and> us_keyPatterns u = uc_KeyPatterns conf \<and>
      us_address u \<in> set (Addresses conf) \<and> us_conn u \<noteq> None \<and> us_channel u = []) us confs"
    "\<And>a. WithLabelValues (UpstreamConnections (k_metrics p')) a =
      WithLabelValues (UpstreamConnections (k_metrics p)) a + (if a = addr then 1 else 0) +
      word_of_nat (length (filter (\<lambda>u. us_address u = a) us))"
    using Cons.prems(2) by (auto simp: nu)
  show ?case
    using us u q(2) by (intro exI [of _ "?u # us"]) (auto simp: add.assoc)
qed

definition sample_conf :: UpstreamConfig where
  "sample_conf = \<lparr>uc_Name = ''primary'', uc_Address = [], uc_Cluster = Some [''a:5672'', ''b:5672''], uc_Timeout = 0,
     uc_HealthCheck = None, uc_KeyPatterns = [''logs.#''], uc_QueueAttributes = None, uc_QueueOptions = None\<rparr>"

theorem ConnectToUpstreams_all_witness:
  "\<exists>p' u. ConnectToUpstreams recording_lib first_runtime [sample_conf] None busy_proxy = (Inr (), p') \<and>
    p_upstreams p' = [u] \<and> us_name u = ''primary'' \<and> us_address u = ''b:5672'' \<and> us_channel u = []"
proof -
  obtain p' where p': "ConnectToUpstreams recording_lib first_runtime [sample_conf] None busy_proxy = (Inr (), p')"
    "map us_address (p_upstreams p') = [''b:5672'']"
    by (simp add: connectToUpstreamServers_def sortNodesByLeastConnections_def sort_Slice_def node_less_def
        WithLabelValues_def busy_proxy_def sample_proxy_def NewMetrics_def sample_conf_def Addresses_def pbind_def
        connectToUpstreamServer_def recording_lib_def logged_def newUpstream_def NewUpstream_def pret_def Let_def)
  have "\<forall>conf \<in> set [sample_conf]. length (Addresses conf) \<le> 12"
    by (simp add: sample_conf_def Addresses_def)
  from ConnectToUpstreams_all [OF p'(1) this] obtain us where us: "p_upstreams p' = us"
    "list_all2 (\<lambda>u conf. us_name u = uc_Name conf \<and> us_keyPatterns u = uc_KeyPatterns conf \<and>
      us_address u \<in> set (Addresses conf) \<and> us_conn u \<noteq> None \<and> us_channel u = []) us [sample_conf]"
    by (auto simp: busy_proxy_def sample_proxy_def)
  then obtain u where "us = [u]" "us_name u = ''primary''" "us_channel u = []"
    by (auto simp: list_all2_Cons2 sample_conf_def)
  then show ?thesis using p' us(1) by auto
qed

text \<open>A cluster is reached as long as one of its nodes is: when some node always takes the connection,
  the proxy connects to some node of the cluster, whatever happens on the others.\<close>

theorem connect_finds_reachable_node:
  assumes "length addrs \<le> 12" and "addr \<in> set addrs"
    and "\<And>props w. \<exists>conn w'. lib_Dial lib addr (p_user p) (p_password p) (p_VirtualHost p) props w = (Inr conn, w')"
  shows "\<exists>conn addr' p'. connectToUpstreamServers lib rt name addrs props p = (Inr (conn, addr'), p') \<and> addr' \<in> set addrs"
proof -
  obtain nodes q where s: "sortNodesByLeastConnections rt addrs p = (nodes, q)" by fastforce
  have "\<exists>conn addr' p'. try_nodes lib rt ns props q' = (Some (conn, addr'), p')"
    if "addr \<in> set ns" "same_client p q'" for ns q'
    using that
  proof (induction ns arbitrary: q')
    case (Cons a ns)
    obtain x r where x: "connectToUpstreamServer lib rt a props q' = (x, r)" by fastforce
    show ?case
    proof (cases x)
      case (Inl e)
      have "a \<noteq> addr"
      proof
        assume "a = addr"
        moreover obtain conn w' where "lib_Dial lib addr (p_user q') (p_password q') (p_VirtualHost q')
            (upstream_props rt (p_clientAddr q') props) (p_world q') = (Inr conn, w')"
          using assms(3) [of "upstream_props rt (p_clientAddr q') props" "p_world q'"] Cons.prems(2)
          by (auto simp: same_client_def)
        ultimately show False
          using x Inl by (simp add: connectToUpstreamServer_def)
      qed
      then show ?thesis
        using Cons same_client_trans [OF _ connect_same_client [OF x]] x Inl by simp
    qed (use x in simp)
  qed simp
  then obtain conn addr' p' where t: "try_nodes lib rt nodes props q = (Some (conn, addr'), p')"
    using assms(2) sort_keeps_nodes [OF assms(1) s] sort_same_client [OF s] by blast
  then show ?thesis
    using s sort_keeps_nodes [OF assms(1) s] try_nodes_result [OF t]
    by (simp add: connectToUpstreamServers_def)
qed

definition half_lib :: "lib_call list rabbitmq" where
  "half_lib = recording_lib\<lparr>lib_Dial := \<lambda>addr user pw vhost props w.
     if addr = ''a:5672'' then lib_Dial recording_lib addr user pw vhost props w
     else (Inl (OtherError ''connection refused''), w)\<rparr>"

theorem connect_finds_reachable_node_witness:
  "\<exists>conn p'. connectToUpstreamServers half_lib first_runtime ''primary'' [''a:5672'', ''b:5672''] None busy_proxy =
    (Inr (conn, ''a:5672''), p')"
proof -
  have "\<And>props w. \<exists>conn w'. lib_Dial half_lib ''a:5672'' (p_user busy_proxy) (p_password busy_proxy)
      (p_VirtualHost busy_proxy) props w = (Inr conn, w')"
    by (simp add: half_lib_def recording_lib_def logged_def)
  from connect_finds_reachable_node [OF _ _ this, of "[''a:5672'', ''b:5672'']" first_runtime "''primary''" None]
  obtain conn addr' p' where c: "connectToUpstreamServers half_lib first_runtime ''primary''
      [''a:5672'', ''b:5672''] None busy_proxy = (Inr (conn, addr'), p')" by auto
  then have "addr' = ''a:5672''"
    by (simp add: connectToUpstreamServers_def sortNodesByLeastConnections_def sort_Slice_def node_less_def
        WithLabelValues_def busy_proxy_def sample_proxy_def NewMetrics_def
        connectToUpstreamServer_def half_lib_def recording_lib_def logged_def Let_def)
  then show ?thesis using c by blast
qed

text \<open>The error for a node that cannot be reached, which is logged for every such node, contains the client's
  password in clear, up to the escaping of a URL; the masked form of the URL is used for the probe log
  only.\<close>

theorem dial_error_shows_password:
  assumes "lib_Dial lib addr (p_user p) (p_password p) (p_VirtualHost p) (upstream_props rt (p_clientAddr p) props)
      (p_world p) = (Inl e, w)"
  shows "\<exists>p' a b. connectToUpstreamServer lib rt addr props p =
      (Inl (GoErr (a @ escape UserPart (p_password p) @ b)), p')"
proof -
  obtain rest where "amqp_url (p_user p) (p_password p) addr (p_VirtualHost p) =
      (''amqp://'' @ escape UserPart (p_user p) @ '':'') @ escape UserPart (p_password p) @ rest"
    unfolding amqp_url_def Let_def by simp
  then have "\<exists>p'. connectToUpstreamServer lib rt addr props p =
      (Inl (GoErr ((''failed to open upstream '' @ ''amqp://'' @ escape UserPart (p_user p) @ '':'') @
        escape UserPart (p_password p) @ rest @ '' '' @ rmq_text e)), p')"
    using assms by (simp add: connectToUpstreamServer_def)
  then show ?thesis by blast
qed

theorem dial_error_shows_password_witness:
  "\<exists>p' a b. connectToUpstreamServer half_lib first_runtime ''b:5672'' None (busy_proxy\<lparr>p_password := ''s3cret''\<rparr>) =
      (Inl (GoErr (a @ ''s3cret'' @ b)), p')"
proof -
  let ?p = "busy_proxy\<lparr>p_password := ''s3cret''\<rparr>"
  have "lib_Dial half_lib ''b:5672'' (p_user ?p) (p_password ?p) (p_VirtualHost ?p)
      (upstream_props first_runtime (p_clientAddr ?p) None) (p_world ?p) =
      (Inl (OtherError ''connection refused''), p_world ?p)"
    by (simp add: half_lib_def)
  moreover have "escape UserPart ''s3cret'' = ''s3cret''"
    by (simp add: escape_def shouldEscape_def is_alnum_def)
  ultimately show ?thesis
    using dial_error_shows_password [of half_lib "''b:5672''" ?p first_runtime None] by simp
qed

end
