(* ===== verification/Session.thy ===== *)
theory Session
  imports Proxy_Correctness Proxy_Observers Proxy_Termination Connect Amqp_Auth
begin

text \<open>
  The life of one client connection: the handshake, the heartbeat, the shutdown and the other
  goroutines of \<^verbatim>\<open>src/proxy.go\<close>, and the loop of \<^verbatim>\<open>handleConnection\<close> in
  \<^verbatim>\<open>src/server.go\<close>. What happens around the loop (cancellation, upstreams that go away,
  deliveries, confirmations, ticks of the heartbeat) arrives as a sequence of events in any order.
\<close>

section \<open>Handshake\<close>

definition ChannelMax :: u16 where "ChannelMax = 1023"
definition FrameMax :: u32 where "FrameMax = 128 * 1024"
definition HeartbeatInterval :: u16 where "HeartbeatInterval = 60"
definition ConnectionForced :: u16 where "ConnectionForced = 320"

definition TrimPrefix :: "string \<Rightarrow> string \<Rightarrow> string" where
  "TrimPrefix s pre = (if has_prefix s pre then drop (length pre) s else s)"

definition serverProperties :: gotable where
  "serverProperties = Some [(''product'', FString ''trabbits''), (''version'', FString (TrimPrefix Version ''v'')),
     (''platform'', FString ''Go''),
     (''capabilities'', FTable [(''publisher_confirms'', FBool True), (''basic.nack'', FBool True)])]"

text \<open>The credentials of \<^verbatim>\<open>Connection.Start-Ok\<close>; the text of a parse error is that of the response.\<close>

definition authenticate :: "string \<Rightarrow> string \<Rightarrow> ('w, unit) pm" where
  "authenticate auth authRes p =
     (let set = (\<lambda>u pw. p\<lparr>p_user := u, p_password := pw\<rparr>) in
      if auth = ''PLAIN'' then
        (case ParsePLAINAuthResponse authRes of
           Inr (user, password) \<Rightarrow> (Inr (), set user password)
         | Inl (InvalidAuthResponse s) \<Rightarrow>
             (Inl (GoErr (''failed to parse PLAIN auth response: invalid auth response '' @ s)), set [] [])
         | Inl AuthPanic \<Rightarrow> (Inl (Panic ''auth''), p))
      else if auth = ''AMQPLAIN'' then
        (case ParseAMQPLAINAuthResponse authRes of
           Some (Inr (user, password)) \<Rightarrow> (Inr (), set user password)
         | Some (Inl (InvalidAuthResponse s)) \<Rightarrow>
             (Inl (GoErr (''failed to parse AMQPLAIN auth response: invalid auth response '' @ s)), set [] [])
         | Some (Inl AuthPanic) \<Rightarrow> (Inl (Panic ''auth''), p)
         | None \<Rightarrow> (Inl Diverges, p))
      else (Inl (GoErr (''unsupported auth mechanism: '' @ auth)), p))"

definition tune :: "u16 \<Rightarrow> u32 \<Rightarrow> u16 \<Rightarrow> tuned \<Rightarrow> tuned" where
  "tune cm fm hb t =
     t\<lparr>channelMax := (if cm > 0 then cm else channelMax t), frameMax := (if fm > 0 then fm else frameMax t),
       heartbeat := hb\<rparr>"

definition send_step :: "string \<Rightarrow> message \<Rightarrow> ('w, unit) pm" where
  "send_step what m = pwrap (wrap_err (''failed to write '' @ what)) (send 0 m)"

definition recv_step :: "string \<Rightarrow> message \<Rightarrow> ('w, message) pm" where
  "recv_step what m = pwrap (wrap_err (''failed to read '' @ what)) (recv 0 m)"

definition handshake_start :: "('w, unit) pm" where
  "handshake_start =
     pbind (send_step ''Connection.Start'' (ConnectionStart 0 9 serverProperties ''PLAIN'' ''en_US'')) (\<lambda>_.
     pbind (recv_step ''Connection.Start-Ok'' (ConnectionStartOk None [] [] [])) (\<lambda>startOk p.
       case startOk of
         ConnectionStartOk ClientProperties Mechanism Response _ \<Rightarrow>
           authenticate Mechanism Response (p\<lparr>p_clientProps := ClientProperties\<rparr>)
       | _ \<Rightarrow> (Inl (Panic ''unreachable''), p)))"

definition handshake_tune :: "('w, unit) pm" where
  "handshake_tune =
     pbind (send_step ''Connection.Tune'' (ConnectionTune ChannelMax FrameMax HeartbeatInterval)) (\<lambda>_.
     pbind (recv_step ''Connection.Tune-Ok'' (ConnectionTuneOk 0 0 0)) (\<lambda>tuneOk p.
       case tuneOk of
         ConnectionTuneOk cm fm hb \<Rightarrow> (Inr (), p\<lparr>k_tuned := tune cm fm hb (k_tuned p)\<rparr>)
       | _ \<Rightarrow> (Inl (Panic ''unreachable''), p)))"

definition handshake_open :: "('w, unit) pm" where
  "handshake_open =
     pbind (recv_step ''Connection.Open'' (ConnectionOpen [] [] False)) (\<lambda>open p.
       case open of
         ConnectionOpen VirtualHost _ _ \<Rightarrow>
           send_step ''Connection.Open-Ok'' (ConnectionOpenOk []) (p\<lparr>p_VirtualHost := VirtualHost\<rparr>)
       | _ \<Rightarrow> (Inl (Panic ''unreachable''), p))"

definition handshake :: "('w, unit) pm" where
  "handshake = pbind handshake_start (\<lambda>_. pbind handshake_tune (\<lambda>_. handshake_open))"

section \<open>Shutdown and errors\<close>

text \<open>A failure to read the answer is only logged; a panic is not caught here.\<close>

definition await_close_ok :: "('w, unit) pm" where
  "await_close_ok p =
     (case recv 0 ConnectionCloseOk p of
        (Inl (Panic t), p') \<Rightarrow> (Inl (Panic t), p')
      | (_, p') \<Rightarrow> (Inr (), p'))"

definition shutdown :: "('w, unit) pm" where
  "shutdown p =
     pbind (send_step ''Connection.Close'' (ConnectionClose 200 (p_shutdownMessage p) 0 0)) (\<lambda>_. await_close_ok) p"

definition sendConnectionError :: "u16 \<Rightarrow> string \<Rightarrow> ('w, unit) pm" where
  "sendConnectionError code message =
     pbind (send 0 (ConnectionClose code (perr_text (AMQPErr code message)) 0 0)) (\<lambda>_. await_close_ok)"

section \<open>The connection as a state machine\<close>

text \<open>
  The goroutines of a connection are its upstream monitors, its heartbeat, its confirm listeners and
  its consumers; \<open>ss_returned\<close> lists the monitors, listeners and consumers that have returned. The
  connection itself is running, has ended, has panicked or hangs: a goroutine whose
  \<^verbatim>\<open>send\<close> never comes back holds the lock that every other one needs.
\<close>

datatype event_source = Monitor nat | Listener nat | Consumer nat

datatype status = Running | Ended | Panicked | Hung

record 'w session =
  ss_proxy :: "'w proxy"
  ss_disconnects :: "string list"
  ss_heartbeat :: bool
  ss_returned :: "event_source list"
  ss_status :: status

datatype event =
    Turn
  | Cancelled
  | UpstreamClosed nat
  | Confirmation nat u64 bool
  | Arrived nat rmq_delivery
  | HeartbeatTick
  | Stopped event_source

definition ended :: "perr + 'a \<Rightarrow> status" where
  "ended r = (case r of Inl Diverges \<Rightarrow> Hung | Inl (Panic _) \<Rightarrow> Panicked | _ \<Rightarrow> Ended)"

definition recoverFromPanic :: "string \<Rightarrow> perr + 'a \<Rightarrow> Metrics \<Rightarrow> Metrics" where
  "recoverFromPanic functionName r m =
     (case r of
        Inl (Panic _) \<Rightarrow> m\<lparr>PanicRecoveries := on_label functionName Counter_Inc (PanicRecoveries m)\<rparr>
      | _ \<Rightarrow> m)"

definition recovered :: "string \<Rightarrow> (perr + 'a) \<times> 'w proxy \<Rightarrow> 'w proxy" where
  "recovered functionName r = (snd r)\<lparr>k_metrics := recoverFromPanic functionName (fst r) (k_metrics (snd r))\<rparr>"

definition initHeartbeatTimer :: "'w proxy \<Rightarrow> bool" where
  "initHeartbeatTimer p = (heartbeat (k_tuned p) \<noteq> 0)"

text \<open>The notification of a closed upstream; the channel holds ten names, and the monitor returns.\<close>

definition MonitorUpstreamConnection :: "nat \<Rightarrow> 'w session \<Rightarrow> 'w session" where
  "MonitorUpstreamConnection i s =
     (if Monitor i \<in> set (ss_returned s) \<or> length (p_upstreams (ss_proxy s)) \<le> i then s
      else s\<lparr>ss_disconnects := (if length (ss_disconnects s) < 10
               then ss_disconnects s @ [us_name (p_upstreams (ss_proxy s) ! i)] else ss_disconnects s),
             ss_returned := Monitor i # ss_returned s\<rparr>)"

text \<open>One tick of \<^verbatim>\<open>runHeartbeat\<close>; when the write fails the goroutine shuts the connection down and returns.\<close>

definition runHeartbeat_tick :: "'w session \<Rightarrow> 'w session" where
  "runHeartbeat_tick s =
     (if \<not> ss_heartbeat s then s
      else case Writer_WriteFrame (HeartbeatFrame 0) (k_w (ss_proxy s)) of
        (True, w) \<Rightarrow>
          s\<lparr>ss_proxy := (ss_proxy s)\<lparr>k_w := w, k_stats := IncrementSentFrames (k_stats (ss_proxy s))\<rparr>\<rparr>
      | (False, w) \<Rightarrow>
          s\<lparr>ss_proxy := recovered ''runHeartbeat'' (shutdown ((ss_proxy s)\<lparr>k_w := w\<rparr>)), ss_heartbeat := False\<rparr>)"

definition stop_with :: "(perr + 'a) \<times> 'w proxy \<Rightarrow> 'w session \<Rightarrow> 'w session" where
  "stop_with r s = s\<lparr>ss_proxy := snd r, ss_status := ended (fst r)\<rparr>"

text \<open>One turn of the loop that finds no cancellation: a lost upstream ends the connection, else a frame is processed.\<close>

definition loop_turn :: "'w rabbitmq \<Rightarrow> 'w runtime \<Rightarrow> 'w session \<Rightarrow> 'w session" where
  "loop_turn lib rt s =
     (case ss_disconnects s of
        upstreamName # rest \<Rightarrow>
          stop_with (sendConnectionError ConnectionForced (''Upstream connection lost: '' @ upstreamName) (ss_proxy s))
            (s\<lparr>ss_disconnects := rest\<rparr>)
      | [] \<Rightarrow>
          (case process lib rt (ss_proxy s) of
             (Inr _, p) \<Rightarrow> s\<lparr>ss_proxy := p\<rparr>
           | (Inl e, p) \<Rightarrow> stop_with (Inl e :: perr + unit, p) s))"

text \<open>A step of a goroutine that has not returned yet.\<close>

definition goroutine :: "string \<Rightarrow> event_source \<Rightarrow> ('w, bool) pm \<Rightarrow> 'w session \<Rightarrow> 'w session" where
  "goroutine functionName src step s =
     (if src \<in> set (ss_returned s) then s
      else let r = step (ss_proxy s) in
        s\<lparr>ss_proxy := recovered functionName r,
          ss_status := (if fst r = Inl Diverges then Hung else ss_status s),
          ss_returned := (if fst r = Inr True then ss_returned s else src # ss_returned s)\<rparr>)"

primrec session_event :: "'w rabbitmq \<Rightarrow> 'w runtime \<Rightarrow> event \<Rightarrow> 'w session \<Rightarrow> 'w session" where
  "session_event lib rt Turn s = loop_turn lib rt s"
| "session_event lib rt Cancelled s = stop_with (shutdown (ss_proxy s)) s"
| "session_event lib rt (UpstreamClosed i) s = MonitorUpstreamConnection i s"
| "session_event lib rt (Confirmation i tag ack) s =
     (if i < length (p_listeners (ss_proxy s))
      then goroutine ''listenConfirm'' (Listener i)
        (\<lambda>p. map_prod Inr id (listenConfirm_step (p_listeners p ! i) tag ack p)) s
      else s)"
| "session_event lib rt (Arrived i msg) s =
     (if i < length (p_consumers (ss_proxy s))
      then goroutine ''consume.goroutine'' (Consumer i) (\<lambda>p. consume_step (p_consumers p ! i) msg p) s else s)"
| "session_event lib rt HeartbeatTick s = runHeartbeat_tick s"
| "session_event lib rt (Stopped src) s = s\<lparr>ss_returned := src # ss_returned s\<rparr>"

definition session_step :: "'w rabbitmq \<Rightarrow> 'w runtime \<Rightarrow> event \<Rightarrow> 'w session \<Rightarrow> 'w session" where
  "session_step lib rt ev s = (if ss_status s = Running then session_event lib rt ev s else s)"

definition session_run :: "'w rabbitmq \<Rightarrow> 'w runtime \<Rightarrow> event list \<Rightarrow> 'w session \<Rightarrow> 'w session" where
  "session_run lib rt evs s = fold (session_step lib rt) evs s"

section \<open>What the events leave alone\<close>

lemma ended_not_running [simp]: "ended r \<noteq> Running"
  by (simp add: ended_def split: sum.split perr.split)

lemma stop_with_simps [simp]:
  "ss_proxy (stop_with r s) = snd r" "ss_status (stop_with r s) = ended (fst r)"
  by (simp_all add: stop_with_def)

lemma recovered_simps [simp]:
  "k_in (recovered f r) = k_in (snd r)" "p_upstreams (recovered f r) = p_upstreams (snd r)"
  "k_tuned (recovered f r) = k_tuned (snd r)" "k_w (recovered f r) = k_w (snd r)"
  by (simp_all add: recovered_def)

text \<open>
  An observation of the input that never grows: receiving takes a suffix, and everything else leaves
  the input alone.
\<close>

definition shrinks :: "('w, 'a) pm \<Rightarrow> bool" where
  "shrinks m \<longleftrightarrow> (\<forall>p. length (k_in (snd (m p))) \<le> length (k_in p))"

lemma shrinks_pbind: "shrinks m \<Longrightarrow> (\<And>x. shrinks (f x)) \<Longrightarrow> shrinks (pbind m f)"
  unfolding shrinks_def pbind_def
  by (auto split: prod.splits sum.splits) (metis le_trans snd_conv)+

lemma shrinks_pwrap: "shrinks m \<Longrightarrow> shrinks (pwrap h m)"
  unfolding shrinks_def pwrap_def by (auto split: prod.splits sum.splits) (metis snd_conv)+

lemma keeps_shrinks: "keeps k_in m \<Longrightarrow> shrinks m"
  by (simp add: keeps_def shrinks_def)

lemma shrinks_recv: "shrinks (recv ch m)"
  using recv_loop_suffix unfolding shrinks_def recv_def by (fastforce split: prod.splits)

lemma shrinks_send: "shrinks (send ch m)"
  by (intro keeps_shrinks input.send_keeps)

lemma await_close_ok_state: "snd (await_close_ok p) = snd (recv 0 ConnectionCloseOk p)"
  by (auto simp: await_close_ok_def split: prod.splits sum.splits perr.splits)

lemma shrinks_close: "shrinks await_close_ok" "shrinks shutdown" "shrinks (sendConnectionError c t)"
proof -
  show a: "shrinks await_close_ok"
    using shrinks_recv [of 0 ConnectionCloseOk] by (simp add: shrinks_def await_close_ok_state)
  show "shrinks (sendConnectionError c t)"
    unfolding sendConnectionError_def by (intro shrinks_pbind shrinks_send a)
  have "shrinks (pbind (send_step what m) (\<lambda>_. await_close_ok))" for what m
    unfolding send_step_def by (intro shrinks_pbind shrinks_pwrap shrinks_send a)
  then show "shrinks shutdown"
    unfolding shrinks_def shutdown_def by blast
qed

context observer
begin

lemma listenConfirm_keeps: "g (snd (listenConfirm_step l tag ack p)) = g p"
proof -
  have "g (snd (send ch m (p\<lparr>p_heap := h\<rparr>))) = g p" for ch m h
    using keeps_snd [OF send_keeps] g_state(2) by metis
  then show ?thesis
    unfolding listenConfirm_step_def by (auto split: prod.splits option.splits sum.splits) (metis snd_conv)+
qed

lemma consume_step_keeps: "g (snd (consume_step c msg p)) = g p"
  unfolding consume_step_def using keeps_snd [OF send_keeps]
  by (auto split: prod.splits sum.splits) (metis snd_conv)+

end

lemma chans_shutdown: "keeps (\<lambda>p. map us_channel (p_upstreams p)) shutdown"
proof -
  have "keeps (\<lambda>p. map us_channel (p_upstreams p)) (recv ch m)" for ch m
    by (auto simp: keeps_def recv_def split: prod.splits)
  then have "keeps (\<lambda>p. map us_channel (p_upstreams p)) await_close_ok"
    by (simp add: keeps_def await_close_ok_state)
  then have "keeps (\<lambda>p. map us_channel (p_upstreams p)) (pbind (send_step what m) (\<lambda>_. await_close_ok))" for what m
    unfolding send_step_def by (intro keep_intros chans.send_keeps)
  then show ?thesis
    unfolding keeps_def shutdown_def by blast
qed

lemma heartbeat_proxy:
  assumes "ss_heartbeat s"
  obtains w st where "ss_proxy (runHeartbeat_tick s) = (ss_proxy s)\<lparr>k_w := w, k_stats := st\<rparr>"
  | w where "ss_proxy (runHeartbeat_tick s) = recovered ''runHeartbeat'' (shutdown ((ss_proxy s)\<lparr>k_w := w\<rparr>))"
  using assms
  by (cases "Writer_WriteFrame (HeartbeatFrame 0) (k_w (ss_proxy s))"; cases "fst (Writer_WriteFrame (HeartbeatFrame 0) (k_w (ss_proxy s)))")
    (auto simp: runHeartbeat_tick_def)

lemma heartbeat_status [simp]: "ss_status (runHeartbeat_tick s) = ss_status s"
  by (auto simp: runHeartbeat_tick_def split: prod.splits bool.splits)

lemma heartbeat_chans:
  "map us_channel (p_upstreams (ss_proxy (runHeartbeat_tick s))) = map us_channel (p_upstreams (ss_proxy s))"
proof (cases "ss_heartbeat s")
  case True
  then show ?thesis
    by (rule heartbeat_proxy) (simp_all add: keeps_snd [OF chans_shutdown])
qed (simp add: runHeartbeat_tick_def)

lemma heartbeat_input: "length (k_in (ss_proxy (runHeartbeat_tick s))) \<le> length (k_in (ss_proxy s))"
proof (cases "ss_heartbeat s")
  case True
  then show ?thesis
  proof (rule heartbeat_proxy)
    fix w assume "ss_proxy (runHeartbeat_tick s) = recovered ''runHeartbeat'' (shutdown ((ss_proxy s)\<lparr>k_w := w\<rparr>))"
    then show ?thesis
      using spec [OF shrinks_close(2) [unfolded shrinks_def], of "(ss_proxy s)\<lparr>k_w := w\<rparr>"] by simp
  qed simp
qed (simp add: runHeartbeat_tick_def)

context bystander
begin

lemma recovered_keeps: "g (recovered f r) = g (snd r)"
  unfolding recovered_def
  by (intro g_io) (simp add: recoverFromPanic_def split: sum.split perr.split)

lemma close_keeps: "keeps g await_close_ok" "keeps g shutdown" "keeps g (sendConnectionError c t)"
proof -
  show a: "keeps g await_close_ok"
    using recv_keeps [of 0 ConnectionCloseOk] by (simp add: keeps_def await_close_ok_state)
  show "keeps g (sendConnectionError c t)"
    unfolding sendConnectionError_def by (intro keeps_pbind send_keeps a)
  have "keeps g (pbind (send_step what m) (\<lambda>_. await_close_ok))" for what m
    unfolding send_step_def by (intro keeps_pbind keeps_pwrap send_keeps a)
  then show "keeps g shutdown"
    unfolding keeps_def shutdown_def by blast
qed

lemma heartbeat_keeps: "g (ss_proxy (runHeartbeat_tick s)) = g (ss_proxy s)"
proof (cases "ss_heartbeat s")
  case True
  then show ?thesis
    by (rule heartbeat_proxy) (simp_all add: g_io recovered_keeps keeps_snd [OF close_keeps(2)])
qed (simp add: runHeartbeat_tick_def)

lemma session_event_keeps: "g (ss_proxy (session_event lib rt ev s)) = g (ss_proxy s)"
proof (cases ev)
  case Turn
  then show ?thesis
    using keeps_snd [OF process_keeps, of lib rt "ss_proxy s"]
    by (auto simp: loop_turn_def keeps_snd [OF close_keeps(3)] split: list.split prod.split sum.split)
qed (auto simp: keeps_snd [OF close_keeps(2)] MonitorUpstreamConnection_def goroutine_def Let_def recovered_keeps
    listenConfirm_keeps consume_step_keeps heartbeat_keeps)

lemma session_step_keeps: "g (ss_proxy (session_step lib rt ev s)) = g (ss_proxy s)"
  by (simp add: session_step_def session_event_keeps)

end

section \<open>Channels stay in step\<close>

lemma session_event_in_step:
  assumes "in_step (p_upstreams (ss_proxy s))" and "ss_status (session_event lib rt ev s) = Running"
  shows "in_step (p_upstreams (ss_proxy (session_event lib rt ev s)))"
proof (cases ev)
  case Turn
  then show ?thesis
    using assms process_in_step [of "ss_proxy s" lib rt]
    by (auto simp: loop_turn_def split: list.splits prod.splits sum.splits)
next
  case (UpstreamClosed i)
  then show ?thesis using assms by (simp add: MonitorUpstreamConnection_def)
next
  case (Confirmation i tag ack)
  then show ?thesis
    using assms(1) by (simp add: goroutine_def in_step_cong [OF chans.listenConfirm_keeps])
next
  case (Arrived i msg)
  then show ?thesis
    using assms(1) by (simp add: goroutine_def Let_def in_step_cong [OF chans.consume_step_keeps])
next
  case HeartbeatTick
  then show ?thesis
    using assms(1) by (simp add: in_step_cong [OF heartbeat_chans])
qed (use assms in simp_all)

text \<open>C1. As long as a connection goes on, every upstream of the proxy has the same channels open: after any
  sequence of frames, supported or not, of confirmations, deliveries, heartbeats and closed upstreams,
  with any behaviour of the upstreams, either all upstreams have the same channel numbers or the loop of
  the connection has ended.\<close>

theorem session_channels_in_step:
  assumes "in_step (p_upstreams (ss_proxy s))" and "ss_status (session_run lib rt evs s) = Running"
  shows "in_step (p_upstreams (ss_proxy (session_run lib rt evs s)))"
  using assms
proof (induction evs arbitrary: s)
  case (Cons ev evs)
  let ?s = "session_step lib rt ev s"
  have r: "ss_status (session_run lib rt evs ?s) = Running"
    using Cons.prems(2) by (simp add: session_run_def)
  moreover have "ss_status u \<noteq> Running \<Longrightarrow> ss_status (session_run lib rt evs u) \<noteq> Running" for evs u
    by (induction evs arbitrary: u) (simp_all add: session_run_def session_step_def)
  ultimately have "ss_status ?s = Running" by blast
  then have "in_step (p_upstreams (ss_proxy ?s))"
    using Cons.prems(1) session_event_in_step by (auto simp: session_step_def split: if_splits)
  then show ?case
    using Cons.IH [OF _ r] by (simp add: session_run_def)
qed (simp add: session_run_def)

definition sample_session :: "(read_fail + frame) list \<Rightarrow> lib_call list session" where
  "sample_session ins = \<lparr>ss_proxy = (sample_proxy two_upstreams)\<lparr>k_in := ins\<rparr>, ss_disconnects = [],
     ss_heartbeat = True, ss_returned = [], ss_status = Running\<rparr>"

lemma sample_open:
  "\<exists>p'. process recording_lib recording_runtime
      ((sample_proxy two_upstreams)\<lparr>k_in := [Inr (MethodFrame 2 20 10 (Some (ChannelOpen [])))]\<rparr>) = (Inr (), p') \<and>
    map (\<lambda>u. map fst (us_channel u)) (p_upstreams p') = [[1, 2], [1, 2]]"
proof -
  let ?p = "(sample_proxy two_upstreams)\<lparr>k_in := [Inr (MethodFrame 2 20 10 (Some (ChannelOpen [])))]\<rparr>"
  let ?us = "[sample_upstream\<lparr>us_channel := [(1, 10), (2, 0)]\<rparr>,
     sample_upstream\<lparr>us_name := ''secondary'', us_channel := [(1, 20), (2, 1)], us_keyPatterns := [''#'']\<rparr>]"
  let ?q = "(count_method (TypeName (ChannelOpen [])) (count_received (?p\<lparr>k_in := []\<rparr>)))\<lparr>p_upstreams := ?us,
    p_world := [CallChannel 0, CallChannel 0]\<rparr>"
  have "Proxy_NewChannel recording_lib 2 (count_method (TypeName (ChannelOpen [])) (count_received (?p\<lparr>k_in := []\<rparr>))) =
      (Inr (), ?q)"
    by (simp add: Proxy_NewChannel_def on_upstreams_def count_method_def count_received_def sample_proxy_def two_upstreams_def
        sample_upstream_def NewChannel_def recording_lib_def logged_def of_go_def pret_def)
  moreover obtain b where "MethodFrame_Write 2 (Some (ChannelOpenOk [])) = Inr b"
    by (simp add: MethodFrame_Write_def msg_write)
  then obtain w where "send 2 (ChannelOpenOk []) ?q = (Inr (), sent_upd w 1 ?q)"
    using send_method_live [of ?q "ChannelOpenOk []" 2 b]
    by (auto simp: live_def count_method_def count_received_def sample_proxy_def new_writer_def GetContent_def)
  ultimately have "process recording_lib recording_runtime ?p = (Inr (), sent_upd w 1 ?q)"
    by (simp add: process_def dispatchN_def GetContent_def pret_def pbind_def dispatch_method_def replyChannelOpen_def
        pwrap_def)
  then show ?thesis
    by (simp add: sent_upd_def count_sent_def)
qed

theorem session_channels_in_step_witness:
  "\<exists>s. session_run recording_lib recording_runtime [Turn, UpstreamClosed 1]
      (sample_session [Inr (MethodFrame 2 20 10 (Some (ChannelOpen [])))]) = s \<and> ss_status s = Running \<and>
    in_step (p_upstreams (ss_proxy s)) \<and> map (\<lambda>u. map fst (us_channel u)) (p_upstreams (ss_proxy s)) = [[1, 2], [1, 2]]"
proof -
  let ?s = "sample_session [Inr (MethodFrame 2 20 10 (Some (ChannelOpen [])))]"
  let ?t = "session_run recording_lib recording_runtime [Turn, UpstreamClosed 1] ?s"
  obtain p' where p': "process recording_lib recording_runtime (ss_proxy ?s) = (Inr (), p')"
    "map (\<lambda>u. map fst (us_channel u)) (p_upstreams p') = [[1, 2], [1, 2]]"
    using sample_open by (auto simp: sample_session_def)
  have "ss_status ?t = Running \<and> ss_proxy ?t = p'"
    using p'(1) by (simp add: session_run_def session_step_def loop_turn_def sample_session_def MonitorUpstreamConnection_def)
  moreover have "in_step (p_upstreams (ss_proxy ?s))"
    by (auto simp: in_step_def sample_session_def sample_proxy_def two_upstreams_def open_ids_def channel_get_def)
  ultimately show ?thesis
    using session_channels_in_step [of ?s recording_lib recording_runtime "[Turn, UpstreamClosed 1]"] p'(2) by simp
qed

section \<open>The loop ends\<close>

definition turns :: "event list \<Rightarrow> nat" where
  "turns evs = length (filter (\<lambda>ev. ev = Turn) evs)"

lemma session_event_input:
  assumes "ss_status (session_event lib rt ev s) = Running"
  shows "length (k_in (ss_proxy (session_event lib rt ev s))) + turns [ev] \<le> length (k_in (ss_proxy s))"
proof (cases ev)
  case Turn
  then obtain p where p: "process lib rt (ss_proxy s) = (Inr (), p)" "session_event lib rt ev s = s\<lparr>ss_proxy := p\<rparr>"
    using assms by (auto simp: loop_turn_def split: list.splits prod.splits sum.splits)
  then have "k_in (ss_proxy s) \<noteq> []" by (auto simp: process_def)
  then show ?thesis
    using process_consumes [of "ss_proxy s" lib rt] p Turn by (simp add: turns_def)
next
  case HeartbeatTick
  then show ?thesis using heartbeat_input by (simp add: turns_def)
qed (use assms in \<open>auto simp: turns_def MonitorUpstreamConnection_def goroutine_def Let_def input.listenConfirm_keeps
    input.consume_step_keeps\<close>)

lemma stopped_stays: "ss_status s \<noteq> Running \<Longrightarrow> session_run lib rt evs s = s"
  by (induction evs) (simp_all add: session_run_def session_step_def)

lemma session_run_input:
  "ss_status (session_run lib rt evs s) = Running \<Longrightarrow>
    length (k_in (ss_proxy (session_run lib rt evs s))) + turns evs \<le> length (k_in (ss_proxy s))"
proof (induction evs arbitrary: s)
  case (Cons ev evs)
  let ?s = "session_step lib rt ev s"
  have r: "ss_status (session_run lib rt evs ?s) = Running" "session_run lib rt (ev # evs) s = session_run lib rt evs ?s"
    using Cons.prems by (simp_all add: session_run_def)
  then have s: "ss_status ?s = Running" using stopped_stays by metis
  then have "?s = session_event lib rt ev s"
    by (auto simp: session_step_def split: if_splits)
  then have "length (k_in (ss_proxy ?s)) + turns [ev] \<le> length (k_in (ss_proxy s))"
    using session_event_input [of lib rt ev s] s by simp
  then show ?case
    using Cons.IH [OF r(1)] r(2) by (simp add: turns_def split: if_splits)
qed (simp add: session_run_def turns_def)

lemma steady_close: "steady await_close_ok" "steady shutdown" "steady (sendConnectionError c t)"
proof -
  show a: "steady await_close_ok"
    by (intro steadyI) (auto simp: await_close_ok_def dest: steadyD [OF steady_recv]
        split: prod.splits sum.splits perr.splits)
  show "steady (sendConnectionError c t)"
    unfolding sendConnectionError_def by (intro steady_pbind steady_send a)
  have "steady (pbind (send_step what m) (\<lambda>_. await_close_ok))" for what m
    unfolding send_step_def by (intro steady_pbind steady_pwrap steady_send a) (auto dest: wraps_diverges)
  then show "steady shutdown"
    unfolding steady_def keeps_def shutdown_def by blast
qed

lemma steady_goroutines:
  "k_tuned (snd (listenConfirm_step l tag ack p)) = k_tuned p" "steady (consume_step c msg)"
proof -
  show "k_tuned (snd (listenConfirm_step l tag ack p)) = k_tuned p"
    by (auto simp: listenConfirm_step_def dest: steadyD [OF steady_send] split: prod.splits option.splits sum.splits)
  show "steady (consume_step c msg)"
    by (intro steadyI) (auto simp: consume_step_def dest: steadyD [OF steady_send] split: prod.splits sum.splits perr.splits)
qed

lemma ended_hung: "ended r = Hung \<longleftrightarrow> r = Inl Diverges"
  by (auto simp: ended_def split: sum.splits perr.splits)

definition lively :: "'w session \<Rightarrow> bool" where
  "lively s \<longleftrightarrow> frameMax (k_tuned (ss_proxy s)) \<noteq> 8 \<and> ss_status s \<noteq> Hung"

lemma session_event_lively:
  assumes "lively s" shows "lively (session_event lib rt ev s)"
proof (cases ev)
  case Turn
  then show ?thesis
    using assms
    by (auto simp: lively_def loop_turn_def ended_hung dest: steadyD [OF steady_process]
        simp: steady_keeps [OF steady_close(3)] steady_returns [OF steady_close(3)]
        split: list.split prod.split sum.split)
next
  case Cancelled
  then show ?thesis
    using assms
    by (simp add: lively_def ended_hung steady_keeps [OF steady_close(2)] steady_returns [OF steady_close(2)])
next
  case HeartbeatTick
  then show ?thesis
    using assms
    by (auto simp: lively_def runHeartbeat_tick_def steady_keeps [OF steady_close(2)] split: prod.split bool.split)
qed (use assms in \<open>auto simp: lively_def MonitorUpstreamConnection_def goroutine_def Let_def steady_goroutines(1)
    steady_keeps [OF steady_goroutines(2)] steady_returns [OF steady_goroutines(2)]\<close>)

lemma session_run_lively: "lively s \<Longrightarrow> lively (session_run lib rt evs s)"
  by (induction evs arbitrary: s) (simp_all add: session_run_def session_step_def session_event_lively)

text \<open>C5. The loop of a connection comes to its end: every turn uses up input or ends the loop, so after one more
  turn than there is input left, whatever other events happen in between, the loop has ended, in good
  order or by a panic that its caller recovers. Nothing hangs, neither a turn of the loop nor a goroutine
  that holds the lock of the connection, unless the client has negotiated frames of eight bytes.\<close>

theorem session_ends:
  assumes "length (k_in (ss_proxy s)) < turns evs" and "frameMax (k_tuned (ss_proxy s)) \<noteq> 8" and "ss_status s \<noteq> Hung"
  shows "ss_status (session_run lib rt evs s) \<in> {Ended, Panicked}"
proof -
  have "ss_status (session_run lib rt evs s) \<noteq> Running"
    using session_run_input [of lib rt evs s] assms(1) by linarith
  moreover have "ss_status (session_run lib rt evs s) \<noteq> Hung"
    using session_run_lively [of s lib rt evs] assms(2,3) by (simp add: lively_def)
  ultimately show ?thesis
    by (cases "ss_status (session_run lib rt evs s)") simp_all
qed

theorem session_ends_witness:
  "ss_status (session_run recording_lib recording_runtime [Turn, HeartbeatTick, Turn]
      (sample_session [Inr (HeartbeatFrame 0)])) \<in> {Ended, Panicked}"
  by (rule session_ends) (simp_all add: sample_session_def turns_def sample_proxy_def)

section \<open>Goodbyes\<close>

lemma sent_upd_channels [simp]:
  "k_in (sent_upd w n p) = k_in p" "k_w (sent_upd w n p) = w" "k_tuned (sent_upd w n p) = k_tuned p"
proof -
  have "k_in ((count_sent ^^ n) p) = k_in p \<and> k_tuned ((count_sent ^^ n) p) = k_tuned p"
    by (induction n) simp_all
  then show "k_in (sent_upd w n p) = k_in p" "k_w (sent_upd w n p) = w" "k_tuned (sent_upd w n p) = k_tuned p"
    by (simp_all add: sent_upd_def)
qed

lemma ConnectionClose_writes: "\<exists>b. MethodFrame_Write ch (Some (ConnectionClose code text 0 0)) = Inr b"
  by (simp add: MethodFrame_Write_def msg_write)

lemma await_close_ok_w: "k_w (snd (await_close_ok p)) = k_w p"
  by (simp add: await_close_ok_state recv_def split: prod.splits)

lemma goodbye_sent:
  fixes p :: "'w proxy"
  assumes "live (k_w p)"
  shows "\<exists>b w. MethodFrame_Write 0 (Some (ConnectionClose c t 0 0)) = Inr b \<and>
    send 0 (ConnectionClose c t 0 0) p = (Inr (), sent_upd w 1 p) \<and> cw_sock w = written (k_w p) @ b"
proof -
  obtain b where b: "MethodFrame_Write 0 (Some (ConnectionClose c t 0 0)) = Inr b"
    using ConnectionClose_writes by blast
  then show ?thesis
    using send_method_live [OF assms _ b] by (auto simp: GetContent_def)
qed

lemma Cancelled_says_goodbye:
  assumes "ss_status s = Running" and "live (k_w (ss_proxy s))"
  shows "\<exists>b. MethodFrame_Write 0 (Some (ConnectionClose 200 (p_shutdownMessage (ss_proxy s)) 0 0)) = Inr b \<and>
      cw_sock (k_w (ss_proxy (session_step lib rt Cancelled s))) = written (k_w (ss_proxy s)) @ b"
    and "ss_status (session_step lib rt Cancelled s) \<in> {Ended, Panicked}"
proof -
  let ?p = "ss_proxy s"
  obtain b w where b: "MethodFrame_Write 0 (Some (ConnectionClose 200 (p_shutdownMessage ?p) 0 0)) = Inr b"
    "send 0 (ConnectionClose 200 (p_shutdownMessage ?p) 0 0) ?p = (Inr (), sent_upd w 1 ?p)" "cw_sock w = written (k_w ?p) @ b"
    using goodbye_sent [OF assms(2)] by metis
  have "shutdown ?p = await_close_ok (sent_upd w 1 ?p)"
    using b(2) by (simp add: shutdown_def send_step_def pbind_def pwrap_def)
  moreover have "fst (await_close_ok q) \<noteq> Inl Diverges" for q :: "'a proxy"
    by (auto simp: await_close_ok_def split: prod.split sum.split perr.split)
  ultimately have "session_step lib rt Cancelled s = stop_with (await_close_ok (sent_upd w 1 ?p)) s"
    "ended (fst (await_close_ok (sent_upd w 1 ?p))) \<notin> {Running, Hung}"
    using assms(1) by (simp_all add: session_step_def ended_hung)
  then show "\<exists>b. MethodFrame_Write 0 (Some (ConnectionClose 200 (p_shutdownMessage (ss_proxy s)) 0 0)) = Inr b \<and>
      cw_sock (k_w (ss_proxy (session_step lib rt Cancelled s))) = written (k_w (ss_proxy s)) @ b"
    "ss_status (session_step lib rt Cancelled s) \<in> {Ended, Panicked}"
    using b by (simp_all add: await_close_ok_w) (cases "ended (fst (await_close_ok (sent_upd w 1 ?p)))"; simp)
qed

text \<open>C8. A connection that ends is closed the way the protocol asks for. When it is cancelled (the server stops,
  the configuration has changed or an operator asks for it) and the client's connection still takes
  writes, the client is sent \<^verbatim>\<open>Connection.Close\<close> with code 200 and the reason; when an
  upstream has gone, the next turn sends it with code 320 and the name of the upstream. Both end the
  loop.\<close>

theorem session_says_goodbye:
  assumes "ss_status s = Running" and "live (k_w (ss_proxy s))"
  shows "(\<exists>b. MethodFrame_Write 0 (Some (ConnectionClose 200 (p_shutdownMessage (ss_proxy s)) 0 0)) = Inr b \<and>
      cw_sock (k_w (ss_proxy (session_step lib rt Cancelled s))) = written (k_w (ss_proxy s)) @ b) \<and>
    ss_status (session_step lib rt Cancelled s) \<noteq> Running \<and>
    (\<forall>name rest. ss_disconnects s = name # rest \<longrightarrow>
      (\<exists>b. MethodFrame_Write 0 (Some (ConnectionClose 320 (''320: Upstream connection lost: '' @ name) 0 0)) = Inr b \<and>
        cw_sock (k_w (ss_proxy (session_step lib rt Turn s))) = written (k_w (ss_proxy s)) @ b) \<and>
      ss_status (session_step lib rt Turn s) \<noteq> Running)"
proof -
  have "char_of (51 :: nat) = CHR ''3''" "char_of (50 :: nat) = CHR ''2''" "char_of (48 :: nat) = CHR ''0''"
    by code_simp+
  then have t: "perr_text (AMQPErr ConnectionForced (''Upstream connection lost: '' @ name)) =
      ''320: Upstream connection lost: '' @ name" for name
    by (simp add: perr_text_def ConnectionForced_def show_nat.simps)
  have "\<exists>b. MethodFrame_Write 0 (Some (ConnectionClose 320 (''320: Upstream connection lost: '' @ name) 0 0)) = Inr b \<and>
      cw_sock (k_w (ss_proxy (session_step lib rt Turn s))) = written (k_w (ss_proxy s)) @ b"
    if "ss_disconnects s = name # rest" for name rest
    using goodbye_sent [OF assms(2), of 320 "''320: Upstream connection lost: '' @ name"] assms(1) that t [of name]
    by (auto simp: session_step_def loop_turn_def sendConnectionError_def pbind_def await_close_ok_w ConnectionForced_def)
  then show ?thesis
    using Cancelled_says_goodbye [OF assms, of lib rt] assms(1) by (auto simp: session_step_def loop_turn_def)
qed

theorem session_says_goodbye_witness:
  "\<exists>b. MethodFrame_Write 0 (Some (ConnectionClose 320 (''320: Upstream connection lost: secondary'') 0 0)) = Inr b \<and>
    cw_sock (k_w (ss_proxy (session_run recording_lib recording_runtime [UpstreamClosed 1, Turn] (sample_session [])))) = b"
proof -
  let ?s = "session_step recording_lib recording_runtime (UpstreamClosed 1) (sample_session [])"
  have "ss_status ?s = Running" "ss_disconnects ?s = [''secondary'']" "live (k_w (ss_proxy ?s))" "written (k_w (ss_proxy ?s)) = []"
    by (simp_all add: session_step_def sample_session_def MonitorUpstreamConnection_def sample_proxy_def two_upstreams_def
        live_def written_def new_writer_def)
  with session_says_goodbye [of ?s recording_lib recording_runtime] show ?thesis
    by (simp add: session_run_def)
qed

section \<open>The handshake\<close>

lemma sent_upd_fields [simp]:
  fixes p :: "'w proxy"
  shows "p_user (sent_upd w n p) = p_user p" "p_password (sent_upd w n p) = p_password p"
    "p_VirtualHost (sent_upd w n p) = p_VirtualHost p" "p_clientProps (sent_upd w n p) = p_clientProps p"
proof -
  have "p_user ((count_sent ^^ n) p) = p_user p \<and> p_password ((count_sent ^^ n) p) = p_password p \<and>
      p_VirtualHost ((count_sent ^^ n) p) = p_VirtualHost p \<and> p_clientProps ((count_sent ^^ n) p) = p_clientProps p"
    by (induction n) (simp_all add: count_sent_def)
  then show "p_user (sent_upd w n p) = p_user p" "p_password (sent_upd w n p) = p_password p"
    "p_VirtualHost (sent_upd w n p) = p_VirtualHost p" "p_clientProps (sent_upd w n p) = p_clientProps p"
    by (simp_all add: sent_upd_def)
qed

lemma send_step_live:
  fixes p :: "'w proxy"
  assumes "live (k_w p)" and "GetContent m = None" and "MethodFrame_Write 0 (Some m) = Inr b"
  obtains w where "send_step what m p = (Inr (), sent_upd w 1 p)" and "live w" and "written w = written (k_w p) @ b"
  using send_method_live [OF assms]
  by (auto simp: send_step_def pwrap_def written_def)

lemma recv_step_method:
  fixes p :: "'w proxy"
  assumes "k_in p = Inr (MethodFrame 0 c mid (Some x)) # ins" and "message_name m = message_name x" and "GetContent x = None"
  shows "\<exists>mx. recv_step what m p = (Inr x, p\<lparr>k_in := ins, k_metrics := mx\<rparr>)"
  using assms by (intro exI) (simp add: recv_step_def pwrap_def recv_def Let_def)

lemma ParsePLAIN_ok:
  assumes "NUL \<notin> set user"
  shows "ParsePLAINAuthResponse (NUL # user @ NUL # password) = Inr (user, password)"
  using SplitN_step [of NUL "[]" 2 "user @ NUL # password"] SplitN_step [OF assms, of 1 password]
  by (simp add: ParsePLAINAuthResponse_def Let_def eval_nat_numeral)

lemma Start_writes: "\<exists>b. MethodFrame_Write 0 (Some (ConnectionStart 0 9 serverProperties ''PLAIN'' ''en_US'')) = Inr b"
proof -
  have "\<exists>b. writeGoTable serverProperties = Inr b"
    by (simp add: serverProperties_def writeGoTable_def entries_def writeTable_def)
  then show ?thesis
    by (auto simp: MethodFrame_Write_def msg_write)
qed

lemma handshake_start_ok:
  assumes "live (k_w p)" and "NUL \<notin> set user"
    and "k_in p = Inr (MethodFrame 0 c mid (Some (ConnectionStartOk props ''PLAIN'' (NUL # user @ NUL # password) loc))) # ins"
  shows "\<exists>w mx b. MethodFrame_Write 0 (Some (ConnectionStart 0 9 serverProperties ''PLAIN'' ''en_US'')) = Inr b \<and>
    handshake_start p = (Inr (), (sent_upd w 1 p)\<lparr>k_in := ins, k_metrics := mx, p_clientProps := props,
      p_user := user, p_password := password\<rparr>) \<and> live w \<and> written w = written (k_w p) @ b"
proof -
  obtain b where b: "MethodFrame_Write 0 (Some (ConnectionStart 0 9 serverProperties ''PLAIN'' ''en_US'')) = Inr b"
    using Start_writes by blast
  obtain w where w: "send_step ''Connection.Start'' (ConnectionStart 0 9 serverProperties ''PLAIN'' ''en_US'') p =
      (Inr (), sent_upd w 1 p)" "live w" "written w = written (k_w p) @ b"
    using send_step_live [OF assms(1) _ b] by (auto simp: GetContent_def)
  let ?m = "ConnectionStartOk props ''PLAIN'' (NUL # user @ NUL # password) loc"
  obtain mx where "recv_step ''Connection.Start-Ok'' (ConnectionStartOk None [] [] []) (sent_upd w 1 p) =
      (Inr ?m, (sent_upd w 1 p)\<lparr>k_in := ins, k_metrics := mx\<rparr>)"
    using recv_step_method [of "sent_upd w 1 p" c mid ?m ins "ConnectionStartOk None [] [] []"] assms(3)
    by (auto simp: GetContent_def)
  then have "handshake_start p = (Inr (), (sent_upd w 1 p)\<lparr>k_in := ins, k_metrics := mx, p_clientProps := props,
      p_user := user, p_password := password\<rparr>)"
    using w(1) ParsePLAIN_ok [OF assms(2)] by (simp add: handshake_start_def pbind_def authenticate_def)
  then show ?thesis using b w(2,3) by blast
qed

lemma handshake_tune_ok:
  assumes "live (k_w p)" and "k_in p = Inr (MethodFrame 0 c mid (Some (ConnectionTuneOk cm fm hb))) # ins"
  shows "\<exists>w mx b. MethodFrame_Write 0 (Some (ConnectionTune 1023 131072 60)) = Inr b \<and>
    handshake_tune p = (Inr (), (sent_upd w 1 p)\<lparr>k_in := ins, k_metrics := mx, k_tuned := tune cm fm hb (k_tuned p)\<rparr>) \<and>
    live w \<and> written w = written (k_w p) @ b"
proof -
  have c: "ConnectionTune 1023 131072 60 = ConnectionTune ChannelMax FrameMax HeartbeatInterval"
    by (simp add: ChannelMax_def FrameMax_def HeartbeatInterval_def)
  obtain b where b: "MethodFrame_Write 0 (Some (ConnectionTune ChannelMax FrameMax HeartbeatInterval)) = Inr b"
    by (simp add: MethodFrame_Write_def msg_write)
  obtain w where w: "send_step ''Connection.Tune'' (ConnectionTune ChannelMax FrameMax HeartbeatInterval) p =
      (Inr (), sent_upd w 1 p)" "live w" "written w = written (k_w p) @ b"
    using send_step_live [OF assms(1) _ b] by (auto simp: GetContent_def)
  obtain mx where "recv_step ''Connection.Tune-Ok'' (ConnectionTuneOk 0 0 0) (sent_upd w 1 p) =
      (Inr (ConnectionTuneOk cm fm hb), (sent_upd w 1 p)\<lparr>k_in := ins, k_metrics := mx\<rparr>)"
    using recv_step_method [of "sent_upd w 1 p" c mid "ConnectionTuneOk cm fm hb" ins "ConnectionTuneOk 0 0 0"] assms(2)
    by (auto simp: GetContent_def)
  then have "handshake_tune p =
      (Inr (), (sent_upd w 1 p)\<lparr>k_in := ins, k_metrics := mx, k_tuned := tune cm fm hb (k_tuned p)\<rparr>)"
    using w(1) by (simp add: handshake_tune_def pbind_def)
  then show ?thesis unfolding c using b w(2,3) by blast
qed

lemma handshake_open_ok:
  assumes "live (k_w p)" and "k_in p = Inr (MethodFrame 0 c mid (Some (ConnectionOpen vhost r1 r2))) # ins"
  shows "\<exists>w mx b. MethodFrame_Write 0 (Some (ConnectionOpenOk [])) = Inr b \<and>
    handshake_open p = (Inr (), sent_upd w 1 (p\<lparr>k_in := ins, k_metrics := mx, p_VirtualHost := vhost\<rparr>)) \<and>
    written w = written (k_w p) @ b"
proof -
  obtain b where b: "MethodFrame_Write 0 (Some (ConnectionOpenOk [])) = Inr b"
    by (simp add: MethodFrame_Write_def msg_write)
  obtain mx where r: "recv_step ''Connection.Open'' (ConnectionOpen [] [] False) p =
      (Inr (ConnectionOpen vhost r1 r2), p\<lparr>k_in := ins, k_metrics := mx\<rparr>)"
    using recv_step_method [OF assms(2), of "ConnectionOpen [] [] False"] by (auto simp: GetContent_def)
  let ?p = "p\<lparr>k_in := ins, k_metrics := mx, p_VirtualHost := vhost\<rparr>"
  obtain w where "send_step ''Connection.Open-Ok'' (ConnectionOpenOk []) ?p = (Inr (), sent_upd w 1 ?p)"
    "written w = written (k_w p) @ b"
    using send_step_live [of ?p, OF _ _ b] assms(1) by (auto simp: GetContent_def)
  then show ?thesis
    using b r by (auto simp: handshake_open_def pbind_def)
qed

text \<open>C6. A client that answers the handshake the way the protocol asks for and logs in with \<^verbatim>\<open>PLAIN\<close> is
  let in: it is sent \<^verbatim>\<open>Connection.Start\<close>, \<^verbatim>\<open>Connection.Tune\<close> and
  \<^verbatim>\<open>Connection.Open-Ok\<close>, in this order and nothing else, and the proxy has its user name,
  its password, its virtual host, its properties and the limits it chose, where zero keeps the proxy's
  own limit on channels and frames and turns the heartbeat off.\<close>

theorem handshake_succeeds:
  assumes "live (k_w p)" and "NUL \<notin> set user"
    and "k_in p = Inr (MethodFrame 0 10 11 (Some (ConnectionStartOk props ''PLAIN'' (NUL # user @ NUL # password) loc))) #
      Inr (MethodFrame 0 10 31 (Some (ConnectionTuneOk cm fm hb))) #
      Inr (MethodFrame 0 10 40 (Some (ConnectionOpen vhost r1 r2))) # ins"
  shows "\<exists>p' b1 b2 b3. handshake p = (Inr (), p') \<and>
    p_user p' = user \<and> p_password p' = password \<and> p_VirtualHost p' = vhost \<and> p_clientProps p' = props \<and>
    k_tuned p' = \<lparr>channelMax = (if cm = 0 then channelMax (k_tuned p) else cm),
      frameMax = (if fm = 0 then frameMax (k_tuned p) else fm), heartbeat = hb\<rparr> \<and>
    initHeartbeatTimer p' = (hb \<noteq> 0) \<and> k_in p' = ins \<and>
    MethodFrame_Write 0 (Some (ConnectionStart 0 9 serverProperties ''PLAIN'' ''en_US'')) = Inr b1 \<and>
    MethodFrame_Write 0 (Some (ConnectionTune 1023 131072 60)) = Inr b2 \<and>
    MethodFrame_Write 0 (Some (ConnectionOpenOk [])) = Inr b3 \<and>
    written (k_w p') = written (k_w p) @ b1 @ b2 @ b3"
proof -
  obtain w1 mx1 b1 where 1: "MethodFrame_Write 0 (Some (ConnectionStart 0 9 serverProperties ''PLAIN'' ''en_US'')) = Inr b1"
    "handshake_start p = (Inr (), (sent_upd w1 1 p)\<lparr>k_in := tl (k_in p), k_metrics := mx1, p_clientProps := props,
      p_user := user, p_password := password\<rparr>)" "live w1" "written w1 = written (k_w p) @ b1"
    using handshake_start_ok [OF assms(1,2)] assms(3) by (metis list.sel(3))
  let ?p1 = "(sent_upd w1 1 p)\<lparr>k_in := tl (k_in p), k_metrics := mx1, p_clientProps := props,
      p_user := user, p_password := password\<rparr>"
  obtain w2 mx2 b2 where 2: "MethodFrame_Write 0 (Some (ConnectionTune 1023 131072 60)) = Inr b2"
    "handshake_tune ?p1 = (Inr (), (sent_upd w2 1 ?p1)\<lparr>k_in := tl (tl (k_in p)), k_metrics := mx2,
      k_tuned := tune cm fm hb (k_tuned p)\<rparr>)" "live w2" "written w2 = written w1 @ b2"
    using handshake_tune_ok [of ?p1 10 31 cm fm hb "tl (tl (k_in p))"] assms(3) 1(3) by auto
  let ?p2 = "(sent_upd w2 1 ?p1)\<lparr>k_in := tl (tl (k_in p)), k_metrics := mx2, k_tuned := tune cm fm hb (k_tuned p)\<rparr>"
  obtain w3 mx3 b3 where 3: "MethodFrame_Write 0 (Some (ConnectionOpenOk [])) = Inr b3"
    "handshake_open ?p2 = (Inr (), sent_upd w3 1 (?p2\<lparr>k_in := ins, k_metrics := mx3, p_VirtualHost := vhost\<rparr>))"
    "written w3 = written w2 @ b3"
    using handshake_open_ok [of ?p2 10 40 vhost r1 r2 ins] assms(3) 2(3) by auto
  let ?p3 = "sent_upd w3 1 (?p2\<lparr>k_in := ins, k_metrics := mx3, p_VirtualHost := vhost\<rparr>)"
  have "handshake p = (Inr (), ?p3)"
    using 1(2) 2(2) 3(2) by (simp add: handshake_def pbind_def)
  moreover have "tune cm fm hb (k_tuned p) = \<lparr>channelMax = (if cm = 0 then channelMax (k_tuned p) else cm),
      frameMax = (if fm = 0 then frameMax (k_tuned p) else fm), heartbeat = hb\<rparr>"
    by (simp add: tune_def word_gt_0)
  moreover have "written w3 = written (k_w p) @ b1 @ b2 @ b3"
    using 1(4) 2(4) 3(3) by simp
  ultimately show ?thesis
    by (intro exI [of _ ?p3] exI [of _ b1] exI [of _ b2] exI [of _ b3])
      (simp add: 1(1) 2(1) 3(1) initHeartbeatTimer_def)
qed

theorem handshake_succeeds_witness:
  "\<exists>p'. handshake ((sample_proxy [])\<lparr>k_in :=
      [Inr (MethodFrame 0 10 11 (Some (ConnectionStartOk None ''PLAIN'' (NUL # ''bob'' @ NUL # ''pw'') ''en_US''))),
       Inr (MethodFrame 0 10 31 (Some (ConnectionTuneOk 0 4096 0))),
       Inr (MethodFrame 0 10 40 (Some (ConnectionOpen ''/orders'' [] False)))]\<rparr>) = (Inr (), p') \<and>
    p_user p' = ''bob'' \<and> p_password p' = ''pw'' \<and> p_VirtualHost p' = ''/orders'' \<and>
    k_tuned p' = \<lparr>channelMax = 1023, frameMax = 4096, heartbeat = 0\<rparr> \<and> \<not> initHeartbeatTimer p'"
proof -
  let ?p = "(sample_proxy [])\<lparr>k_in :=
      [Inr (MethodFrame 0 10 11 (Some (ConnectionStartOk None ''PLAIN'' (NUL # ''bob'' @ NUL # ''pw'') ''en_US''))),
       Inr (MethodFrame 0 10 31 (Some (ConnectionTuneOk 0 4096 0))),
       Inr (MethodFrame 0 10 40 (Some (ConnectionOpen ''/orders'' [] False)))]\<rparr>"
  have "live (k_w ?p)" "NUL \<notin> set ''bob''"
    using sample_live [of "[]"] by (simp_all add: NUL_def)
  from handshake_succeeds [OF this, of None "''pw''" "''en_US''" 0 4096 0 "''/orders''" "[]" False "[]"] show ?thesis
    by (auto simp: sample_proxy_def)
qed

definition credentials :: "'w proxy \<Rightarrow> string \<times> string" where
  "credentials p = (p_user p, p_password p)"

lemma steps_keep_credentials: "keeps credentials (send_step what m)" "keeps credentials (recv_step what m)"
proof -
  have "keeps credentials (send 0 m)"
    by (intro send_keeps_of)
      (auto simp: keeps_def credentials_def write_with_def count_sent_def split: prod.splits bool.splits)
  then show "keeps credentials (send_step what m)"
    unfolding send_step_def by (rule keeps_pwrap)
  have "keeps credentials (recv 0 m)"
    by (auto simp: keeps_def recv_def credentials_def split: prod.splits)
  then show "keeps credentials (recv_step what m)"
    unfolding recv_step_def by (rule keeps_pwrap)
qed

lemma rest_keeps_credentials: "keeps credentials (pbind handshake_tune (\<lambda>_. handshake_open) :: ('w, unit) pm)"
proof -
  have "keeps credentials (\<lambda>p :: 'w proxy. case m of ConnectionTuneOk cm fm hb \<Rightarrow>
      (Inr (), p\<lparr>k_tuned := tune cm fm hb (k_tuned p)\<rparr>) | _ \<Rightarrow> (Inl (Panic ''unreachable''), p))" for m
    by (cases m) (simp_all add: keeps_def credentials_def)
  moreover have "keeps credentials (\<lambda>p :: 'w proxy. send_step what x (p\<lparr>p_VirtualHost := v\<rparr>))" for what x v
  proof -
    have "credentials (snd (send_step what x (p\<lparr>p_VirtualHost := v\<rparr>))) = credentials p" for p :: "'w proxy"
      by (subst keeps_snd [OF steps_keep_credentials(1)]) (simp add: credentials_def)
    then show ?thesis by (simp add: keeps_def)
  qed
  then have "keeps credentials (\<lambda>p :: 'w proxy. case m of ConnectionOpen VirtualHost _ _ \<Rightarrow>
      send_step ''Connection.Open-Ok'' (ConnectionOpenOk []) (p\<lparr>p_VirtualHost := VirtualHost\<rparr>)
    | _ \<Rightarrow> (Inl (Panic ''unreachable''), p))" for m
    by (cases m) (simp_all add: keeps_def credentials_def)
  ultimately show ?thesis
    unfolding handshake_tune_def handshake_open_def by (intro keeps_pbind steps_keep_credentials)
qed

text \<open>C7. Nobody gets past the handshake without credentials: when it succeeds, the client's first message was a
  \<^verbatim>\<open>Connection.Start-Ok\<close> with one of the two mechanisms the proxy knows, and the credentials that
  the proxy will use towards the upstreams are those of its response.\<close>

theorem handshake_authenticates:
  assumes "handshake p = (Inr (), p')"
  shows "\<exists>q props mech resp loc.
    recv_step ''Connection.Start-Ok'' (ConnectionStartOk None [] [] [])
      (snd (send_step ''Connection.Start'' (ConnectionStart 0 9 serverProperties ''PLAIN'' ''en_US'') p)) =
        (Inr (ConnectionStartOk props mech resp loc), q) \<and>
    (mech = ''PLAIN'' \<and> ParsePLAINAuthResponse resp = Inr (p_user p', p_password p') \<or>
     mech = ''AMQPLAIN'' \<and> ParseAMQPLAINAuthResponse resp = Some (Inr (p_user p', p_password p')))"
proof -
  obtain p1 where 1: "handshake_start p = (Inr (), p1)" "pbind handshake_tune (\<lambda>_. handshake_open) p1 = (Inr (), p')"
    using assms unfolding handshake_def by (rule pbind_InrE) auto
  have c: "credentials p' = credentials p1"
    using keepsD [OF rest_keeps_credentials 1(2)] .
  obtain q0 m q where s: "send_step ''Connection.Start'' (ConnectionStart 0 9 serverProperties ''PLAIN'' ''en_US'') p = (Inr (), q0)"
    and r: "recv_step ''Connection.Start-Ok'' (ConnectionStartOk None [] [] []) q0 = (Inr m, q)"
    and a: "(case m of ConnectionStartOk ClientProperties Mechanism Response _ \<Rightarrow>
        authenticate Mechanism Response (q\<lparr>p_clientProps := ClientProperties\<rparr>)
      | _ \<Rightarrow> (Inl (Panic ''unreachable''), q)) = (Inr (), p1)"
    using 1(1) unfolding handshake_start_def by (elim pbind_InrE) auto
  from a obtain props mech resp loc where m: "m = ConnectionStartOk props mech resp loc"
    and au: "authenticate mech resp (q\<lparr>p_clientProps := props\<rparr>) = (Inr (), p1)"
    by (cases m) auto
  have "mech = ''PLAIN'' \<and> ParsePLAINAuthResponse resp = Inr (p_user p1, p_password p1) \<or>
     mech = ''AMQPLAIN'' \<and> ParseAMQPLAINAuthResponse resp = Some (Inr (p_user p1, p_password p1))"
    using au by (auto simp: authenticate_def Let_def split: if_splits sum.splits auth_error.splits option.splits prod.splits)
  then show ?thesis
    using s r m c by (auto simp: credentials_def)
qed

theorem handshake_authenticates_witness:
  "\<exists>(p :: lib_call list proxy) q r mech resp loc. handshake p = (Inr (), q) \<and>
    recv_step ''Connection.Start-Ok'' (ConnectionStartOk None [] [] [])
      (snd (send_step ''Connection.Start'' (ConnectionStart 0 9 serverProperties ''PLAIN'' ''en_US'') p)) =
        (Inr (ConnectionStartOk None mech resp loc), r) \<and> mech = ''PLAIN'' \<and> k_in r \<noteq> [] \<and>
    ParsePLAINAuthResponse resp = Inr (p_user q, p_password q)"
proof -
  let ?m = "ConnectionStartOk None ''PLAIN'' (NUL # ''bob'' @ NUL # ''pw'') ''en_US''"
  let ?ins = "[Inr (MethodFrame 0 10 31 (Some (ConnectionTuneOk 0 4096 0))),
       Inr (MethodFrame 0 10 40 (Some (ConnectionOpen ''/orders'' [] False)))]"
  let ?p = "(sample_proxy [])\<lparr>k_in := Inr (MethodFrame 0 10 11 (Some ?m)) # ?ins\<rparr>"
  have bob: "NUL \<notin> set ''bob''" by (simp add: NUL_def)
  obtain w1 mx1 where 1: "handshake_start ?p = (Inr (), (sent_upd w1 1 ?p)\<lparr>k_in := ?ins, k_metrics := mx1,
      p_clientProps := None, p_user := ''bob'', p_password := ''pw''\<rparr>)" "live w1"
    using handshake_start_ok [OF _ bob, of ?p 10 11 None "''pw''" "''en_US''" ?ins] sample_live [of "[]"] by auto
  let ?p1 = "(sent_upd w1 1 ?p)\<lparr>k_in := ?ins, k_metrics := mx1, p_clientProps := None, p_user := ''bob'',
      p_password := ''pw''\<rparr>"
  obtain w2 mx2 where 2: "handshake_tune ?p1 = (Inr (), (sent_upd w2 1 ?p1)\<lparr>k_in := tl ?ins, k_metrics := mx2,
      k_tuned := tune 0 4096 0 (k_tuned ?p1)\<rparr>)" "live w2"
    using handshake_tune_ok [of ?p1 10 31 0 4096 0 "tl ?ins"] 1(2) by auto
  let ?p2 = "(sent_upd w2 1 ?p1)\<lparr>k_in := tl ?ins, k_metrics := mx2, k_tuned := tune 0 4096 0 (k_tuned ?p1)\<rparr>"
  obtain p3 where 3: "handshake_open ?p2 = (Inr (), p3)"
    using handshake_open_ok [of ?p2 10 40 "''/orders''" "[]" False "[]"] 2(2) by auto
  have h: "handshake ?p = (Inr (), p3)"
    using 1(1) 2(1) 3 by (simp add: handshake_def pbind_def)
  obtain b where b: "MethodFrame_Write 0 (Some (ConnectionStart 0 9 serverProperties ''PLAIN'' ''en_US'')) = Inr b"
    using Start_writes by blast
  obtain w where "send_step ''Connection.Start'' (ConnectionStart 0 9 serverProperties ''PLAIN'' ''en_US'') ?p =
      (Inr (), sent_upd w 1 ?p)"
    by (rule send_step_live [of ?p, OF _ _ b]) (use sample_live [of "[]"] in \<open>auto simp: GetContent_def\<close>)
  moreover obtain mx where "recv_step ''Connection.Start-Ok'' (ConnectionStartOk None [] [] []) (sent_upd w 1 ?p) =
      (Inr ?m, (sent_upd w 1 ?p)\<lparr>k_in := ?ins, k_metrics := mx\<rparr>)"
    using recv_step_method [of "sent_upd w 1 ?p" 10 11 ?m ?ins "ConnectionStartOk None [] [] []"]
    by (auto simp: GetContent_def)
  ultimately have r: "recv_step ''Connection.Start-Ok'' (ConnectionStartOk None [] [] [])
      (snd (send_step ''Connection.Start'' (ConnectionStart 0 9 serverProperties ''PLAIN'' ''en_US'') ?p)) =
        (Inr ?m, (sent_upd w 1 ?p)\<lparr>k_in := ?ins, k_metrics := mx\<rparr>)"
    by (simp only: snd_conv)
  have c: "ParsePLAINAuthResponse (NUL # ''bob'' @ NUL # ''pw'') = Inr (p_user p3, p_password p3)"
    using handshake_authenticates [OF h] unfolding r by simp
  show ?thesis
    by (intro exI conjI, rule h, rule r) (use c in simp_all)
qed

end
