(* ===== verification/Health.thy ===== *)
theory Health
  imports Config Metrics
begin

text \<open>
  Health checks of cluster nodes: \<^verbatim>\<open>src/health/health.go\<close>. Time is an integer of
  nanoseconds that the caller passes on; whether a node can be dialled at a check is an argument,
  since dialling is the client library's. The checks of one round run concurrently, each on the
  state of its own node, so a round is a map over the nodes.
\<close>

section \<open>Nodes\<close>

datatype Status = StatusUnknown | StatusHealthy | StatusUnhealthy

primrec Status_String :: "Status \<Rightarrow> string" where
  "Status_String StatusUnknown = ''unknown''"
| "Status_String StatusHealthy = ''healthy''"
| "Status_String StatusUnhealthy = ''unhealthy''"

record NodeStatus =
  ns_Address :: string
  ns_Status :: Status
  ns_LastCheck :: int
  ns_LastSuccess :: int
  ns_ConsecutiveFails :: int

definition SetHealthy :: "int \<Rightarrow> NodeStatus \<Rightarrow> NodeStatus" where
  "SetHealthy now n = n\<lparr>ns_Status := StatusHealthy, ns_LastCheck := now, ns_LastSuccess := now, ns_ConsecutiveFails := 0\<rparr>"

definition SetUnhealthy :: "int \<Rightarrow> NodeStatus \<Rightarrow> NodeStatus" where
  "SetUnhealthy now n = n\<lparr>ns_Status := StatusUnhealthy, ns_LastCheck := now,
     ns_ConsecutiveFails := ns_ConsecutiveFails n + 1\<rparr>"

definition IncrementFails :: "int \<Rightarrow> NodeStatus \<Rightarrow> NodeStatus" where
  "IncrementFails now n = n\<lparr>ns_ConsecutiveFails := ns_ConsecutiveFails n + 1, ns_LastCheck := now\<rparr>"

section \<open>The manager\<close>

record HealthConfig =
  hc'_Interval :: duration
  hc'_Timeout :: duration
  hc'_UnhealthyThreshold :: int
  hc'_RecoveryInterval :: duration

text \<open>\<open>m_ctx\<close> is the context the background check runs under, once it has been started.\<close>

record Manager =
  m_name :: string
  m_nodes :: "(string \<times> NodeStatus) list"
  m_config :: HealthConfig
  m_username :: string
  m_password :: string
  m_ctx :: "nat option"

definition or_positive :: "int \<Rightarrow> int \<Rightarrow> int" where
  "or_positive x d = (if x > 0 then x else d)"

definition NewManager :: "UpstreamConfig \<Rightarrow> Manager option" where
  "NewManager upstream =
     (case (uc_Cluster upstream, uc_HealthCheck upstream) of
        (Some nodes, Some hc) \<Rightarrow>
          if length nodes = 0 then None
          else Some \<lparr>m_name = uc_Name upstream,
            m_nodes = fold (\<lambda>addr. AList.update addr \<lparr>ns_Address = addr, ns_Status = StatusUnknown, ns_LastCheck = 0,
              ns_LastSuccess = 0, ns_ConsecutiveFails = 0\<rparr>) nodes [],
            m_config = \<lparr>hc'_Interval = or_positive (hc_Interval hc) (30 * Second),
              hc'_Timeout = or_positive (hc_Timeout hc) (5 * Second),
              hc'_UnhealthyThreshold = or_positive (hc_UnhealthyThreshold hc) 3,
              hc'_RecoveryInterval = or_positive (hc_RecoveryInterval hc) (60 * Second)\<rparr>,
            m_username = hc_Username hc, m_password = hc_Password hc, m_ctx = None\<rparr>
      | _ \<Rightarrow> None)"

definition checkNode :: "HealthConfig \<Rightarrow> bool \<Rightarrow> int \<Rightarrow> bool \<Rightarrow> NodeStatus \<Rightarrow> NodeStatus" where
  "checkNode cfg failFast now reachable node =
     (let threshold = (if failFast then 1 else hc'_UnhealthyThreshold cfg) in
      if \<not> failFast \<and> ns_Status node = StatusUnhealthy \<and> now - ns_LastCheck node < hc'_RecoveryInterval cfg then node
      else if \<not> reachable then
        (let node = IncrementFails now node in
         if ns_ConsecutiveFails node \<ge> threshold then SetUnhealthy now node else node)
      else SetHealthy now node)"

definition getHealthSummary :: "Manager \<Rightarrow> int \<times> int" where
  "getHealthSummary m =
     (int (length (filter (\<lambda>(_, n). ns_Status n = StatusHealthy \<or> ns_Status n = StatusUnknown) (m_nodes m))),
      int (length (filter (\<lambda>(_, n). ns_Status n = StatusUnhealthy) (m_nodes m))))"

definition check_round :: "bool \<Rightarrow> int \<Rightarrow> (string \<Rightarrow> bool) \<Rightarrow> Manager \<Rightarrow> Metrics \<Rightarrow> Manager \<times> Metrics" where
  "check_round failFast now reachable m mx =
     (let m = m\<lparr>m_nodes := map (\<lambda>(addr, n). (addr, checkNode (m_config m) failFast now (reachable addr) n)) (m_nodes m)\<rparr>;
          (healthy, unhealthy) = getHealthSummary m
      in (m, SetUnhealthyNodes (m_name m) unhealthy (SetHealthyNodes (m_name m) healthy mx)))"

definition checkAllNodes :: "int \<Rightarrow> (string \<Rightarrow> bool) \<Rightarrow> Manager \<Rightarrow> Metrics \<Rightarrow> Manager \<times> Metrics" where
  "checkAllNodes = check_round False"

definition checkAllNodesInitial :: "int \<Rightarrow> (string \<Rightarrow> bool) \<Rightarrow> Manager \<Rightarrow> Metrics \<Rightarrow> Manager \<times> Metrics" where
  "checkAllNodesInitial = check_round True"

definition StartHealthCheck :: "nat \<Rightarrow> int \<Rightarrow> (string \<Rightarrow> bool) \<Rightarrow> Manager \<Rightarrow> Metrics \<Rightarrow> Manager \<times> Metrics" where
  "StartHealthCheck ctx now reachable m mx =
     (case checkAllNodesInitial now reachable m mx of (m, mx) \<Rightarrow> (m\<lparr>m_ctx := Some ctx\<rparr>, mx))"

text \<open>A tick of the background goroutine: it checks all nodes as long as its context is not done.\<close>

definition health_tick :: "nat set \<Rightarrow> int \<Rightarrow> (string \<Rightarrow> bool) \<Rightarrow> Manager \<Rightarrow> Metrics \<Rightarrow> Manager \<times> Metrics" where
  "health_tick done_ctxs now reachable m mx =
     (case m_ctx m of
        None \<Rightarrow> (m, mx)
      | Some ctx \<Rightarrow> if ctx \<in> done_ctxs then (m, mx) else checkAllNodes now reachable m mx)"

definition Manager_Stop :: "Manager \<Rightarrow> Manager" where
  "Manager_Stop m = m\<lparr>m_ctx := None\<rparr>"

definition GetHealthyNodes :: "Manager \<Rightarrow> string list" where
  "GetHealthyNodes m =
     (let healthy = map fst (filter (\<lambda>(_, n). ns_Status n = StatusHealthy \<or> ns_Status n = StatusUnknown) (m_nodes m))
      in if healthy = [] then map fst (m_nodes m) else healthy)"

section \<open>Correctness\<close>

lemma status_cases: "ns_Status n = StatusHealthy \<or> ns_Status n = StatusUnknown \<longleftrightarrow> ns_Status n \<noteq> StatusUnhealthy"
  by (cases "ns_Status n") auto

lemma filter_status:
  "filter (\<lambda>(_, n). ns_Status n = StatusHealthy \<or> ns_Status n = StatusUnknown) ns =
   filter (\<lambda>x. \<not> ns_Status (snd x) = StatusUnhealthy) ns"
  by (rule filter_cong) (auto simp: status_cases)

text \<open>A run of a manager: the initial round and the rounds of the ticks.\<close>

definition health_run :: "nat \<Rightarrow> (int \<times> (string \<Rightarrow> bool)) list \<Rightarrow> Manager \<Rightarrow> Metrics \<Rightarrow> Manager \<times> Metrics" where
  "health_run ctx rounds m mx =
     (case rounds of
        [] \<Rightarrow> (m, mx)
      | (now, reachable) # rest \<Rightarrow>
          fold (\<lambda>(now, reachable) (m, mx). checkAllNodes now reachable m mx) rest (StartHealthCheck ctx now reachable m mx))"

lemma check_round_nodes:
  "check_round ff now r m mx = (m', mx') \<Longrightarrow> map fst (m_nodes m') = map fst (m_nodes m) \<and> m_name m' = m_name m \<and>
    WithLabelValues (UpstreamHealthyNodes mx') (m_name m) = word_of_int (fst (getHealthSummary m')) \<and>
    WithLabelValues (UpstreamUnhealthyNodes mx') (m_name m) = word_of_int (snd (getHealthSummary m'))"
  by (auto simp: check_round_def Let_def SetHealthyNodes_def SetUnhealthyNodes_def WithLabelValues_on_label
      comp_def split_def)

lemma check_rounds_nodes:
  assumes "fold (\<lambda>(now, r) (m, mx). checkAllNodes now r m mx) rounds (m, mx) = (m', mx')"
    and "WithLabelValues (UpstreamHealthyNodes mx) (m_name m) = word_of_int (fst (getHealthSummary m))"
    and "WithLabelValues (UpstreamUnhealthyNodes mx) (m_name m) = word_of_int (snd (getHealthSummary m))"
  shows "map fst (m_nodes m') = map fst (m_nodes m) \<and> m_name m' = m_name m \<and>
    WithLabelValues (UpstreamHealthyNodes mx') (m_name m) = word_of_int (fst (getHealthSummary m')) \<and>
    WithLabelValues (UpstreamUnhealthyNodes mx') (m_name m) = word_of_int (snd (getHealthSummary m'))"
  using assms
proof (induction rounds arbitrary: m mx)
  case (Cons r rounds)
  obtain now reach where r: "r = (now, reach)" by (cases r)
  obtain m1 mx1 where c: "check_round False now reach m mx = (m1, mx1)" by fastforce
  have "fold (\<lambda>(now, r) (m, mx). checkAllNodes now r m mx) rounds (m1, mx1) = (m', mx')"
    using Cons.prems(1) r c by (simp add: checkAllNodes_def)
  from Cons.IH [OF this] show ?case
    using check_round_nodes [OF c] by simp
qed simp

lemma NewManager_nodes:
  assumes "NewManager u = Some m"
  shows "set (map fst (m_nodes m)) = set (Addresses u)" "Addresses u \<noteq> []"
proof -
  obtain nodes where n: "uc_Cluster u = Some nodes" "nodes \<noteq> []"
    using assms by (auto simp: NewManager_def split: option.splits if_splits)
  have keys: "set (map fst (fold (\<lambda>addr. AList.update addr (f addr)) nodes al)) = set (map fst al) \<union> set nodes"
    for f :: "string \<Rightarrow> NodeStatus" and al
    by (induction nodes arbitrary: al) (simp_all add: AList.dom_update)
  obtain f where "m_nodes m = fold (\<lambda>addr. AList.update addr (f addr)) nodes []"
    using assms n by (auto simp: NewManager_def split: option.splits if_splits)
  then show "set (map fst (m_nodes m)) = set (Addresses u)" "Addresses u \<noteq> []"
    using n keys by (simp_all add: Addresses_def)
qed

text \<open>A checked cluster always has nodes to offer: the nodes offered are nodes of the cluster, there is at least
  one, and none of them is known to be unhealthy unless all of them are. The two gauges of the cluster
  hold the numbers of the last round and add up to the number of nodes.\<close>

theorem healthy_nodes_offered:
  assumes "NewManager u = Some m" and "health_run ctx (r # rounds) m mx = (m', mx')"
  shows "GetHealthyNodes m' \<noteq> [] \<and> set (GetHealthyNodes m') \<subseteq> set (Addresses u) \<and>
    (filter (\<lambda>(_, n). ns_Status n \<noteq> StatusUnhealthy) (m_nodes m') \<noteq> [] \<longrightarrow>
      GetHealthyNodes m' = map fst (filter (\<lambda>(_, n). ns_Status n \<noteq> StatusUnhealthy) (m_nodes m'))) \<and>
    WithLabelValues (UpstreamHealthyNodes mx') (m_name m) + WithLabelValues (UpstreamUnhealthyNodes mx') (m_name m) =
      word_of_nat (length (m_nodes m))"
proof -
  obtain now reach where r: "r = (now, reach)" by (cases r)
  obtain m1 mx1 where c: "check_round True now reach m mx = (m1, mx1)" by fastforce
  have "fold (\<lambda>(now, r) (m, mx). checkAllNodes now r m mx) rounds (m1\<lparr>m_ctx := Some ctx\<rparr>, mx1) = (m', mx')"
    using assms(2) r c by (simp add: health_run_def StartHealthCheck_def checkAllNodesInitial_def)
  from check_rounds_nodes [OF this] have m': "map fst (m_nodes m') = map fst (m_nodes m)"
    "WithLabelValues (UpstreamHealthyNodes mx') (m_name m) = word_of_int (fst (getHealthSummary m'))"
    "WithLabelValues (UpstreamUnhealthyNodes mx') (m_name m) = word_of_int (snd (getHealthSummary m'))"
    using check_round_nodes [OF c] by (simp_all add: getHealthSummary_def)
  let ?ok = "\<lambda>x :: string \<times> NodeStatus. ns_Status (snd x) = StatusUnhealthy"
  have len: "length (filter (\<lambda>x. \<not> ?ok x) (m_nodes m')) + length (filter ?ok (m_nodes m')) = length (m_nodes m)"
    using sum_length_filter_compl [of ?ok "m_nodes m'"] arg_cong [OF m'(1), of length] by simp
  have "set (GetHealthyNodes m') \<subseteq> set (map fst (m_nodes m'))"
    by (auto simp: GetHealthyNodes_def Let_def)
  moreover have "GetHealthyNodes m' \<noteq> []"
    using NewManager_nodes [OF assms(1)] m'(1) by (auto simp: GetHealthyNodes_def Let_def)
  moreover have "filter (\<lambda>(_, n). ns_Status n \<noteq> StatusUnhealthy) (m_nodes m') = filter (\<lambda>x. \<not> ?ok x) (m_nodes m')"
    by (simp add: split_def)
  moreover have "word_of_int (fst (getHealthSummary m')) + word_of_int (snd (getHealthSummary m')) =
      (word_of_nat (length (m_nodes m)) :: u64)"
    by (simp add: getHealthSummary_def split_def status_cases flip: len)
  ultimately show ?thesis
    using NewManager_nodes [OF assms(1)] m'
    by (auto simp: GetHealthyNodes_def Let_def filter_status)
qed



text \<open>An isolated node is left alone until the recovery interval has passed and comes back with the first check
  after it that reaches the node; a failed one only starts the interval again.\<close>

theorem node_recovers:
  assumes "ns_Status n = StatusUnhealthy"
  shows "checkNode cfg False now reachable n =
    (if now - ns_LastCheck n < hc'_RecoveryInterval cfg then n
     else if reachable then n\<lparr>ns_Status := StatusHealthy, ns_LastCheck := now, ns_LastSuccess := now, ns_ConsecutiveFails := 0\<rparr>
     else n\<lparr>ns_LastCheck := now, ns_ConsecutiveFails := ns_ConsecutiveFails n +
       (if ns_ConsecutiveFails n + 1 < hc'_UnhealthyThreshold cfg then 1 else 2)\<rparr>)"
  using assms by (simp add: checkNode_def Let_def SetHealthy_def IncrementFails_def SetUnhealthy_def)

theorem node_recovers_witness:
  "ns_Status (checkNode \<lparr>hc'_Interval = 30, hc'_Timeout = 5, hc'_UnhealthyThreshold = 3, hc'_RecoveryInterval = 60\<rparr> False 160 True
     \<lparr>ns_Address = ''a:5672'', ns_Status = StatusUnhealthy, ns_LastCheck = 90, ns_LastSuccess = 0, ns_ConsecutiveFails = 4\<rparr>) =
   StatusHealthy"
  by (subst node_recovers) simp_all

definition sample_cluster :: UpstreamConfig where
  "sample_cluster = \<lparr>uc_Name = ''primary'', uc_Address = [], uc_Cluster = Some [''a:5672'', ''b:5672''], uc_Timeout = 0,
     uc_HealthCheck = Some \<lparr>hc_Interval = 0, hc_Timeout = 0, hc_UnhealthyThreshold = 0, hc_RecoveryInterval = 0,
       hc_Username = ''u'', hc_Password = ''p''\<rparr>,
     uc_KeyPatterns = [], uc_QueueAttributes = None, uc_QueueOptions = None\<rparr>"

theorem healthy_nodes_offered_witness:
  "\<exists>m m' mx'. NewManager sample_cluster = Some m \<and>
    health_run 0 [(0, \<lambda>a. a = ''b:5672'')] m NewMetrics = (m', mx') \<and> GetHealthyNodes m' = [''b:5672'']"
proof -
  obtain m where m: "NewManager sample_cluster = Some m"
    by (simp add: NewManager_def sample_cluster_def)
  obtain m' mx' where r: "health_run 0 [(0, \<lambda>a. a = ''b:5672'')] m NewMetrics = (m', mx')" by fastforce
  have "filter (\<lambda>(_, n). ns_Status n \<noteq> StatusUnhealthy) (m_nodes m') \<noteq> []"
    "map fst (filter (\<lambda>(_, n). ns_Status n \<noteq> StatusUnhealthy) (m_nodes m')) = [''b:5672'']"
    using m r by (auto simp: NewManager_def sample_cluster_def health_run_def StartHealthCheck_def checkAllNodesInitial_def
        check_round_def Let_def checkNode_def IncrementFails_def SetUnhealthy_def SetHealthy_def split: prod.splits)
  with healthy_nodes_offered [OF m r] m r show ?thesis by simp
qed

end
