(* ===== verification/Server.thy ===== *)
theory Server
  imports Session Health Log_Buffer
begin

text \<open>
  The server: \<^verbatim>\<open>src/server.go\<close>. It keeps the configuration, the proxies that are connected,
  the probe logs of those that have gone and the health managers, and handles every connection in a
  goroutine of its own.

  The objects that goroutines share are shared in the model too: a connection is referred to by its
  number in \<open>sv_conns\<close>, which is what the registry, the cache of retained logs and the API hold, and the
  metrics and the world of the upstreams are those of the server, lent to a connection for each of its
  steps. The hash of a configuration, the LRU cache and the rate limiter are not code of the
  repository and are arguments.
\<close>

section \<open>State\<close>

definition ShutdownMsgServerShutdown :: string where "ShutdownMsgServerShutdown = ''Server shutting down''"
definition ShutdownMsgConfigUpdate :: string where
  "ShutdownMsgConfigUpdate = ''Configuration updated, please reconnect''"
definition ShutdownMsgDefault :: string where "ShutdownMsgDefault = ''Connection closed''"
definition ProbeLogBufferSize :: nat where "ProbeLogBufferSize = 100"
definition ProbeLogRetentionSize :: nat where "ProbeLogRetentionSize = 1000"

text \<open>How far \<^verbatim>\<open>handleConnection\<close> has come with a connection that sent the right header.\<close>

datatype phase = Handshaking | Connecting | Serving | Closed

record ('w, 'a) conn =
  cn_id :: string
  cn_configHash :: string
  cn_connectedAt :: nat
  cn_session :: "'w session"
  cn_probe :: "'a probe_state"
  cn_phase :: phase
  cn_cancelled :: bool

text \<open>A disconnection that a goroutine has still to carry out: all proxies, or those with another hash.\<close>

record job =
  jb_message :: string
  jb_rateLimit :: int
  jb_burstSize :: int
  jb_hash :: "string option"

record ('w, 'a, 'c) server =
  sv_config :: ConfigData
  sv_configHash :: string
  sv_active :: "(string \<times> nat) list"
  sv_retained :: 'c
  sv_health :: "(string \<times> Manager) list"
  sv_conns :: "('w, 'a) conn list"
  sv_jobs :: "job list"
  sv_stopped :: bool
  sv_metrics :: Metrics
  sv_world :: 'w

text \<open>The operations of the LRU cache that the server calls.\<close>

record 'c lru =
  lru_New :: "nat \<Rightarrow> 'c"
  lru_Add :: "string \<Rightarrow> nat \<Rightarrow> 'c \<Rightarrow> 'c"
  lru_Get :: "string \<Rightarrow> 'c \<Rightarrow> nat option \<times> 'c"
  lru_Keys :: "'c \<Rightarrow> string list"

definition NewServer :: "'c lru \<Rightarrow> (ConfigData \<Rightarrow> string) \<Rightarrow> ConfigData \<Rightarrow> 'w \<Rightarrow> ('w, 'a, 'c) server" where
  "NewServer lru Hash config w = \<lparr>sv_config = config, sv_configHash = Hash config, sv_active = [],
     sv_retained = lru_New lru ProbeLogRetentionSize, sv_health = [], sv_conns = [], sv_jobs = [],
     sv_stopped = False, sv_metrics = NewMetrics, sv_world = w\<rparr>"

definition UpdateConfig :: "(ConfigData \<Rightarrow> string) \<Rightarrow> ConfigData \<Rightarrow> ('w, 'a, 'c) server \<Rightarrow> ('w, 'a, 'c) server" where
  "UpdateConfig Hash config s = s\<lparr>sv_config := config, sv_configHash := Hash config\<rparr>"

section \<open>Lending the shared state to a connection\<close>

definition borrow :: "('w, 'a, 'c) server \<Rightarrow> 'w session \<Rightarrow> 'w session" where
  "borrow s ss = ss\<lparr>ss_proxy := (ss_proxy ss)\<lparr>k_metrics := sv_metrics s, p_world := sv_world s\<rparr>\<rparr>"

definition on_conn :: "nat \<Rightarrow> (('w, 'a) conn \<Rightarrow> ('w, 'a) conn) \<Rightarrow> ('w, 'a, 'c) server \<Rightarrow> ('w, 'a, 'c) server" where
  "on_conn a f s = s\<lparr>sv_conns := (sv_conns s)[a := f (sv_conns s ! a)]\<rparr>"

definition on_session :: "nat \<Rightarrow> ('w session \<Rightarrow> 'w session) \<Rightarrow> ('w, 'a, 'c) server \<Rightarrow> ('w, 'a, 'c) server" where
  "on_session a f s =
     (let ss = f (borrow s (cn_session (sv_conns s ! a))) in
      (on_conn a (\<lambda>c. c\<lparr>cn_session := ss\<rparr>) s)\<lparr>sv_metrics := k_metrics (ss_proxy ss), sv_world := p_world (ss_proxy ss)\<rparr>)"

definition on_proxy :: "nat \<Rightarrow> ('w, 'b) pm \<Rightarrow> ('w, 'a, 'c) server \<Rightarrow> (perr + 'b) \<times> ('w, 'a, 'c) server" where
  "on_proxy a m s =
     (case m (ss_proxy (borrow s (cn_session (sv_conns s ! a)))) of
        (r, p) \<Rightarrow> (r, on_session a (\<lambda>ss. ss\<lparr>ss_proxy := p\<rparr>) s))"

definition the_proxy :: "('w, 'a) conn \<Rightarrow> 'w proxy" where
  "the_proxy c = ss_proxy (cn_session c)"

definition on_metrics :: "(Metrics \<Rightarrow> Metrics) \<Rightarrow> ('w, 'a, 'c) server \<Rightarrow> ('w, 'a, 'c) server" where
  "on_metrics f s = s\<lparr>sv_metrics := f (sv_metrics s)\<rparr>"

section \<open>Proxies come and go\<close>

definition NewProxy :: "'w runtime \<Rightarrow> nat \<Rightarrow> string \<Rightarrow> cwriter \<Rightarrow> (read_fail + frame) list \<Rightarrow>
    ('w, 'a, 'c) server \<Rightarrow> ('w, 'a, 'c) server" where
  "NewProxy rt now addr out ins s =
     (case generateID rt (sv_world s) of (i, w) \<Rightarrow>
        s\<lparr>sv_world := w, sv_conns := sv_conns s @ [
          \<lparr>cn_id = i, cn_configHash = sv_configHash s, cn_connectedAt = now,
            cn_session = \<lparr>ss_proxy = \<lparr>k_w = out, k_in = ins,
                k_tuned = \<lparr>channelMax = ChannelMax, frameMax = FrameMax, heartbeat = HeartbeatInterval\<rparr>,
                k_stats = NewProxyStats, k_metrics = sv_metrics s, p_upstreams = [], p_user = [], p_password = [],
                p_VirtualHost = [], p_clientProps = None, p_confirmStates = [], p_heap = [], p_listeners = [],
                p_consumers = [], p_shutdownMessage = ShutdownMsgDefault, p_clientAddr = addr, p_world = w\<rparr>,
              ss_disconnects = [], ss_heartbeat = False, ss_returned = [], ss_status = Running\<rparr>,
            cn_probe = \<lparr>ps_buffer = NewProbeLogBuffer ProbeLogBufferSize, ps_chan = []\<rparr>,
            cn_phase = Handshaking, cn_cancelled = False\<rparr>]\<rparr>)"

definition RegisterProxy :: "'w runtime \<Rightarrow> nat \<Rightarrow> ('w, 'a, 'c) server \<Rightarrow> ('w, 'a, 'c) server" where
  "RegisterProxy rt a s =
     (let c = sv_conns s ! a; p = the_proxy c in
      (on_conn a (\<lambda>c. c\<lparr>cn_probe := (cn_probe c)\<lparr>ps_buffer :=
          SetProxyInfo (p_clientAddr p) (p_user p) (p_VirtualHost p) (ClientBanner rt p) (cn_connectedAt c)
            (ps_buffer (cn_probe c))\<rparr>\<rparr>) s)\<lparr>sv_active := AList.update (cn_id c) a (sv_active s)\<rparr>)"

definition UnregisterProxy :: "'c lru \<Rightarrow> nat \<Rightarrow> nat \<Rightarrow> ('w, 'a, 'c) server \<Rightarrow> ('w, 'a, 'c) server" where
  "UnregisterProxy lru now a s =
     (let c = sv_conns s ! a in
      (on_conn a (\<lambda>c. c\<lparr>cn_probe := (cn_probe c)\<lparr>ps_buffer := MarkInactive now (ps_buffer (cn_probe c))\<rparr>\<rparr>) s)
        \<lparr>sv_active := AList.delete (cn_id c) (sv_active s), sv_retained := lru_Add lru (cn_id c) a (sv_retained s)\<rparr>)"

definition GetProbeLogBuffer :: "'c lru \<Rightarrow> string \<Rightarrow> ('w, 'a, 'c) server \<Rightarrow>
    'a ProbeLogBuffer option \<times> ('w, 'a, 'c) server" where
  "GetProbeLogBuffer lru proxyID s =
     (case map_of (sv_active s) proxyID of
        Some a \<Rightarrow> (Some (ps_buffer (cn_probe (sv_conns s ! a))), s)
      | None \<Rightarrow> (case lru_Get lru proxyID (sv_retained s) of
          (r, cache) \<Rightarrow> (map_option (\<lambda>a. ps_buffer (cn_probe (sv_conns s ! a))) r, s\<lparr>sv_retained := cache\<rparr>)))"

definition GetHealthManager :: "string \<Rightarrow> ('w, 'a, 'c) server \<Rightarrow> Manager option" where
  "GetHealthManager upstreamName s = map_of (sv_health s) upstreamName"

definition GetProxy :: "string \<Rightarrow> ('w, 'a, 'c) server \<Rightarrow> 'w proxy option" where
  "GetProxy proxyID s = map_option (\<lambda>a. the_proxy (sv_conns s ! a)) (map_of (sv_active s) proxyID)"

definition CountActiveProxies :: "('w, 'a, 'c) server \<Rightarrow> nat" where
  "CountActiveProxies s = length (sv_active s)"

section \<open>Disconnecting\<close>

definition setShutdownMessage :: "string \<Rightarrow> ('w, 'a) conn \<Rightarrow> ('w, 'a) conn" where
  "setShutdownMessage msg c = c\<lparr>cn_session := (cn_session c)\<lparr>ss_proxy := (the_proxy c)\<lparr>p_shutdownMessage := msg\<rparr>\<rparr>\<rparr>"

definition cancel :: "('w, 'a) conn \<Rightarrow> ('w, 'a) conn" where
  "cancel c = c\<lparr>cn_cancelled := True\<rparr>"

text \<open>
  \<^verbatim>\<open>disconnectProxies\<close>: the goroutine sets the message of all its targets and hands their
  cancel functions to workers. A worker drops a cancel function when the limiter refuses to wait;
  \<open>wait rate burst n\<close> says whether the wait for the \<open>n\<close>th one succeeds.
\<close>

definition disconnect_limits :: "nat \<Rightarrow> int \<Rightarrow> int \<Rightarrow> int \<times> int" where
  "disconnect_limits n rateLimit burstSize = (if n \<le> 10 then (1000, 100) else (rateLimit, burstSize))"

definition disconnectProxies :: "(int \<Rightarrow> int \<Rightarrow> nat \<Rightarrow> bool) \<Rightarrow> string \<Rightarrow> int \<Rightarrow> int \<Rightarrow> (('w, 'a) conn \<Rightarrow> bool) \<Rightarrow>
    ('w, 'a, 'c) server \<Rightarrow> nat \<times> ('w, 'a, 'c) server" where
  "disconnectProxies wait shutdownMessage rateLimit burstSize pred s =
     (let targets = filter (\<lambda>a. pred (sv_conns s ! a)) (map snd (sv_active s));
          s1 = fold (\<lambda>a. on_conn a (setShutdownMessage shutdownMessage)) targets s;
          (limit, burst) = disconnect_limits (length targets) rateLimit burstSize;
          s2 = fold (\<lambda>(n, a) s. if wait limit burst n then on_conn a cancel s else s) (enumerate 0 targets) s1
      in (length targets, s2))"

definition disconnectOutdatedProxies :: "string \<Rightarrow> ('w, 'a, 'c) server \<Rightarrow> ('w, 'a, 'c) server option" where
  "disconnectOutdatedProxies currentConfigHash s =
     (if length currentConfigHash < 8 then None
      else Some (s\<lparr>sv_jobs := sv_jobs s @ [\<lparr>jb_message = ShutdownMsgConfigUpdate,
        jb_rateLimit = gs_RateLimit (c_GracefulShutdown (sv_config s)),
        jb_burstSize = gs_BurstSize (c_GracefulShutdown (sv_config s)), jb_hash = Some currentConfigHash\<rparr>]\<rparr>))"

definition disconnectAllProxies :: "('w, 'a, 'c) server \<Rightarrow> ('w, 'a, 'c) server" where
  "disconnectAllProxies s = s\<lparr>sv_jobs := sv_jobs s @ [\<lparr>jb_message = ShutdownMsgServerShutdown,
     jb_rateLimit = gs_RateLimit (c_GracefulShutdown (sv_config s)),
     jb_burstSize = gs_BurstSize (c_GracefulShutdown (sv_config s)), jb_hash = None\<rparr>]\<rparr>"

text \<open>
  The goroutine of a disconnection. It also cuts the hash of an outdated proxy to eight characters for
  its log, which every hash the server makes from a digest has.
\<close>

definition run_job :: "(int \<Rightarrow> int \<Rightarrow> nat \<Rightarrow> bool) \<Rightarrow> job \<Rightarrow> ('w, 'a, 'c) server \<Rightarrow> ('w, 'a, 'c) server" where
  "run_job wait j s =
     snd (disconnectProxies wait (jb_message j) (jb_rateLimit j) (jb_burstSize j)
       (\<lambda>c. case jb_hash j of None \<Rightarrow> True | Some h \<Rightarrow> cn_configHash c \<noteq> h) s)"

definition ShutdownProxy :: "string \<Rightarrow> string \<Rightarrow> ('w, 'a, 'c) server \<Rightarrow> bool \<times> ('w, 'a, 'c) server" where
  "ShutdownProxy proxyID shutdownReason s =
     (let reason = (if shutdownReason = [] then ''API shutdown request'' else shutdownReason) in
      case map_of (sv_active s) proxyID of
        None \<Rightarrow> (False, s)
      | Some a \<Rightarrow> (True, on_conn a (cancel \<circ> setShutdownMessage reason) s))"

section \<open>Health managers\<close>

text \<open>The managers that exist are stopped and dropped; a cluster with health checks gets a new one.\<close>

fun start_manager :: "nat \<Rightarrow> int \<Rightarrow> (string \<Rightarrow> bool) \<Rightarrow> UpstreamConfig \<Rightarrow> (string \<times> Manager) list \<times> Metrics \<Rightarrow>
    (string \<times> Manager) list \<times> Metrics" where
  "start_manager ctx now reachable upstream (ms, mx) =
     (case NewManager upstream of
        None \<Rightarrow> (ms, mx)
      | Some mgr \<Rightarrow> (case StartHealthCheck ctx now reachable mgr mx of
          (mgr, mx) \<Rightarrow> (AList.update (uc_Name upstream) mgr ms, mx)))"

definition initHealthManagers :: "nat \<Rightarrow> int \<Rightarrow> (string \<Rightarrow> bool) \<Rightarrow> ('w, 'a, 'c) server \<Rightarrow> ('w, 'a, 'c) server" where
  "initHealthManagers ctx now reachable s =
     (case fold (start_manager ctx now reachable) (c_Upstreams (sv_config s)) ([], sv_metrics s) of
        (ms, mx) \<Rightarrow> s\<lparr>sv_health := ms, sv_metrics := mx\<rparr>)"

section \<open>Handling a connection\<close>

definition amqpHeader :: bytes where "amqpHeader = map (\<lambda>c. of_char c) ''AMQP'' @ [0, 0, 9, 1]"

definition count_connection :: "Metrics \<Rightarrow> Metrics" where
  "count_connection m = m\<lparr>ClientConnections := Counter_Inc (ClientConnections m),
     ClientTotalConnections := Counter_Inc (ClientTotalConnections m)\<rparr>"

definition uncount_connection :: "Metrics \<Rightarrow> Metrics" where
  "uncount_connection m = m\<lparr>ClientConnections := Gauge_Dec (ClientConnections m)\<rparr>"

definition count_error :: "Metrics \<Rightarrow> Metrics" where
  "count_error m = m\<lparr>ClientConnectionErrors := Counter_Inc (ClientConnectionErrors m)\<rparr>"

definition Proxy_Close :: "'w rabbitmq \<Rightarrow> ('w, unit) pm" where
  "Proxy_Close lib p =
     (case fold (\<lambda>us (mx, w). snd (Upstream_Close lib us mx w)) (p_upstreams p) (k_metrics p, p_world p) of
        (mx, w) \<Rightarrow> (Inr (), p\<lparr>k_metrics := mx, p_world := w\<rparr>))"

text \<open>The deferred calls, in the order they run in when \<^verbatim>\<open>handleConnection\<close> returns or panics.\<close>

definition deferred :: "'w rabbitmq \<Rightarrow> 'c lru \<Rightarrow> nat \<Rightarrow> nat \<Rightarrow> perr + unit \<Rightarrow> ('w, 'a, 'c) server \<Rightarrow> ('w, 'a, 'c) server" where
  "deferred lib lru now a r s =
     (let s = on_conn a cancel s;
          s = UnregisterProxy lru now a s;
          s = snd (on_proxy a (Proxy_Close lib) s);
          s = on_conn a (\<lambda>c. c\<lparr>cn_phase := Closed\<rparr>) s
      in on_metrics (recoverFromPanic ''handleConnection'' r \<circ> uncount_connection) s)"

text \<open>The start: the header of eight bytes, or the error of reading it, and the new proxy.\<close>

definition accept :: "'w runtime \<Rightarrow> nat \<Rightarrow> bytes option \<Rightarrow> string \<Rightarrow> cwriter \<Rightarrow> (read_fail + frame) list \<Rightarrow>
    ('w, 'a, 'c) server \<Rightarrow> ('w, 'a, 'c) server" where
  "accept rt now header addr out ins s =
     (let s = on_metrics count_connection s in
      if header = Some amqpHeader then NewProxy rt now addr out ins s
      else on_metrics (uncount_connection \<circ> count_error) s)"

text \<open>The handshake and the registration of the proxy, then the connections to the upstreams.\<close>

definition handshake_phase :: "'w rabbitmq \<Rightarrow> 'w runtime \<Rightarrow> 'c lru \<Rightarrow> nat \<Rightarrow> nat \<Rightarrow> ('w, 'a, 'c) server \<Rightarrow> ('w, 'a, 'c) server" where
  "handshake_phase lib rt lru now a s =
     (case on_proxy a handshake s of
        (Inl Diverges, s) \<Rightarrow> on_conn a (\<lambda>c. c\<lparr>cn_session := (cn_session c)\<lparr>ss_status := Hung\<rparr>\<rparr>) s
      | (Inl (Panic t), s) \<Rightarrow> deferred lib lru now a (Inl (Panic t)) s
      | (Inl e, s) \<Rightarrow> deferred lib lru now a (Inl e) (on_metrics count_error s)
      | (Inr _, s) \<Rightarrow>
          (let s = RegisterProxy rt a s in
           if length (cn_configHash (sv_conns s ! a)) < 8
           then deferred lib lru now a (Inl (Panic ''slice bounds out of range'')) s
           else on_conn a (\<lambda>c. c\<lparr>cn_phase := Connecting\<rparr>) s))"

definition connect_phase :: "'w rabbitmq \<Rightarrow> 'w runtime \<Rightarrow> 'c lru \<Rightarrow> nat \<Rightarrow> nat \<Rightarrow> ('w, 'a, 'c) server \<Rightarrow> ('w, 'a, 'c) server" where
  "connect_phase lib rt lru now a s =
     (let p = the_proxy (sv_conns s ! a) in
      case on_proxy a (ConnectToUpstreams lib rt (c_Upstreams (sv_config s)) (p_clientProps p)) s of
        (Inl e, s) \<Rightarrow> deferred lib lru now a (Inl e) s
      | (Inr _, s) \<Rightarrow>
          on_conn a (\<lambda>c. c\<lparr>cn_phase := Serving,
            cn_session := (cn_session c)\<lparr>ss_heartbeat := initHeartbeatTimer (the_proxy c)\<rparr>\<rparr>) s)"

text \<open>
  The loop. A turn that finds the context of the server or that of the connection done shuts down,
  unless a lost upstream is chosen; a turn that finds neither processes a frame. The loop leaves
  through the deferred calls.
\<close>

definition enabled :: "bool \<Rightarrow> ('w, 'a) conn \<Rightarrow> event \<Rightarrow> bool" where
  "enabled stopped c ev =
     (case ev of
        Turn \<Rightarrow> \<not> (stopped \<or> cn_cancelled c) \<or> ss_disconnects (cn_session c) \<noteq> []
      | Cancelled \<Rightarrow> stopped \<or> cn_cancelled c
      | _ \<Rightarrow> True)"

definition serving_phase :: "'w rabbitmq \<Rightarrow> 'w runtime \<Rightarrow> 'c lru \<Rightarrow> nat \<Rightarrow> nat \<Rightarrow> event \<Rightarrow>
    ('w, 'a, 'c) server \<Rightarrow> ('w, 'a, 'c) server" where
  "serving_phase lib rt lru now a ev s =
     (if \<not> enabled (sv_stopped s) (sv_conns s ! a) ev then s
      else let s = on_session a (session_step lib rt ev) s in
        case ss_status (cn_session (sv_conns s ! a)) of
          Ended \<Rightarrow> deferred lib lru now a (Inr ()) s
        | Panicked \<Rightarrow> deferred lib lru now a (Inl (Panic ''process'')) s
        | _ \<Rightarrow> s)"

definition proceed :: "'w rabbitmq \<Rightarrow> 'w runtime \<Rightarrow> 'c lru \<Rightarrow> nat \<Rightarrow> nat \<Rightarrow> event \<Rightarrow>
    ('w, 'a, 'c) server \<Rightarrow> ('w, 'a, 'c) server" where
  "proceed lib rt lru now a ev s =
     (if length (sv_conns s) \<le> a \<or> ss_status (cn_session (sv_conns s ! a)) = Hung then s
      else case cn_phase (sv_conns s ! a) of
        Handshaking \<Rightarrow> handshake_phase lib rt lru now a s
      | Connecting \<Rightarrow> connect_phase lib rt lru now a s
      | Serving \<Rightarrow> serving_phase lib rt lru now a ev s
      | Closed \<Rightarrow> s)"

section \<open>Reloading the configuration\<close>

definition reloadConfigFromFile :: "(ConfigData \<Rightarrow> string) \<Rightarrow> (string \<Rightarrow> ConfigData go) \<Rightarrow> nat \<Rightarrow> int \<Rightarrow> (string \<Rightarrow> bool) \<Rightarrow>
    string \<Rightarrow> ('w, 'a, 'c) server \<Rightarrow> ConfigData go \<times> ('w, 'a, 'c) server" where
  "reloadConfigFromFile Hash load ctx now reachable configPath s =
     (case load configPath of
        Inl e \<Rightarrow> (Inl (''failed to reload configuration: '' @ e), s)
      | Inr cfg \<Rightarrow>
          (let s = UpdateConfig Hash cfg (initHealthManagers ctx now reachable s) in
           case disconnectOutdatedProxies (Hash cfg) s of
             None \<Rightarrow> (Inl ''panic: slice bounds out of range'', s)
           | Some s \<Rightarrow> (Inr cfg, s)))"

section \<open>The server as a state machine\<close>

text \<open>
  The events of the server, in any order: a new client, the next step of a connection, a log of a
  connection's probe, a request of the API, the signal to stop, the goroutine of a disconnection and a
  tick of a health manager.
\<close>

datatype 'a server_event =
    Accept nat "bytes option" string cwriter "(read_fail + frame) list"
  | Proceed nat nat event
  | Probe nat "'a probeLog"
  | Shutdown string string
  | Reload nat int "string \<Rightarrow> bool" string
  | Stop
  | RunJob
  | ProbeLogs string
  | HealthTick string "nat set" int "string \<Rightarrow> bool"

record ('w, 'c) environment =
  en_lib :: "'w rabbitmq"
  en_rt :: "'w runtime"
  en_lru :: "'c lru"
  en_Hash :: "ConfigData \<Rightarrow> string"
  en_load :: "string \<Rightarrow> ConfigData go"
  en_wait :: "int \<Rightarrow> int \<Rightarrow> nat \<Rightarrow> bool"

primrec server_step :: "('w, 'c) environment \<Rightarrow> 'a server_event \<Rightarrow> ('w, 'a, 'c) server \<Rightarrow> ('w, 'a, 'c) server" where
  "server_step en (Accept now header addr out ins) s = accept (en_rt en) now header addr out ins s"
| "server_step en (Proceed now a ev) s = proceed (en_lib en) (en_rt en) (en_lru en) now a ev s"
| "server_step en (Probe a log) s = on_conn a (\<lambda>c. c\<lparr>cn_probe := Proxy_probeLog log (cn_probe c)\<rparr>) s"
| "server_step en (Shutdown proxyID reason) s = snd (ShutdownProxy proxyID reason s)"
| "server_step en (Reload ctx now reachable path) s =
     snd (reloadConfigFromFile (en_Hash en) (en_load en) ctx now reachable path s)"
| "server_step en Stop s = disconnectAllProxies (s\<lparr>sv_stopped := True\<rparr>)"
| "server_step en RunJob s =
     (case sv_jobs s of [] \<Rightarrow> s | j # js \<Rightarrow> run_job (en_wait en) j (s\<lparr>sv_jobs := js\<rparr>))"
| "server_step en (ProbeLogs proxyID) s = snd (GetProbeLogBuffer (en_lru en) proxyID s)"
| "server_step en (HealthTick name done_ctxs now reachable) s =
     (case GetHealthManager name s of
        None \<Rightarrow> s
      | Some mgr \<Rightarrow> (case health_tick done_ctxs now reachable mgr (sv_metrics s) of
          (mgr, mx) \<Rightarrow> s\<lparr>sv_health := AList.update name mgr (sv_health s), sv_metrics := mx\<rparr>))"

definition server_run :: "('w, 'c) environment \<Rightarrow> 'a server_event list \<Rightarrow> ('w, 'a, 'c) server \<Rightarrow> ('w, 'a, 'c) server" where
  "server_run en evs s = fold (server_step en) evs s"

section \<open>The registry\<close>

lemma on_conn_fields [simp]:
  "sv_config (on_conn a f s) = sv_config s" "sv_configHash (on_conn a f s) = sv_configHash s"
  "sv_active (on_conn a f s) = sv_active s" "sv_retained (on_conn a f s) = sv_retained s"
  "sv_health (on_conn a f s) = sv_health s" "sv_jobs (on_conn a f s) = sv_jobs s"
  "sv_stopped (on_conn a f s) = sv_stopped s" "sv_metrics (on_conn a f s) = sv_metrics s"
  "sv_world (on_conn a f s) = sv_world s" "length (sv_conns (on_conn a f s)) = length (sv_conns s)"
  by (simp_all add: on_conn_def)

lemma on_conn_nth: "b < length (sv_conns s) \<Longrightarrow>
    sv_conns (on_conn a f s) ! b = (if a = b then f (sv_conns s ! b) else sv_conns s ! b)"
  by (simp add: on_conn_def nth_list_update)

text \<open>What the registry needs to know of a connection: its identifier, and whether it is registered.\<close>

definition registered :: "('w, 'a) conn \<Rightarrow> bool" where
  "registered c \<longleftrightarrow> cn_phase c \<in> {Connecting, Serving}"

definition keys :: "('w, 'a) conn list \<Rightarrow> (string \<times> phase) list" where
  "keys cs = map (\<lambda>c. (cn_id c, cn_phase c)) cs"

definition live_at :: "(string \<times> phase) list \<Rightarrow> nat \<Rightarrow> bool" where
  "live_at ks a \<longleftrightarrow> a < length ks \<and> snd (ks ! a) \<in> {Connecting, Serving}"

definition shared_id :: "(string \<times> phase) list \<Rightarrow> nat \<Rightarrow> bool" where
  "shared_id ks a \<longleftrightarrow> (\<exists>b < length ks. b \<noteq> a \<and> fst (ks ! b) = fst (ks ! a))"

definition registry_ok :: "(string \<times> phase) list \<Rightarrow> (string \<times> nat) list \<Rightarrow> bool" where
  "registry_ok ks act \<longleftrightarrow> distinct (map fst act) \<and>
     (\<forall>i a. map_of act i = Some a \<longrightarrow> live_at ks a \<and> fst (ks ! a) = i) \<and>
     (\<forall>a. live_at ks a \<longrightarrow> map_of act (fst (ks ! a)) = Some a \<or> shared_id ks a)"

definition gauge_ok :: "(string \<times> phase) list \<Rightarrow> Metrics \<Rightarrow> bool" where
  "gauge_ok ks mx \<longleftrightarrow> ClientConnections mx = word_of_nat (length (filter (\<lambda>k. snd k \<noteq> Closed) ks))"

definition server_ok :: "('w, 'a, 'c) server \<Rightarrow> bool" where
  "server_ok s \<longleftrightarrow> registry_ok (keys (sv_conns s)) (sv_active s) \<and> gauge_ok (keys (sv_conns s)) (sv_metrics s)"

lemma keys_update:
  assumes "fst (ks ! a) = i"
  shows "live_at (ks[a := (i, ph)]) b \<longleftrightarrow> (if b = a then a < length ks \<and> ph \<in> {Connecting, Serving} else live_at ks b)"
    and "fst (ks[a := (i, ph)] ! b) = fst (ks ! b)" and "shared_id (ks[a := (i, ph)]) b \<longleftrightarrow> shared_id ks b"
proof -
  show f: "fst (ks[a := (i, ph)] ! b) = fst (ks ! b)" for b
    using assms by (cases "a = b"; cases "a < length ks") (simp_all add: list_update_beyond)
  show "live_at (ks[a := (i, ph)]) b \<longleftrightarrow> (if b = a then a < length ks \<and> ph \<in> {Connecting, Serving} else live_at ks b)"
    by (cases "a = b") (auto simp: live_at_def)
  show "shared_id (ks[a := (i, ph)]) b \<longleftrightarrow> shared_id ks b"
    unfolding shared_id_def f by simp
qed

lemma registry_new:
  assumes "registry_ok ks act" shows "registry_ok (ks @ [(i, Handshaking)]) act"
proof -
  have "live_at (ks @ [(i, Handshaking)]) a \<longleftrightarrow> live_at ks a" for a
    by (auto simp: live_at_def nth_append less_Suc_eq)
  moreover have "live_at ks a \<Longrightarrow> fst ((ks @ [(i, Handshaking)]) ! a) = fst (ks ! a)" for a
    by (simp add: live_at_def nth_append)
  moreover have "live_at ks a \<Longrightarrow> shared_id ks a \<Longrightarrow> shared_id (ks @ [(i, Handshaking)]) a" for a
    unfolding shared_id_def live_at_def by (auto simp: nth_append intro: exI [of _ "_ :: nat"])
  ultimately show ?thesis
    using assms unfolding registry_ok_def by metis
qed

lemma registry_register:
  assumes "registry_ok ks act" and "a < length ks" and "fst (ks ! a) = i"
  shows "registry_ok (ks[a := (i, Connecting)]) (AList.update i a act)"
proof -
  have "shared_id ks b" if "live_at ks b" "fst (ks ! b) = i" "b \<noteq> a" for b
    using that assms(2,3) by (auto simp: shared_id_def)
  then show ?thesis
    using assms unfolding registry_ok_def keys_update [OF assms(3)]
    by (auto simp: update_conv' distinct_update)
qed

lemma registry_serve:
  assumes "registry_ok ks act" and "ks ! a = (i, Connecting)"
  shows "registry_ok (ks[a := (i, Serving)]) act"
proof -
  have i: "fst (ks ! a) = i" using assms(2) by simp
  have "live_at (ks[a := (i, Serving)]) b \<longleftrightarrow> live_at ks b" for b
    unfolding keys_update [OF i] using assms(2) by (auto simp: live_at_def)
  then show ?thesis
    using assms(1) unfolding registry_ok_def keys_update(2,3) [OF i] by metis
qed

lemma registry_close:
  assumes "registry_ok ks act" and "a < length ks" and "fst (ks ! a) = i"
  shows "registry_ok (ks[a := (i, Closed)]) (AList.delete i act)"
proof -
  have "shared_id ks b" if "live_at ks b" "fst (ks ! b) = i" "b \<noteq> a" for b
    using that assms(2,3) by (auto simp: shared_id_def)
  then show ?thesis
    using assms unfolding registry_ok_def keys_update [OF assms(3)]
    by (auto simp: delete_conv' distinct_delete)
qed

lemma gauge_step:
  assumes "gauge_ok ks mx" and "a < length ks" and "snd (ks ! a) \<noteq> Closed"
    and "ClientConnections mx' = (if ph = Closed then ClientConnections mx - 1 else ClientConnections mx)"
  shows "gauge_ok (ks[a := (i, ph)]) mx'"
proof -
  have k: "ks = take a ks @ ks ! a # drop (Suc a) ks" by (rule id_take_nth_drop [OF assms(2)])
  have u: "ks[a := (i, ph)] = take a ks @ (i, ph) # drop (Suc a) ks" by (rule upd_conv_take_nth_drop [OF assms(2)])
  let ?n = "\<lambda>l. length (filter (\<lambda>k. snd k \<noteq> Closed) l)"
  have "?n ks = Suc (?n (take a ks) + ?n (drop (Suc a) ks))"
    by (subst k) (simp add: assms(3))
  then show ?thesis
    using assms(1,4) unfolding gauge_ok_def u by simp
qed

section \<open>Every operation keeps the registry and the gauge\<close>

lemma keys_nth: "a < length cs \<Longrightarrow> keys cs ! a = (cn_id (cs ! a), cn_phase (cs ! a))"
  by (simp add: keys_def)

lemma length_keys [simp]: "length (keys cs) = length cs"
  by (simp add: keys_def)

lemma keys_on_conn: "keys (sv_conns (on_conn a f s)) =
    (keys (sv_conns s))[a := (cn_id (f (sv_conns s ! a)), cn_phase (f (sv_conns s ! a)))]"
  by (simp add: keys_def on_conn_def map_update)

lemma keys_on_conn_same:
  assumes "\<And>c. cn_id (f c) = cn_id c" and "\<And>c. cn_phase (f c) = cn_phase c"
  shows "keys (sv_conns (on_conn a f s)) = keys (sv_conns s)"
  unfolding keys_on_conn assms
  by (cases "a < length (sv_conns s)") (simp_all add: keys_nth [symmetric] list_update_beyond)

text \<open>The operations that change neither the keys nor the registry nor the gauge.\<close>

definition same_books :: "('w, 'a, 'c) server \<Rightarrow> ('w, 'a, 'c) server \<Rightarrow> bool" where
  "same_books s t \<longleftrightarrow> keys (sv_conns t) = keys (sv_conns s) \<and> sv_active t = sv_active s \<and>
     ClientConnections (sv_metrics t) = ClientConnections (sv_metrics s)"

lemma same_books_refl [simp]: "same_books s s"
  by (simp add: same_books_def)

lemma same_books_trans [trans]: "same_books s t \<Longrightarrow> same_books t u \<Longrightarrow> same_books s u"
  by (simp add: same_books_def)

lemma same_books_ok: "same_books s t \<Longrightarrow> server_ok s \<Longrightarrow> server_ok t"
  by (simp add: same_books_def server_ok_def gauge_ok_def)

lemma same_books_conn:
  "(\<And>c. cn_id (f c) = cn_id c) \<Longrightarrow> (\<And>c. cn_phase (f c) = cn_phase c) \<Longrightarrow> same_books s (on_conn a f s)"
  by (simp add: same_books_def keys_on_conn_same)

lemma same_books_session:
  assumes "\<And>ss. ClientConnections (k_metrics (ss_proxy (f ss))) = ClientConnections (k_metrics (ss_proxy ss))"
  shows "same_books s (on_session a f s)"
proof -
  have "same_books s (on_conn a (\<lambda>c. c\<lparr>cn_session := ss\<rparr>) s)" for ss
    by (rule same_books_conn) simp_all
  then show ?thesis
    using assms by (simp add: same_books_def on_session_def Let_def borrow_def)
qed

lemma same_books_proxy:
  assumes "keeps (\<lambda>p. ClientConnections (k_metrics p)) m" shows "same_books s (snd (on_proxy a m s))"
proof -
  let ?p = "ss_proxy (borrow s (cn_session (sv_conns s ! a)))"
  have "ClientConnections (k_metrics (snd (m ?p))) = ClientConnections (sv_metrics s)"
    using keeps_snd [OF assms, of ?p] by (simp add: borrow_def)
  moreover have "same_books s (on_conn a (\<lambda>c. c\<lparr>cn_session := ss\<rparr>) s)" for ss
    by (rule same_books_conn) simp_all
  ultimately show ?thesis
    by (cases "m ?p") (simp add: same_books_def on_proxy_def on_session_def Let_def)
qed

lemma same_books_metrics: "ClientConnections (f (sv_metrics s)) = ClientConnections (sv_metrics s) \<Longrightarrow> same_books s (on_metrics f s)"
  by (simp add: same_books_def on_metrics_def)

lemma gauge_recover [simp]: "ClientConnections (recoverFromPanic f r m) = ClientConnections m"
  by (simp add: recoverFromPanic_def split: sum.split perr.split)

lemma gauge_Upstream_Close: "ClientConnections (fst (snd (Upstream_Close lib us mx w))) = ClientConnections mx"
  by (auto simp: Upstream_Close_def Let_def split: prod.split sum.split list.split option.split)

lemma gauge_Proxy_Close: "keeps (\<lambda>p. ClientConnections (k_metrics p)) (Proxy_Close lib)"
proof -
  have "ClientConnections (fst (fold (\<lambda>us (mx, w). snd (Upstream_Close lib us mx w)) uss (mx, w))) = ClientConnections mx"
    for uss mx w
    by (induction uss arbitrary: mx w) (simp_all, metis gauge_Upstream_Close prod.collapse)
  then show ?thesis
    by (auto simp: keeps_def Proxy_Close_def split: prod.split) (metis fst_conv)
qed

lemma same_keys_nth:
  assumes "keys cs = keys ds" and "a < length cs"
  shows "a < length ds" and "cn_id (ds ! a) = cn_id (cs ! a)" and "cn_phase (ds ! a) = cn_phase (cs ! a)"
proof -
  show l: "a < length ds" using assms by (metis length_keys)
  show "cn_id (ds ! a) = cn_id (cs ! a)" "cn_phase (ds ! a) = cn_phase (cs ! a)"
    using keys_nth [OF assms(2)] keys_nth [OF l] assms(1) by simp_all
qed

lemma deferred_books:
  assumes a: "a < length (sv_conns s)"
  shows "keys (sv_conns (deferred lib lru now a r s)) = (keys (sv_conns s))[a := (cn_id (sv_conns s ! a), Closed)]"
    and "sv_active (deferred lib lru now a r s) = AList.delete (cn_id (sv_conns s ! a)) (sv_active s)"
    and "ClientConnections (sv_metrics (deferred lib lru now a r s)) = ClientConnections (sv_metrics s) - 1"
proof -
  let ?s1 = "on_conn a cancel s"
  let ?s2 = "UnregisterProxy lru now a ?s1"
  let ?s3 = "snd (on_proxy a (Proxy_Close lib) ?s2)"
  have 1: "same_books s ?s1"
    by (rule same_books_conn) (simp_all add: cancel_def)
  have 2: "keys (sv_conns ?s2) = keys (sv_conns ?s1)" "sv_active ?s2 = AList.delete (cn_id (sv_conns ?s1 ! a)) (sv_active ?s1)"
    "sv_metrics ?s2 = sv_metrics ?s1"
    by (simp_all add: UnregisterProxy_def Let_def keys_on_conn_same)
  have 3: "same_books ?s2 ?s3"
    by (rule same_books_proxy) (rule gauge_Proxy_Close)
  have k: "keys (sv_conns ?s3) = keys (sv_conns s)" "keys (sv_conns ?s1) = keys (sv_conns s)"
    using 1 2(1) 3 by (simp_all add: same_books_def)
  note i = same_keys_nth [OF k(1) [symmetric] a] same_keys_nth [OF k(2) [symmetric] a]
  show "keys (sv_conns (deferred lib lru now a r s)) = (keys (sv_conns s))[a := (cn_id (sv_conns s ! a), Closed)]"
    using i k(1) by (simp add: deferred_def Let_def on_metrics_def keys_on_conn)
  show "sv_active (deferred lib lru now a r s) = AList.delete (cn_id (sv_conns s ! a)) (sv_active s)"
    using 1 2(2) 3 i by (simp add: deferred_def Let_def on_metrics_def same_books_def)
  show "ClientConnections (sv_metrics (deferred lib lru now a r s)) = ClientConnections (sv_metrics s) - 1"
    using 1 2(3) 3 by (simp add: deferred_def Let_def on_metrics_def same_books_def uncount_connection_def Gauge_Dec_def)
qed

lemma deferred_ok:
  assumes "server_ok s" and "a < length (sv_conns s)" and "cn_phase (sv_conns s ! a) \<noteq> Closed"
  shows "server_ok (deferred lib lru now a r s)"
proof -
  have k: "keys (sv_conns s) ! a = (cn_id (sv_conns s ! a), cn_phase (sv_conns s ! a))"
    by (rule keys_nth [OF assms(2)])
  show ?thesis
    using assms registry_close [of "keys (sv_conns s)" "sv_active s" a] gauge_step [of "keys (sv_conns s)" "sv_metrics s" a] k
    unfolding server_ok_def deferred_books(1,2) [OF assms(2)] by (simp add: deferred_books(3) [OF assms(2)])
qed

lemma same_booksD:
  assumes "same_books s t" and "a < length (sv_conns s)"
  shows "a < length (sv_conns t)" and "cn_id (sv_conns t ! a) = cn_id (sv_conns s ! a)"
    and "cn_phase (sv_conns t ! a) = cn_phase (sv_conns s ! a)"
  using assms(1) same_keys_nth [OF _ assms(2), of "sv_conns t"] by (simp_all add: same_books_def)

lemma delete_update_same: "AList.delete k (AList.update k v al) = AList.delete k al"
  by (induction al) auto

lemma gauge_handshake: "keeps (\<lambda>p. ClientConnections (k_metrics p)) handshake"
proof -
  let ?g = "\<lambda>p :: 'a proxy. ClientConnections (k_metrics p)"
  have s: "keeps ?g (send_step what m)" "keeps ?g (recv_step what m)" for what m
    unfolding send_step_def recv_step_def by (intro keeps_pwrap gauge.send_keeps gauge.recv_keeps)+
  have "keeps ?g (authenticate mech resp)" for mech resp
    by (auto simp: keeps_def authenticate_def Let_def split: sum.split auth_error.split option.split prod.split)
  then have a: "keeps ?g (\<lambda>p. authenticate mech resp (p\<lparr>p_clientProps := props\<rparr>))" for mech resp props
    by (simp add: keeps_def)
  have o: "keeps ?g (\<lambda>p. send_step what m (p\<lparr>p_VirtualHost := v\<rparr>))" for what m v
    using keeps_snd [OF s(1)] by (simp add: keeps_def)
  have t: "keeps ?g (\<lambda>p. (r, p\<lparr>k_tuned := f p\<rparr>))" "keeps ?g (\<lambda>p. (r, p))" for r :: "perr + unit" and f
    by (simp_all add: keeps_def)
  have "keeps ?g (\<lambda>p. case m of ConnectionStartOk props mech resp _ \<Rightarrow> authenticate mech resp (p\<lparr>p_clientProps := props\<rparr>)
      | _ \<Rightarrow> (Inl (Panic ''unreachable''), p))"
    "keeps ?g (\<lambda>p. case m of ConnectionTuneOk cm fm hb \<Rightarrow> (Inr (), p\<lparr>k_tuned := tune cm fm hb (k_tuned p)\<rparr>)
      | _ \<Rightarrow> (Inl (Panic ''unreachable''), p))"
    "keeps ?g (\<lambda>p. case m of ConnectionOpen v _ _ \<Rightarrow>
        send_step ''Connection.Open-Ok'' (ConnectionOpenOk []) (p\<lparr>p_VirtualHost := v\<rparr>)
      | _ \<Rightarrow> (Inl (Panic ''unreachable''), p))" for m
    by (cases m; simp add: a o t)+
  then show ?thesis
    unfolding handshake_def handshake_start_def handshake_tune_def handshake_open_def
    by (intro keeps_pbind s)
qed

lemma gauge_connect: "keeps (\<lambda>p. ClientConnections (k_metrics p)) (ConnectToUpstreams lib rt confs props)"
proof -
  let ?g = "\<lambda>p. ClientConnections (k_metrics p)"
  have c: "?g (snd (connectToUpstreamServer lib rt addr props p)) = ?g p" for addr p
    by (auto simp: connectToUpstreamServer_def split: prod.split sum.split)
  have t: "?g (snd (try_nodes lib rt addrs props p)) = ?g p" for addrs p
    by (induction addrs arbitrary: p) (auto split: prod.splits sum.splits, (metis c snd_conv)+)
  have s: "?g (snd (sortNodesByLeastConnections rt addrs p)) = ?g p" for addrs and p :: "'a proxy"
    by (auto simp: sortNodesByLeastConnections_def Let_def touch_all_def split: prod.split)
  have n: "keeps ?g (connectToUpstreamServers lib rt name addrs props)" for name addrs
    unfolding keeps_def connectToUpstreamServers_def
    by (auto split: prod.split option.split) (metis s t snd_conv)+
  have u: "?g (newUpstream conn conf addr p) = ?g p" for conn conf addr and p :: "'a proxy"
    by (simp add: newUpstream_def NewUpstream_def Let_def split: prod.split)
  show ?thesis
  proof (induction confs)
    case (Cons conf confs)
    have "keeps ?g (\<lambda>p. ConnectToUpstreams lib rt confs props (newUpstream conn conf addr p))" for conn addr
      using keeps_snd [OF Cons] u by (simp add: keeps_def)
    then show ?case
      by (auto intro!: keeps_pbind n split: prod.split)
  qed (simp add: keeps_pret)
qed

lemma handshake_phase_ok:
  assumes "server_ok s" and "a < length (sv_conns s)" and "cn_phase (sv_conns s ! a) = Handshaking"
  shows "server_ok (handshake_phase lib rt lru now a s)"
proof -
  obtain r s1 where r: "on_proxy a handshake s = (r, s1)" by fastforce
  have b: "same_books s s1"
    using same_books_proxy [OF gauge_handshake, of s a] r by simp
  have ok: "server_ok s1" and l: "a < length (sv_conns s1)" "cn_phase (sv_conns s1 ! a) = Handshaking"
    using same_books_ok [OF b assms(1)] same_booksD [OF b assms(2)] assms(3) by simp_all
  have e: "server_ok (deferred lib lru now a x (on_metrics count_error s1))" for x
    using ok l by (intro deferred_ok same_books_ok [OF same_books_metrics]) (simp_all add: count_error_def on_metrics_def)
  have h: "server_ok (on_conn a (\<lambda>c. c\<lparr>cn_session := (cn_session c)\<lparr>ss_status := Hung\<rparr>\<rparr>) s1)"
    by (rule same_books_ok [OF same_books_conn ok]) simp_all
  let ?i = "cn_id (sv_conns s1 ! a)"
  let ?s2 = "RegisterProxy rt a s1"
  have 2: "keys (sv_conns ?s2) = keys (sv_conns s1)" "sv_active ?s2 = AList.update ?i a (sv_active s1)"
    "sv_metrics ?s2 = sv_metrics s1"
    by (simp_all add: RegisterProxy_def Let_def keys_on_conn_same)
  note l2 = same_keys_nth [OF 2(1) [symmetric] l(1)]
  have k: "keys (sv_conns s1) ! a = (?i, Handshaking)"
    using keys_nth [OF l(1)] l(2) by simp
  have "server_ok (deferred lib lru now a x ?s2)" for x
    using ok registry_close [of "keys (sv_conns s1)" "sv_active s1" a ?i]
      gauge_step [of "keys (sv_conns s1)" "sv_metrics s1" a "sv_metrics (deferred lib lru now a x ?s2)" Closed ?i] k l
    unfolding server_ok_def deferred_books(1,2) [OF l2(1)] 2 l2
    by (simp add: deferred_books(3) [OF l2(1)] 2 delete_update_same)
  moreover have "server_ok (on_conn a (\<lambda>c. c\<lparr>cn_phase := Connecting\<rparr>) ?s2)"
    using ok registry_register [of "keys (sv_conns s1)" "sv_active s1" a ?i]
      gauge_step [of "keys (sv_conns s1)" "sv_metrics s1" a "sv_metrics s1" Connecting ?i] k l
    unfolding server_ok_def by (simp add: keys_on_conn 2 l2)
  ultimately show ?thesis
    using r e h ok l deferred_ok [OF ok l(1)]
    by (auto simp: handshake_phase_def Let_def split: sum.split perr.split)
qed

lemma connect_phase_ok:
  assumes "server_ok s" and "a < length (sv_conns s)" and "cn_phase (sv_conns s ! a) = Connecting"
  shows "server_ok (connect_phase lib rt lru now a s)"
proof -
  let ?m = "ConnectToUpstreams lib rt (c_Upstreams (sv_config s)) (p_clientProps (the_proxy (sv_conns s ! a)))"
  obtain r s1 where r: "on_proxy a ?m s = (r, s1)" by fastforce
  have b: "same_books s s1"
    using same_books_proxy [OF gauge_connect, of s a] r by (metis snd_conv)
  have ok: "server_ok s1" and l: "a < length (sv_conns s1)" "cn_phase (sv_conns s1 ! a) = Connecting"
    using same_books_ok [OF b assms(1)] same_booksD [OF b assms(2)] assms(3) by simp_all
  let ?i = "cn_id (sv_conns s1 ! a)"
  have k: "keys (sv_conns s1) ! a = (?i, Connecting)"
    using keys_nth [OF l(1)] l(2) by simp
  have "server_ok (on_conn a (\<lambda>c. c\<lparr>cn_phase := Serving,
            cn_session := (cn_session c)\<lparr>ss_heartbeat := initHeartbeatTimer (the_proxy c)\<rparr>\<rparr>) s1)"
    using ok registry_serve [of "keys (sv_conns s1)" "sv_active s1" a ?i]
      gauge_step [of "keys (sv_conns s1)" "sv_metrics s1" a "sv_metrics s1" Serving ?i] k l
    unfolding server_ok_def by (simp add: keys_on_conn)
  then show ?thesis
    using r deferred_ok [OF ok l(1)] l(2) by (auto simp: connect_phase_def Let_def split: sum.split)
qed

lemma serving_phase_ok:
  assumes "server_ok s" and "a < length (sv_conns s)" and "cn_phase (sv_conns s ! a) = Serving"
  shows "server_ok (serving_phase lib rt lru now a ev s)"
proof -
  let ?s = "on_session a (session_step lib rt ev) s"
  have b: "same_books s ?s"
    by (rule same_books_session) (rule gauge.session_step_keeps)
  have "server_ok ?s" "a < length (sv_conns ?s)" "cn_phase (sv_conns ?s ! a) \<noteq> Closed"
    using same_books_ok [OF b assms(1)] same_booksD [OF b assms(2)] assms(3) by simp_all
  then show ?thesis
    using assms(1) deferred_ok by (auto simp: serving_phase_def Let_def split: status.split)
qed

lemma accept_ok: "server_ok s \<Longrightarrow> server_ok (accept rt now header addr out ins s)"
proof -
  assume ok: "server_ok s"
  have "server_ok (NewProxy rt now addr out ins (on_metrics count_connection s))"
    using ok registry_new [of "keys (sv_conns s)" "sv_active s"]
    by (auto simp: server_ok_def NewProxy_def keys_def gauge_ok_def on_metrics_def count_connection_def Counter_Inc_def
        split: prod.split)
  moreover have "server_ok (on_metrics (uncount_connection \<circ> count_error) (on_metrics count_connection s))"
    using ok by (simp add: server_ok_def gauge_ok_def on_metrics_def count_connection_def uncount_connection_def
        count_error_def Counter_Inc_def Gauge_Dec_def)
  ultimately show ?thesis
    by (simp add: accept_def Let_def)
qed

lemma proceed_ok: "server_ok s \<Longrightarrow> server_ok (proceed lib rt lru now a ev s)"
  by (auto simp: proceed_def handshake_phase_ok connect_phase_ok serving_phase_ok split: phase.split)

lemma fold_on_conn_books:
  assumes "\<And>x c. cn_id (f x c) = cn_id c" and "\<And>x c. cn_phase (f x c) = cn_phase c"
  shows "same_books s (fold (\<lambda>x s. if b x then on_conn (h x) (f x) s else s) xs s)"
proof (induction xs arbitrary: s)
  case (Cons x xs)
  have "same_books s (if b x then on_conn (h x) (f x) s else s)"
    using same_books_conn [of "f x" s "h x"] assms by simp
  then show ?case
    using same_books_trans Cons by fastforce
qed simp

lemma disconnectProxies_books: "same_books s (snd (disconnectProxies wait msg rl bs pred s))"
proof -
  let ?ts = "filter (\<lambda>a. pred (sv_conns s ! a)) (map snd (sv_active s))"
  have 1: "same_books s (fold (\<lambda>a. on_conn a (setShutdownMessage msg)) ?ts s)"
    using fold_on_conn_books [of "\<lambda>_. setShutdownMessage msg" s "\<lambda>_. True" "\<lambda>a. a" ?ts]
    by (simp add: setShutdownMessage_def)
  have 2: "same_books t (fold (\<lambda>(n, a) s. if w n then on_conn a cancel s else s) xs t)" for w xs t
    using fold_on_conn_books [of "\<lambda>_. cancel" t "\<lambda>x. w (fst x)" snd xs]
    by (simp add: cancel_def case_prod_unfold)
  show ?thesis
    unfolding disconnectProxies_def Let_def
    by (cases "disconnect_limits (length ?ts) rl bs") (simp only: prod.case snd_conv same_books_trans [OF 1 2])
qed

lemma gauge_health:
  "ClientConnections (snd (check_round ff now reachable m mx)) = ClientConnections mx"
  by (simp add: check_round_def Let_def SetHealthyNodes_def SetUnhealthyNodes_def split: prod.split)

lemma initHealthManagers_books: "same_books s (initHealthManagers ctx now reachable s)"
proof -
  let ?f = "start_manager ctx now reachable"
  have "ClientConnections (snd (fold ?f us (ms, mx))) = ClientConnections mx" for us ms mx
  proof (induction us arbitrary: ms mx)
    case (Cons u us)
    have "ClientConnections (snd (?f u (ms, mx))) = ClientConnections mx"
      using gauge_health [of True now reachable _ mx]
      by (simp add: StartHealthCheck_def checkAllNodesInitial_def split: option.split prod.split) (metis snd_conv)
    then show ?case
      using Cons [of "fst (?f u (ms, mx))" "snd (?f u (ms, mx))"] by (simp only: fold_simps prod.collapse)
  qed simp
  from this [of "c_Upstreams (sv_config s)" "[]" "sv_metrics s"] show ?thesis
    unfolding initHealthManagers_def
    by (cases "fold ?f (c_Upstreams (sv_config s)) ([], sv_metrics s)") (simp add: same_books_def)
qed

lemma server_step_ok:
  assumes "server_ok s" shows "server_ok (server_step en ev s)"
proof (cases ev)
  case (Probe a log)
  then show ?thesis
    using same_books_ok [OF same_books_conn assms] by simp
next
  case (Shutdown i reason)
  have "same_books s (on_conn a (cancel \<circ> setShutdownMessage t) s)" for a t
    by (rule same_books_conn) (simp_all add: cancel_def setShutdownMessage_def)
  with Shutdown show ?thesis
    using same_books_ok assms by (fastforce simp: ShutdownProxy_def Let_def split: option.split)
next
  case (Reload ctx now reachable path)
  have "server_ok (initHealthManagers ctx now reachable s)"
    by (rule same_books_ok [OF initHealthManagers_books assms])
  with Reload show ?thesis
    using assms
    by (auto simp: reloadConfigFromFile_def UpdateConfig_def disconnectOutdatedProxies_def server_ok_def Let_def
        split: sum.split)
next
  case RunJob
  show ?thesis
  proof (cases "sv_jobs s")
    case (Cons j js)
    have "server_ok (s\<lparr>sv_jobs := js\<rparr>)"
      using assms by (simp add: server_ok_def)
    then show ?thesis
      using same_books_ok [OF disconnectProxies_books] RunJob Cons by (simp add: run_job_def)
  qed (use assms RunJob in simp)
next
  case (HealthTick name done_ctxs now reachable)
  show ?thesis
  proof (cases "GetHealthManager name s")
    case (Some mgr)
    have "ClientConnections (snd (health_tick done_ctxs now reachable mgr mx)) = ClientConnections mx" for mx
      by (simp add: health_tick_def checkAllNodes_def gauge_health split: option.split)
    then show ?thesis
      using assms HealthTick Some
      by (cases "health_tick done_ctxs now reachable mgr (sv_metrics s)") (auto simp: server_ok_def gauge_ok_def, metis snd_conv)
  qed (use assms HealthTick in simp)
next
  case (ProbeLogs i)
  then show ?thesis
    using assms by (auto simp: GetProbeLogBuffer_def server_ok_def split: option.split prod.split)
next
  case Stop
  then show ?thesis
    using assms by (simp add: disconnectAllProxies_def server_ok_def)
qed (use assms in \<open>simp_all add: accept_ok proceed_ok\<close>)

lemma server_run_ok: "server_ok s \<Longrightarrow> server_ok (server_run en evs s)"
  by (induction evs arbitrary: s) (simp_all add: server_run_def server_step_ok)

lemma NewServer_ok: "server_ok (NewServer lru Hash config w)"
  by (simp add: server_ok_def NewServer_def registry_ok_def gauge_ok_def keys_def live_at_def NewMetrics_def)

section \<open>Properties\<close>

lemma live_keys: "live_at (keys cs) a \<longleftrightarrow> a < length cs \<and> registered (cs ! a)"
  by (auto simp: live_at_def registered_def keys_nth)

lemma registryD:
  assumes "server_ok s" and "map_of (sv_active s) i = Some a"
  shows "a < length (sv_conns s)" and "registered (sv_conns s ! a)" and "cn_id (sv_conns s ! a) = i"
proof -
  have "live_at (keys (sv_conns s)) a \<and> fst (keys (sv_conns s) ! a) = i"
    using assms unfolding server_ok_def registry_ok_def by blast
  then show "a < length (sv_conns s)" "registered (sv_conns s ! a)" "cn_id (sv_conns s ! a) = i"
    by (auto simp: live_keys keys_nth)
qed

lemma filter_indices: "length (filter P xs) = card {a. a < length xs \<and> P (xs ! a)}"
  by (rule length_filter_conv_card)

lemma registry_count:
  assumes "registry_ok ks act" and "distinct (map fst ks)"
  shows "length act = length (filter (\<lambda>k. snd k \<in> {Connecting, Serving}) ks)"
proof -
  have d: "distinct (map fst act)" and m: "\<And>i a. map_of act i = Some a \<Longrightarrow> live_at ks a \<and> fst (ks ! a) = i"
    and l: "\<And>a. live_at ks a \<Longrightarrow> map_of act (fst (ks ! a)) = Some a \<or> shared_id ks a"
    using assms(1) by (auto simp: registry_ok_def)
  have "\<not> shared_id ks a" if "live_at ks a" for a
    using that assms(2) by (auto simp: shared_id_def live_at_def distinct_conv_nth)
  then have e: "set act = (\<lambda>a. (fst (ks ! a), a)) ` {a. live_at ks a}"
    using l m d by (auto simp: image_iff)
  have "length act = card (set act)"
    using d by (simp add: distinct_card distinct_map)
  also have "\<dots> = card {a. live_at ks a}"
    unfolding e by (rule card_image) (auto simp: inj_on_def)
  finally show ?thesis
    by (simp add: filter_indices live_at_def)
qed

text \<open>C2. The books of the server are right at every moment, whatever its clients, its operators and its upstreams do
  and however a connection ends, by an error, a panic or in good order: the gauge of client connections
  is the number of connections that have not been closed, every entry of the registry is a connection
  that has logged in and is not closed, and as long as no identifier has been given out twice every such
  connection is in the registry, so that the number of active proxies is theirs.\<close>

theorem server_books:
  fixes en :: "('w, 'c) environment" and evs :: "'a server_event list" and s :: "('w, 'a, 'c) server"
  assumes "s = server_run en evs (NewServer (en_lru en) (en_Hash en) config w)"
  shows "ClientConnections (sv_metrics s) = word_of_nat (length (filter (\<lambda>c. cn_phase c \<noteq> Closed) (sv_conns s))) \<and>
    (\<forall>i a. map_of (sv_active s) i = Some a \<longrightarrow>
      a < length (sv_conns s) \<and> registered (sv_conns s ! a) \<and> cn_id (sv_conns s ! a) = i) \<and>
    (distinct (map cn_id (sv_conns s)) \<longrightarrow>
      (\<forall>a < length (sv_conns s). registered (sv_conns s ! a) \<longrightarrow> map_of (sv_active s) (cn_id (sv_conns s ! a)) = Some a) \<and>
      CountActiveProxies s = length (filter registered (sv_conns s)))"
proof -
  let ?ks = "keys (sv_conns s)"
  have ok: "registry_ok ?ks (sv_active s)" "gauge_ok ?ks (sv_metrics s)"
    using server_run_ok [OF NewServer_ok, of en evs] assms by (simp_all add: server_ok_def)
  have "length (filter (\<lambda>k. snd k \<noteq> Closed) ?ks) = length (filter (\<lambda>c. cn_phase c \<noteq> Closed) (sv_conns s))"
    by (simp add: keys_def filter_map comp_def)
  then have "ClientConnections (sv_metrics s) = word_of_nat (length (filter (\<lambda>c. cn_phase c \<noteq> Closed) (sv_conns s)))"
    using ok(2) by (simp add: gauge_ok_def)
  moreover have "map_of (sv_active s) i = Some a \<Longrightarrow>
      a < length (sv_conns s) \<and> registered (sv_conns s ! a) \<and> cn_id (sv_conns s ! a) = i" for i a
    using registryD [of s i a] ok by (simp add: server_ok_def)
  moreover have "(\<forall>a < length (sv_conns s). registered (sv_conns s ! a) \<longrightarrow>
      map_of (sv_active s) (cn_id (sv_conns s ! a)) = Some a) \<and>
      CountActiveProxies s = length (filter registered (sv_conns s))" if d: "distinct (map cn_id (sv_conns s))"
  proof -
    have "map fst ?ks = map cn_id (sv_conns s)" by (simp add: keys_def)
    then have "distinct (map fst ?ks)" using d by simp
    note registry_count [OF ok(1) this]
    moreover have "length (filter (\<lambda>k. snd k \<in> {Connecting, Serving}) ?ks) = length (filter registered (sv_conns s))"
      by (simp add: keys_def filter_map comp_def registered_def [abs_def])
    moreover have "\<not> shared_id ?ks a" if "a < length (sv_conns s)" for a
      using \<open>distinct (map fst ?ks)\<close> that by (auto simp: shared_id_def distinct_conv_nth)
    ultimately show ?thesis
      using ok(1) by (auto simp: registry_ok_def CountActiveProxies_def keys_nth live_keys)
  qed
  ultimately show ?thesis by blast
qed

text \<open>A small LRU cache, newest first, and the environment of the examples.\<close>

definition list_lru :: "(nat \<times> (string \<times> nat) list) lru" where
  "list_lru = \<lparr>lru_New = (\<lambda>n. (n, [])), lru_Add = (\<lambda>k v (n, xs). (n, take n ((k, v) # AList.delete k xs))),
     lru_Get = (\<lambda>k (n, xs). case map_of xs k of None \<Rightarrow> (None, n, xs) | Some v \<Rightarrow> (Some v, n, (k, v) # AList.delete k xs)),
     lru_Keys = (\<lambda>(n, xs). rev (map fst xs))\<rparr>"

definition server_config :: ConfigData where
  "server_config = \<lparr>c_Upstreams = [], c_HandshakeTimeout = 5 * Second, c_ConnectionCloseTimeout = Second,
     c_GracefulShutdown = \<lparr>gs_ShutdownTimeout = 10 * Second, gs_ReloadTimeout = 30 * Second, gs_RateLimit = 100, gs_BurstSize = 10\<rparr>,
     c_MetricsAttributes = None\<rparr>"

definition cluster_config :: ConfigData where
  "cluster_config = server_config\<lparr>c_Upstreams := [\<lparr>uc_Name = ''primary'', uc_Address = [], uc_Cluster = Some [''a:5672'', ''b:5672''],
     uc_Timeout = 0, uc_HealthCheck = Some \<lparr>hc_Interval = 0, hc_Timeout = 0, hc_UnhealthyThreshold = 0, hc_RecoveryInterval = 0,
       hc_Username = ''u'', hc_Password = ''p''\<rparr>, uc_KeyPatterns = [], uc_QueueAttributes = None, uc_QueueOptions = None\<rparr>]\<rparr>"

definition sample_hash :: "ConfigData \<Rightarrow> string" where
  "sample_hash cfg = (if c_Upstreams cfg = [] then ''0123456789abcdef'' else ''fedcba9876543210'')"

definition sample_env :: "(lib_call list, nat \<times> (string \<times> nat) list) environment" where
  "sample_env = \<lparr>en_lib = recording_lib, en_rt = recording_runtime, en_lru = list_lru, en_Hash = sample_hash,
     en_load = (\<lambda>f. Inr cluster_config), en_wait = (\<lambda>l b n. 1 \<le> b)\<rparr>"

theorem server_books_witness:
  "let s = server_run sample_env [Accept 1 None ''c1'' new_writer [], Accept 2 (Some amqpHeader) ''c2'' new_writer []]
      (NewServer list_lru sample_hash server_config [] :: (lib_call list, nat, nat \<times> (string \<times> nat) list) server) in
    ClientConnections (sv_metrics s) = 1 \<and> CountActiveProxies s = 0"
proof -
  let ?s = "server_run sample_env [Accept 1 None ''c1'' new_writer [], Accept 2 (Some amqpHeader) ''c2'' new_writer []]
      (NewServer list_lru sample_hash server_config [] :: (lib_call list, nat, nat \<times> (string \<times> nat) list) server)"
  obtain c where c: "sv_conns ?s = [c]" "cn_phase c = Handshaking"
    by (cases "generateID (en_rt sample_env) []")
      (auto simp: server_run_def accept_def NewProxy_def NewServer_def on_metrics_def)
  have "ClientConnections (sv_metrics ?s) = word_of_nat (length (filter (\<lambda>c. cn_phase c \<noteq> Closed) (sv_conns ?s)))"
    "distinct (map cn_id (sv_conns ?s)) \<longrightarrow> CountActiveProxies ?s = length (filter registered (sv_conns ?s))"
    using server_books [of ?s sample_env "[Accept 1 None ''c1'' new_writer [], Accept 2 (Some amqpHeader) ''c2'' new_writer []]"
        server_config "[]"] by (simp_all add: sample_env_def)
  then show ?thesis
    unfolding Let_def c by (simp add: c registered_def)
qed

section \<open>Disconnecting the outdated\<close>

lemma fold_on_conn_nth:
  assumes "distinct xs" and "b < length (sv_conns s)"
  shows "sv_conns (fold (\<lambda>a. on_conn a f) xs s) ! b = (if b \<in> set xs then f (sv_conns s ! b) else sv_conns s ! b)"
  using assms by (induction xs arbitrary: s) (auto simp: on_conn_nth)

lemma fold_cancel: "(\<And>n. w n) \<Longrightarrow>
    fold (\<lambda>(n, a) s. if w n then on_conn a f s else s) (enumerate k xs) s = fold (\<lambda>a. on_conn a f) xs s"
  by (induction xs arbitrary: k s) simp_all

lemma fold_on_conn_frame:
  "length (sv_conns (fold (\<lambda>a. on_conn a f) xs s)) = length (sv_conns s)"
  "sv_active (fold (\<lambda>a. on_conn a f) xs s) = sv_active s"
  "sv_config (fold (\<lambda>a. on_conn a f) xs s) = sv_config s"
  "sv_configHash (fold (\<lambda>a. on_conn a f) xs s) = sv_configHash s"
  by (induction xs arbitrary: s) simp_all

lemma fold_cond_frame:
  "sv_config (fold (\<lambda>(n, a) s. if w n then on_conn a f s else s) xs t) = sv_config t"
  "sv_configHash (fold (\<lambda>(n, a) s. if w n then on_conn a f s else s) xs t) = sv_configHash t"
  "length (sv_conns (fold (\<lambda>(n, a) s. if w n then on_conn a f s else s) xs t)) = length (sv_conns t)"
  by (induction xs arbitrary: t) auto

lemma disconnectProxies_frame:
  "sv_config (snd (disconnectProxies wait msg rl bs pred s)) = sv_config s"
  "sv_configHash (snd (disconnectProxies wait msg rl bs pred s)) = sv_configHash s"
  "length (sv_conns (snd (disconnectProxies wait msg rl bs pred s))) = length (sv_conns s)"
  by (simp_all add: disconnectProxies_def Let_def fold_on_conn_frame fold_cond_frame split: prod.split)

lemma targets_distinct:
  assumes "server_ok s" shows "distinct (map snd (sv_active s))"
proof -
  have d: "distinct (map fst (sv_active s))"
    using assms by (simp add: server_ok_def registry_ok_def)
  then have "inj_on snd (set (sv_active s))"
    using registryD(3) [OF assms] by (auto simp: inj_on_def) (metis map_of_eq_Some_iff)
  then show ?thesis
    using d by (simp add: distinct_map)
qed

lemma disconnectProxies_nth:
  assumes "server_ok s" and "\<And>l n. wait l 100 n" and "\<And>n. wait rl bs n" and "b < length (sv_conns s)"
  shows "sv_conns (snd (disconnectProxies wait msg rl bs pred s)) ! b =
    (if (\<exists>i. map_of (sv_active s) i = Some b) \<and> pred (sv_conns s ! b)
     then cancel (setShutdownMessage msg (sv_conns s ! b)) else sv_conns s ! b)"
proof -
  let ?ts = "filter (\<lambda>a. pred (sv_conns s ! a)) (map snd (sv_active s))"
  obtain l bu where lb: "disconnect_limits (length ?ts) rl bs = (l, bu)" by fastforce
  have w: "wait l bu n" for n
    using lb assms(2,3) by (auto simp: disconnect_limits_def split: if_splits)
  have e: "snd (disconnectProxies wait msg rl bs pred s) =
      fold (\<lambda>a. on_conn a cancel) ?ts (fold (\<lambda>a. on_conn a (setShutdownMessage msg)) ?ts s)"
    unfolding disconnectProxies_def Let_def lb by (simp only: prod.case snd_conv fold_cancel w)
  have d: "distinct ?ts"
    using targets_distinct [OF assms(1)] by simp
  have "distinct (map fst (sv_active s))"
    using assms(1) by (simp add: server_ok_def registry_ok_def)
  then have "b \<in> set ?ts \<longleftrightarrow> (\<exists>i. map_of (sv_active s) i = Some b) \<and> pred (sv_conns s ! b)"
    by (force simp: image_iff)
  then show ?thesis
    unfolding e using assms(4) d by (simp only: fold_on_conn_nth fold_on_conn_frame) simp
qed


definition sample_conn :: "(lib_call list, nat) conn" where
  "sample_conn = \<lparr>cn_id = ''c0'', cn_configHash = ''0123456789abcdef'', cn_connectedAt = 7, cn_session = sample_session [],
     cn_probe = \<lparr>ps_buffer = NewProbeLogBuffer 100, ps_chan = []\<rparr>, cn_phase = Serving, cn_cancelled = False\<rparr>"

definition sample_server :: "(lib_call list, nat, nat \<times> (string \<times> nat) list) server" where
  "sample_server = (NewServer list_lru sample_hash server_config [])\<lparr>sv_conns := [sample_conn], sv_active := [(''c0'', 0)],
     sv_metrics := NewMetrics\<lparr>ClientConnections := 1\<rparr>\<rparr>"

lemma sample_server_ok: "server_ok sample_server"
proof -
  have "keys (sv_conns sample_server) = [(''c0'', Serving)]" "sv_active sample_server = [(''c0'', 0)]"
    "ClientConnections (sv_metrics sample_server) = 1"
    by (simp_all add: sample_server_def sample_conn_def keys_def)
  then show ?thesis
    by (auto simp: server_ok_def registry_ok_def gauge_ok_def live_at_def)
qed


section \<open>A connection goes\<close>

lemma deferred_conn:
  assumes "a < length (sv_conns s)"
  shows "k_w (the_proxy (sv_conns (deferred lib lru now a r s) ! a)) = k_w (the_proxy (sv_conns s ! a))"
    and "ps_buffer (cn_probe (sv_conns (deferred lib lru now a r s) ! a)) =
      MarkInactive now (ps_buffer (cn_probe (sv_conns s ! a)))"
    and "cn_phase (sv_conns (deferred lib lru now a r s) ! a) = Closed"
    and "sv_retained (deferred lib lru now a r s) = lru_Add lru (cn_id (sv_conns s ! a)) a (sv_retained s)"
  using assms
  by (simp_all add: deferred_def Let_def on_metrics_def UnregisterProxy_def on_proxy_def on_session_def Proxy_Close_def
      on_conn_nth cancel_def the_proxy_def borrow_def split: prod.split)

text \<open>The turn of a cancelled connection: it says goodbye and leaves through the deferred calls.\<close>

lemma cancelled_proceeds:
  fixes s :: "('w, 'a, 'c) server"
  assumes "a < length (sv_conns s)" and "cn_phase (sv_conns s ! a) = Serving" and "cn_cancelled (sv_conns s ! a)"
    and "ss_status (cn_session (sv_conns s ! a)) = Running" and "live (k_w (the_proxy (sv_conns s ! a)))"
  obtains x s2 b where "proceed lib rt lru now a Cancelled s = deferred lib lru now a x s2" "a < length (sv_conns s2)"
    "cn_id (sv_conns s2 ! a) = cn_id (sv_conns s ! a)" "cn_probe (sv_conns s2 ! a) = cn_probe (sv_conns s ! a)"
    "sv_retained s2 = sv_retained s"
    "MethodFrame_Write 0 (Some (ConnectionClose 200 (p_shutdownMessage (the_proxy (sv_conns s ! a))) 0 0)) = Inr b"
    "cw_sock (k_w (the_proxy (sv_conns s2 ! a))) = written (k_w (the_proxy (sv_conns s ! a))) @ b"
proof -
  let ?ss = "borrow s (cn_session (sv_conns s ! a))"
  let ?s2 = "on_session a (session_step lib rt Cancelled) s"
  have ss: "ss_status ?ss = Running" "live (k_w (ss_proxy ?ss))"
    "p_shutdownMessage (ss_proxy ?ss) = p_shutdownMessage (the_proxy (sv_conns s ! a))"
    "k_w (ss_proxy ?ss) = k_w (the_proxy (sv_conns s ! a))"
    using assms(4,5) by (simp_all add: borrow_def the_proxy_def)
  have c2: "sv_conns ?s2 ! a = (sv_conns s ! a)\<lparr>cn_session := session_step lib rt Cancelled ?ss\<rparr>"
    "a < length (sv_conns ?s2)" "sv_retained ?s2 = sv_retained s"
    using assms(1) by (simp_all add: on_session_def Let_def on_conn_nth)
  have "proceed lib rt lru now a Cancelled s = serving_phase lib rt lru now a Cancelled s"
    using assms(1,2,4) by (simp add: proceed_def)
  then obtain x where "proceed lib rt lru now a Cancelled s = deferred lib lru now a x ?s2"
    using Cancelled_says_goodbye(2) [OF ss(1,2), of lib rt] assms(3)
    by (auto simp: serving_phase_def Let_def c2 enabled_def)
  moreover obtain b where "MethodFrame_Write 0 (Some (ConnectionClose 200 (p_shutdownMessage (ss_proxy ?ss)) 0 0)) = Inr b"
    "cw_sock (k_w (ss_proxy (session_step lib rt Cancelled ?ss))) = written (k_w (ss_proxy ?ss)) @ b"
    using Cancelled_says_goodbye(1) [OF ss(1,2), of lib rt] by blast
  ultimately show ?thesis
    using c2 ss(3,4) by (intro that [of x ?s2 b]) (simp_all add: the_proxy_def)
qed

text \<open>C4. A client that an operator shuts down over the API is disconnected properly: at the next turn of its loop it
  is sent \<^verbatim>\<open>Connection.Close\<close> with code 200 and the operator's reason, or the default reason
  when none is given; it is no longer registered; and its probe log, with all its entries and the time of
  the disconnection, can still be read, provided that the cache of retained logs returns what was just
  added to it.\<close>

theorem shutdown_disconnects:
  fixes s :: "('w, 'a, 'c) server"
  assumes "server_ok s" and "map_of (sv_active s) proxyID = Some a" and "cn_phase (sv_conns s ! a) = Serving"
    and "ss_status (cn_session (sv_conns s ! a)) = Running" and "live (k_w (the_proxy (sv_conns s ! a)))"
    and "fst (lru_Get lru proxyID (lru_Add lru proxyID a (sv_retained s))) = Some a"
    and "t = proceed lib rt lru now a Cancelled (snd (ShutdownProxy proxyID reason s))"
  shows "fst (ShutdownProxy proxyID reason s) \<and> cn_phase (sv_conns t ! a) = Closed \<and> map_of (sv_active t) proxyID = None \<and>
    (\<exists>b. MethodFrame_Write 0 (Some (ConnectionClose 200 (if reason = [] then ''API shutdown request'' else reason) 0 0)) = Inr b \<and>
      cw_sock (k_w (the_proxy (sv_conns t ! a))) = written (k_w (the_proxy (sv_conns s ! a))) @ b) \<and>
    (\<exists>buf. fst (GetProbeLogBuffer lru proxyID t) = Some buf \<and> \<not> IsActive buf \<and> GetDisconnectedAt buf = now \<and>
      GetLogs buf = GetLogs (ps_buffer (cn_probe (sv_conns s ! a))))"
proof -
  let ?r = "if reason = [] then ''API shutdown request'' else reason"
  let ?s1 = "on_conn a (cancel \<circ> setShutdownMessage ?r) s"
  note reg = registryD [OF assms(1,2)]
  have s1: "snd (ShutdownProxy proxyID reason s) = ?s1" "fst (ShutdownProxy proxyID reason s)"
    using assms(2) by (simp_all add: ShutdownProxy_def)
  have c1: "sv_conns ?s1 ! a = cancel (setShutdownMessage ?r (sv_conns s ! a))" "a < length (sv_conns ?s1)"
    using reg(1) by (simp_all add: on_conn_nth)
  have f: "cn_phase (sv_conns ?s1 ! a) = Serving" "cn_cancelled (sv_conns ?s1 ! a)" "cn_id (sv_conns ?s1 ! a) = proxyID"
    "ss_status (cn_session (sv_conns ?s1 ! a)) = Running" "k_w (the_proxy (sv_conns ?s1 ! a)) = k_w (the_proxy (sv_conns s ! a))"
    "p_shutdownMessage (the_proxy (sv_conns ?s1 ! a)) = ?r" "cn_probe (sv_conns ?s1 ! a) = cn_probe (sv_conns s ! a)"
    using assms(3,4) reg(3) by (simp_all add: c1 cancel_def setShutdownMessage_def the_proxy_def)
  obtain x s2 b where t: "t = deferred lib lru now a x s2" and l2: "a < length (sv_conns s2)"
    and i: "cn_id (sv_conns s2 ! a) = proxyID" and pr: "cn_probe (sv_conns s2 ! a) = cn_probe (sv_conns s ! a)"
    and re: "sv_retained s2 = sv_retained s"
    and b: "MethodFrame_Write 0 (Some (ConnectionClose 200 ?r 0 0)) = Inr b"
      "cw_sock (k_w (the_proxy (sv_conns s2 ! a))) = written (k_w (the_proxy (sv_conns s ! a))) @ b"
    by (rule cancelled_proceeds [of a ?s1 lib rt lru now]) (use c1(2) f assms(5,7) s1(1) in auto)
  have act: "map_of (sv_active t) proxyID = None"
    unfolding t deferred_books(2) [OF l2] i by (simp add: delete_conv')
  let ?buf = "MarkInactive now (ps_buffer (cn_probe (sv_conns s ! a)))"
  have "fst (GetProbeLogBuffer lru proxyID t) = Some ?buf"
    using act assms(6) deferred_conn(2,4) [OF l2, of lib lru now x] i pr re
    by (auto simp: GetProbeLogBuffer_def t split: prod.split)
  then show ?thesis
    using s1(2) act b deferred_conn(1,3) [OF l2, of lib lru now x]
    by (auto simp: t MarkInactive_def IsActive_def GetDisconnectedAt_def GetLogs_def)
qed

theorem shutdown_disconnects_witness:
  "let t = proceed recording_lib recording_runtime list_lru 9 0 Cancelled (snd (ShutdownProxy ''c0'' ''maintenance'' sample_server)) in
    map_of (sv_active t) ''c0'' = None \<and>
    (\<exists>b. MethodFrame_Write 0 (Some (ConnectionClose 200 ''maintenance'' 0 0)) = Inr b \<and> cw_sock (k_w (the_proxy (sv_conns t ! 0))) = b) \<and>
    (\<exists>buf. fst (GetProbeLogBuffer list_lru ''c0'' t) = Some buf \<and> GetDisconnectedAt buf = 9)"
proof -
  have c: "sv_conns sample_server ! 0 = sample_conn" "sv_active sample_server = [(''c0'', 0)]"
    by (simp_all add: sample_server_def)
  have "fst (lru_Get list_lru ''c0'' (lru_Add list_lru ''c0'' 0 (sv_retained sample_server))) = Some 0"
    by (simp add: list_lru_def sample_server_def NewServer_def ProbeLogRetentionSize_def)
  moreover have "live (k_w (the_proxy sample_conn))" "written (k_w (the_proxy sample_conn)) = []"
    by (simp_all add: sample_conn_def the_proxy_def sample_session_def sample_proxy_def live_def written_def new_writer_def)
  moreover have "cn_phase sample_conn = Serving" "ss_status (cn_session sample_conn) = Running"
    by (simp_all add: sample_conn_def sample_session_def)
  ultimately show ?thesis
    using shutdown_disconnects [OF sample_server_ok _ _ _ _ _ refl, where proxyID = "''c0''" and a = 0 and lru = list_lru and
        lib = recording_lib and rt = recording_runtime and now = 9 and reason = "''maintenance''"] unfolding Let_def c by auto
qed

section \<open>Health managers of a new configuration\<close>

lemma start_managers:
  "(\<forall>m. map_of ms name = Some m \<longrightarrow> m_ctx m = Some ctx) \<Longrightarrow>
    (map_of (fst (fold (start_manager ctx now reachable) us (ms, mx))) name \<noteq> None \<longleftrightarrow>
      map_of ms name \<noteq> None \<or> (\<exists>u \<in> set us. uc_Name u = name \<and> NewManager u \<noteq> None)) \<and>
    (\<forall>m. map_of (fst (fold (start_manager ctx now reachable) us (ms, mx))) name = Some m \<longrightarrow> m_ctx m = Some ctx)"
proof (induction us arbitrary: ms mx)
  case (Cons u us)
  show ?case
  proof (cases "NewManager u")
    case None
    then show ?thesis
      using Cons by simp
  next
    case (Some mgr)
    obtain m mx' where m: "StartHealthCheck ctx now reachable mgr mx = (m, mx')" by fastforce
    then have "m_ctx m = Some ctx"
      by (auto simp: StartHealthCheck_def split: prod.splits)
    then have "\<forall>m'. map_of (AList.update (uc_Name u) m ms) name = Some m' \<longrightarrow> m_ctx m' = Some ctx"
      using Cons.prems by (simp add: update_conv')
    note Cons.IH [OF this, of mx']
    moreover have "start_manager ctx now reachable u (ms, mx) = (AList.update (uc_Name u) m ms, mx')"
      using Some m by simp
    ultimately show ?thesis
      using Some by (cases "uc_Name u = name") (simp_all add: update_conv' del: start_manager.simps)
  qed
qed simp

text \<open>A new configuration does not bring its health checks with it. The managers are made anew before the server
  switches to the new configuration, so after a reload an upstream has a manager exactly when the old
  configuration had a cluster with health checks of that name; and they run under the context of the
  request, so that none of them checks anything any more once the request has been answered, a tick
  that is due at this very moment aside.\<close>

theorem reload_keeps_old_checks:
  assumes "reloadConfigFromFile Hash load ctx now reachable path s = (Inr cfg, t)"
  shows "(GetHealthManager name t \<noteq> None \<longleftrightarrow>
      (\<exists>u \<in> set (c_Upstreams (sv_config s)). uc_Name u = name \<and> NewManager u \<noteq> None)) \<and>
    (\<forall>m now' r mx. GetHealthManager name t = Some m \<longrightarrow> health_tick {ctx} now' r m mx = (m, mx))"
proof -
  have "sv_health t = sv_health (initHealthManagers ctx now reachable s)"
    using assms by (auto simp: reloadConfigFromFile_def UpdateConfig_def disconnectOutdatedProxies_def Let_def
        split: sum.splits if_splits)
  then have "GetHealthManager name t =
      map_of (fst (fold (start_manager ctx now reachable) (c_Upstreams (sv_config s)) ([], sv_metrics s))) name"
    by (simp add: GetHealthManager_def initHealthManagers_def split: prod.split)
  then show ?thesis
    using start_managers [of "[]" name ctx now reachable "c_Upstreams (sv_config s)" "sv_metrics s"]
    by (simp add: health_tick_def)
qed

theorem reload_keeps_old_checks_witness:
  "\<exists>t. reloadConfigFromFile sample_hash (\<lambda>_. Inr cluster_config) 1 0 (\<lambda>_. True) ''trabbits.json'' sample_server =
      (Inr cluster_config, t) \<and> sv_config t = cluster_config \<and> GetHealthManager ''primary'' t = None"
proof -
  obtain t where t: "reloadConfigFromFile sample_hash (\<lambda>_. Inr cluster_config) 1 0 (\<lambda>_. True) ''trabbits.json'' sample_server =
      (Inr cluster_config, t)" "sv_config t = cluster_config"
    by (auto simp: reloadConfigFromFile_def UpdateConfig_def disconnectOutdatedProxies_def Let_def sample_hash_def
        cluster_config_def)
  moreover have "c_Upstreams (sv_config sample_server) = []"
    by (simp add: sample_server_def NewServer_def server_config_def)
  ultimately show ?thesis
    using reload_keeps_old_checks [OF t(1), of "''primary''"] by simp
qed

end
