(* ===== verification/Api.thy ===== *)
theory Api
  imports Server
begin

text \<open>
  The HTTP interface of the server: the handlers of \<^verbatim>\<open>src/api.go\<close> and the client lists of
  \<^verbatim>\<open>src/server.go\<close> that they answer with. A handler gives a status code and a body; that
  the body is encoded as JSON, and by whom a request is routed, is the library's.
\<close>

section \<open>Clients\<close>

definition summary :: "string \<Rightarrow> StatsSnapshot \<Rightarrow> StatsSummary" where
  "summary duration sn = \<lparr>ts_TotalMethods = sn_TotalMethods sn, ts_ReceivedFrames = sn_ReceivedFrames sn,
     ts_SentFrames = sn_SentFrames sn, ts_TotalFrames = sn_TotalFrames sn, ts_Duration = duration\<rparr>"

definition full_summary :: "nat \<times> string \<Rightarrow> StatsSnapshot \<Rightarrow> FullStatsSummary" where
  "full_summary age sn = \<lparr>fs_StartedAt = fst age, fs_Methods = sn_Methods sn,
     fs_TotalMethods = sn_TotalMethods sn, fs_ReceivedFrames = sn_ReceivedFrames sn,
     fs_SentFrames = sn_SentFrames sn, fs_TotalFrames = sn_TotalFrames sn, fs_Duration = snd age\<rparr>"

text \<open>
  The description of a registered proxy; a shutdown message other than the default marks it as leaving.
  \<open>age\<close> says when the statistics of a proxy were started and how long ago that is.
\<close>

definition active_info :: "(string \<Rightarrow> nat \<times> string) \<Rightarrow> 'w runtime \<Rightarrow> ('w, 'a) conn \<Rightarrow> ClientInfo" where
  "active_info age rt c =
     (let p = the_proxy c; leaving = p_shutdownMessage p \<noteq> ShutdownMsgDefault in
      \<lparr>ci_ID = cn_id c, ci_ClientAddress = p_clientAddr p, ci_User = p_user p, ci_VirtualHost = p_VirtualHost p,
        ci_ClientBanner = ClientBanner rt p, ci_ClientProperties = None,
        ci_ConnectedAt = cn_connectedAt c, ci_DisconnectedAt = 0,
        ci_Status = (if leaving then ClientStatusShuttingDown else ClientStatusActive),
        ci_ShutdownReason = (if leaving then p_shutdownMessage p else []),
        ci_Stats = Some (summary (snd (age (cn_id c))) (Snapshot (k_stats p)))\<rparr>)"

definition retained_info :: "string \<Rightarrow> 'a ProbeLogBuffer \<Rightarrow> ClientInfo" where
  "retained_info proxyID buffer =
     (case GetProxyInfo buffer of (clientAddr, user, virtualHost, clientBanner, connectedAt) \<Rightarrow>
        \<lparr>ci_ID = proxyID, ci_ClientAddress = clientAddr, ci_User = user, ci_VirtualHost = virtualHost,
          ci_ClientBanner = clientBanner, ci_ClientProperties = None,
          ci_ConnectedAt = connectedAt, ci_DisconnectedAt = GetDisconnectedAt buffer,
          ci_Status = ClientStatusDisconnected, ci_ShutdownReason = [], ci_Stats = None\<rparr>)"

text \<open>The loop over the retained logs, oldest first; \<^verbatim>\<open>Get\<close> makes an entry the newest.\<close>

fun retained_clients :: "'c lru \<Rightarrow> ('w, 'a) conn list \<Rightarrow> (string \<times> nat) list \<Rightarrow> string list \<Rightarrow> 'c \<Rightarrow> ClientInfo list \<times> 'c" where
  "retained_clients lru conns active [] cache = ([], cache)"
| "retained_clients lru conns active (proxyID # ids) cache =
     (if map_of active proxyID \<noteq> None then retained_clients lru conns active ids cache
      else case lru_Get lru proxyID cache of
        (None, cache) \<Rightarrow> retained_clients lru conns active ids cache
      | (Some a, cache) \<Rightarrow>
          (let buffer = ps_buffer (cn_probe (conns ! a)) in
           if IsActive buffer then retained_clients lru conns active ids cache
           else case retained_clients lru conns active ids cache of
             (infos, cache) \<Rightarrow> (retained_info proxyID buffer # infos, cache)))"

text \<open>
  \<^verbatim>\<open>sort.Slice\<close> by the time of connection: an insertion sort up to twelve clients, above that
  the result \<open>pdq\<close> of the library's other algorithm.
\<close>

fun insert_client :: "ClientInfo \<Rightarrow> ClientInfo list \<Rightarrow> ClientInfo list" where
  "insert_client c [] = [c]"
| "insert_client c (d # before) =
     (if ci_ConnectedAt c < ci_ConnectedAt d then d # insert_client c before else c # d # before)"

definition sort_clients :: "(ClientInfo list \<Rightarrow> ClientInfo list) \<Rightarrow> ClientInfo list \<Rightarrow> ClientInfo list" where
  "sort_clients pdq cs = (if length cs \<le> 12 then rev (fold insert_client cs []) else pdq cs)"

definition GetClientsInfo :: "(string \<Rightarrow> nat \<times> string) \<Rightarrow> 'c lru \<Rightarrow> 'w runtime \<Rightarrow> (ClientInfo list \<Rightarrow> ClientInfo list) \<Rightarrow> ('w, 'a, 'c) server \<Rightarrow>
    ClientInfo list \<times> ('w, 'a, 'c) server" where
  "GetClientsInfo age lru rt pdq s =
     (case retained_clients lru (sv_conns s) (sv_active s) (lru_Keys lru (sv_retained s)) (sv_retained s) of
        (gone, cache) \<Rightarrow>
          (sort_clients pdq (map (\<lambda>(_, a). active_info age rt (sv_conns s ! a)) (sv_active s) @ gone),
           s\<lparr>sv_retained := cache\<rparr>))"

definition active_full_info :: "(string \<Rightarrow> nat \<times> string) \<Rightarrow> 'w runtime \<Rightarrow> ('w, 'a) conn \<Rightarrow> FullClientInfo" where
  "active_full_info age rt c =
     (let p = the_proxy c; leaving = p_shutdownMessage p \<noteq> ShutdownMsgDefault in
      \<lparr>fi_ID = cn_id c, fi_ClientAddress = p_clientAddr p, fi_User = p_user p, fi_VirtualHost = p_VirtualHost p,
        fi_ClientBanner = ClientBanner rt p, fi_ClientProperties = p_clientProps p,
        fi_ConnectedAt = cn_connectedAt c, fi_DisconnectedAt = 0,
        fi_Status = (if leaving then ClientStatusShuttingDown else ClientStatusActive),
        fi_ShutdownReason = (if leaving then p_shutdownMessage p else []),
        fi_Stats = Some (full_summary (age (cn_id c)) (Snapshot (k_stats p)))\<rparr>)"

definition retained_full_info :: "string \<Rightarrow> 'a ProbeLogBuffer \<Rightarrow> FullClientInfo" where
  "retained_full_info proxyID buffer =
     (case GetProxyInfo buffer of (clientAddr, user, virtualHost, clientBanner, connectedAt) \<Rightarrow>
        \<lparr>fi_ID = proxyID, fi_ClientAddress = clientAddr, fi_User = user, fi_VirtualHost = virtualHost,
          fi_ClientBanner = clientBanner, fi_ClientProperties = None,
          fi_ConnectedAt = connectedAt, fi_DisconnectedAt = GetDisconnectedAt buffer,
          fi_Status = ClientStatusDisconnected, fi_ShutdownReason = [], fi_Stats = None\<rparr>)"

definition GetClientInfo :: "(string \<Rightarrow> nat \<times> string) \<Rightarrow> 'c lru \<Rightarrow> 'w runtime \<Rightarrow> string \<Rightarrow> ('w, 'a, 'c) server \<Rightarrow>
    FullClientInfo option \<times> ('w, 'a, 'c) server" where
  "GetClientInfo age lru rt proxyID s =
     (case map_of (sv_active s) proxyID of
        Some a \<Rightarrow> (Some (active_full_info age rt (sv_conns s ! a)), s)
      | None \<Rightarrow>
          (case lru_Get lru proxyID (sv_retained s) of
             (None, cache) \<Rightarrow> (None, s\<lparr>sv_retained := cache\<rparr>)
           | (Some a, cache) \<Rightarrow>
               (let buffer = ps_buffer (cn_probe (sv_conns s ! a)) in
                (if IsActive buffer then None else Some (retained_full_info proxyID buffer),
                 s\<lparr>sv_retained := cache\<rparr>))))"

section \<open>Requests\<close>

definition APIContentType :: string where "APIContentType = ''application/json''"
definition APIContentTypeJsonnet :: string where "APIContentTypeJsonnet = ''application/jsonnet''"

definition detectContentType :: "string \<Rightarrow> bool go" where
  "detectContentType ct =
     (if has_prefix ct APIContentTypeJsonnet then Inr True
      else if has_prefix ct APIContentType then Inr False
      else Inl (''invalid Content-Type: '' @ ct))"

datatype ('a, 'd) body =
    ErrorText string
  | ConfigBody ConfigData
  | DiffBody 'd
  | ClientsBody "ClientInfo list"
  | ClientBody FullClientInfo
  | ShutdownBody string string
  | ProbeBody string bool "'a probeLog list"

type_synonym ('a, 'd) response = "nat \<times> ('a, 'd) body"

definition createTempConfigFile :: "(string \<Rightarrow> string go) \<Rightarrow> bool \<Rightarrow> string \<Rightarrow> string go" where
  "createTempConfigFile CreateTemp isJsonnet name = CreateTemp (name @ (if isJsonnet then ''*.jsonnet'' else ''*.json''))"

text \<open>\<^verbatim>\<open>processConfigRequest\<close>: the name of a temporary file with the payload, or the error response.\<close>

definition processConfigRequest :: "(string \<Rightarrow> string go) \<Rightarrow> (string \<Rightarrow> unit go) \<Rightarrow> string \<Rightarrow> string \<Rightarrow>
    ('a, 'd) response + string" where
  "processConfigRequest CreateTemp Copy ct name =
     (case detectContentType ct of
        Inl e \<Rightarrow> Inl (400, ErrorText e)
      | Inr isJsonnet \<Rightarrow>
          (case createTempConfigFile CreateTemp isJsonnet name of
             Inl e \<Rightarrow> Inl (500, ErrorText e)
           | Inr configFile \<Rightarrow>
               (case Copy configFile of Inl e \<Rightarrow> Inl (500, ErrorText e) | Inr _ \<Rightarrow> Inr configFile)))"

definition apiGetConfigHandler :: "('w, 'a, 'c) server \<Rightarrow> ('a, 'd) response" where
  "apiGetConfigHandler s = (200, ConfigBody (sv_config s))"

text \<open>The server recovers a panic of a handler by closing the connection, which is the response \<open>0\<close>.\<close>

definition apiPutConfigHandler :: "(ConfigData \<Rightarrow> string) \<Rightarrow> (string \<Rightarrow> ConfigData go) \<Rightarrow> (string \<Rightarrow> string go) \<Rightarrow>
    (string \<Rightarrow> unit go) \<Rightarrow> nat \<Rightarrow> int \<Rightarrow> (string \<Rightarrow> bool) \<Rightarrow> string \<Rightarrow> ('w, 'a, 'c) server \<Rightarrow>
    ('a, 'd) response \<times> ('w, 'a, 'c) server" where
  "apiPutConfigHandler Hash load CreateTemp Copy ctx now reachable ct s =
     (case processConfigRequest CreateTemp Copy ct ''trabbits-config-'' of
        Inl r \<Rightarrow> (r, s)
      | Inr configFile \<Rightarrow>
          (case load configFile of
             Inl e \<Rightarrow> ((400, ErrorText e), s)
           | Inr cfg \<Rightarrow>
               (let s = UpdateConfig Hash cfg (initHealthManagers ctx now reachable s) in
                case disconnectOutdatedProxies (Hash cfg) s of
                  None \<Rightarrow> ((0, ErrorText ''panic: slice bounds out of range''), s)
                | Some s \<Rightarrow> ((200, ConfigBody cfg), s))))"

definition apiDiffConfigHandler :: "(ConfigData \<Rightarrow> ConfigData \<Rightarrow> 'd go) \<Rightarrow> (string \<Rightarrow> ConfigData go) \<Rightarrow> (string \<Rightarrow> string go) \<Rightarrow>
    (string \<Rightarrow> unit go) \<Rightarrow> string \<Rightarrow> ('w, 'a, 'c) server \<Rightarrow> ('a, 'd) response" where
  "apiDiffConfigHandler Diff load CreateTemp Copy ct s =
     (case processConfigRequest CreateTemp Copy ct ''trabbits-config-diff-'' of
        Inl r \<Rightarrow> r
      | Inr configFile \<Rightarrow>
          (case load configFile of
             Inl e \<Rightarrow> (400, ErrorText e)
           | Inr newCfg \<Rightarrow>
               (case Diff (sv_config s) newCfg of Inl e \<Rightarrow> (500, ErrorText e) | Inr d \<Rightarrow> (200, DiffBody d))))"

definition apiReloadConfigHandler :: "(ConfigData \<Rightarrow> string) \<Rightarrow> (string \<Rightarrow> ConfigData go) \<Rightarrow> nat \<Rightarrow> int \<Rightarrow> (string \<Rightarrow> bool) \<Rightarrow>
    string \<Rightarrow> ('w, 'a, 'c) server \<Rightarrow> ('a, 'd) response \<times> ('w, 'a, 'c) server" where
  "apiReloadConfigHandler Hash load ctx now reachable configPath s =
     (case reloadConfigFromFile Hash load ctx now reachable configPath s of
        (Inl e, s) \<Rightarrow> ((500, ErrorText e), s)
      | (Inr cfg, s) \<Rightarrow> ((200, ConfigBody cfg), s))"

definition apiGetClientsHandler :: "(string \<Rightarrow> nat \<times> string) \<Rightarrow> 'c lru \<Rightarrow> 'w runtime \<Rightarrow> (ClientInfo list \<Rightarrow> ClientInfo list) \<Rightarrow> ('w, 'a, 'c) server \<Rightarrow>
    ('a, 'd) response \<times> ('w, 'a, 'c) server" where
  "apiGetClientsHandler age lru rt pdq s = (case GetClientsInfo age lru rt pdq s of (clients, s) \<Rightarrow> ((200, ClientsBody clients), s))"

definition apiGetClientHandler :: "(string \<Rightarrow> nat \<times> string) \<Rightarrow> 'c lru \<Rightarrow> 'w runtime \<Rightarrow> string \<Rightarrow> ('w, 'a, 'c) server \<Rightarrow>
    ('a, 'd) response \<times> ('w, 'a, 'c) server" where
  "apiGetClientHandler age lru rt proxyID s =
     (if proxyID = [] then ((400, ErrorText ''Proxy ID is required''), s)
      else case GetClientInfo age lru rt proxyID s of
        (None, s) \<Rightarrow> ((404, ErrorText ''Proxy not found''), s)
      | (Some info, s) \<Rightarrow> ((200, ClientBody info), s))"

definition apiShutdownClientHandler :: "string \<Rightarrow> string \<Rightarrow> string \<Rightarrow> string \<Rightarrow> ('w, 'a, 'c) server \<Rightarrow>
    ('a, 'd) response \<times> ('w, 'a, 'c) server" where
  "apiShutdownClientHandler path method proxyID shutdownReason s =
     (if proxyID = []
      then ((400, ErrorText (''Proxy ID is required. URL path: '' @ path @ '', Method: '' @ method)), s)
      else case ShutdownProxy proxyID shutdownReason s of
        (False, s) \<Rightarrow> ((404, ErrorText ''Proxy not found''), s)
      | (True, s) \<Rightarrow> ((200, ShutdownBody proxyID shutdownReason), s))"

text \<open>
  \<^verbatim>\<open>apiProbeLogHandler\<close> up to the stream: the status it announces and the retained logs. For a
  connected client the stream of its channel follows.
\<close>

definition apiProbeLogHandler :: "'c lru \<Rightarrow> string \<Rightarrow> ('w, 'a, 'c) server \<Rightarrow> ('a, 'd) response \<times> ('w, 'a, 'c) server" where
  "apiProbeLogHandler lru proxyID s =
     (if proxyID = [] then ((400, ErrorText ''Proxy ID is required''), s)
      else
        let isActive = (map_of (sv_active s) proxyID \<noteq> None) in
        case GetProbeLogBuffer lru proxyID s of
          (None, s) \<Rightarrow> ((404, ErrorText ''Proxy not found''), s)
        | (Some buffer, s) \<Rightarrow> ((200, ProbeBody proxyID isActive (GetLogs buffer)), s))"

section \<open>The list of clients\<close>

definition by_time :: "ClientInfo list \<Rightarrow> bool" where
  "by_time cs = sorted_wrt (\<lambda>a b. ci_ConnectedAt a \<le> ci_ConnectedAt b) cs"

lemma insert_client_sorts:
  assumes "sorted_wrt (\<lambda>a b. ci_ConnectedAt b \<le> ci_ConnectedAt a) before"
  shows "mset (insert_client c before) = add_mset c (mset before) \<and>
    sorted_wrt (\<lambda>a b. ci_ConnectedAt b \<le> ci_ConnectedAt a) (insert_client c before)"
  using assms
proof (induction before)
  case (Cons d before)
  then have ih: "mset (insert_client c before) = add_mset c (mset before)" by simp
  then have "set (insert_client c before) = insert c (set before)"
    by (metis set_mset_add_mset_insert set_mset_mset)
  then show ?case
    using Cons ih by auto
qed simp

lemma sort_clients_sorts:
  assumes "\<And>xs. mset (pdq xs) = mset xs \<and> by_time (pdq xs)"
  shows "mset (sort_clients pdq cs) = mset cs \<and> by_time (sort_clients pdq cs)"
proof -
  have "sorted_wrt (\<lambda>a b. ci_ConnectedAt b \<le> ci_ConnectedAt a) acc \<Longrightarrow>
      mset (fold insert_client cs acc) = mset cs + mset acc \<and>
      sorted_wrt (\<lambda>a b. ci_ConnectedAt b \<le> ci_ConnectedAt a) (fold insert_client cs acc)" for acc
    by (induction cs arbitrary: acc) (simp_all add: insert_client_sorts)
  from this [of "[]"] show ?thesis
    using assms [of cs] by (simp add: sort_clients_def by_time_def sorted_wrt_rev)
qed

lemma retained_clients_ids:
  "retained_clients lru conns act ids cache = (infos, cache') \<Longrightarrow> c \<in> set infos \<Longrightarrow>
    ci_ID c \<in> set ids \<and> map_of act (ci_ID c) = None \<and> ci_Status c = ClientStatusDisconnected"
proof (induction ids arbitrary: cache infos)
  case (Cons i ids)
  show ?case
  proof (cases "fst (lru_Get lru i cache)")
    case None
    then show ?thesis
      using Cons.prems Cons.IH [of "snd (lru_Get lru i cache)"] Cons.IH [of cache]
      by (cases "lru_Get lru i cache") (auto split: if_splits)
  next
    case (Some a)
    obtain infos' cache'' where r: "retained_clients lru conns act ids (snd (lru_Get lru i cache)) = (infos', cache'')"
      by fastforce
    then have ih: "c \<in> set infos' \<Longrightarrow> cache'' = cache' \<Longrightarrow>
        ci_ID c \<in> set ids \<and> map_of act (ci_ID c) = None \<and> ci_Status c = ClientStatusDisconnected"
      using Cons.IH by blast
    then show ?thesis
      using Some r Cons.prems Cons.IH [of cache]
      by (cases "lru_Get lru i cache") (auto simp: Let_def retained_info_def GetProxyInfo_def split: if_splits)
  qed
qed simp

lemma filter_key: "distinct (map fst al) \<Longrightarrow> map_of al i = Some a \<Longrightarrow> filter (\<lambda>x. fst x = i) al = [(i, a)]"
proof (induction al)
  case (Cons x al)
  moreover have "fst x \<notin> fst ` set al \<Longrightarrow> filter (\<lambda>y. fst y = fst x) al = []"
    by (metis (mono_tags, lifting) filter_False image_eqI)
  ultimately show ?case
    by (cases x) (auto split: if_splits)
qed simp

text \<open>C38. The list of clients is complete, exact and in order: it is sorted by the time of connection; a registered
  client is in it exactly once, with its current data, active as long as nobody has asked it to leave and
  shutting down with the reason otherwise; and every other client of the list is one that has gone and
  whose log is retained. The library's sort is assumed to sort.\<close>

theorem clients_listed:
  fixes s :: "('w, 'a, 'c) server"
  assumes "server_ok s" and "\<And>xs. mset (pdq xs) = mset xs \<and> by_time (pdq xs)"
    and "GetClientsInfo age lru rt pdq s = (clients, t)"
  shows "by_time clients \<and>
    (\<forall>i a. map_of (sv_active s) i = Some a \<longrightarrow> filter (\<lambda>c. ci_ID c = i) clients = [active_info age rt (sv_conns s ! a)] \<and>
      (ci_Status (active_info age rt (sv_conns s ! a)) = ClientStatusActive \<longleftrightarrow>
        p_shutdownMessage (the_proxy (sv_conns s ! a)) = ShutdownMsgDefault)) \<and>
    (\<forall>c \<in> set clients. map_of (sv_active s) (ci_ID c) = None \<longrightarrow>
      ci_ID c \<in> set (lru_Keys lru (sv_retained s)) \<and> ci_Status c = ClientStatusDisconnected)"
proof -
  let ?act = "map (\<lambda>(_, a). active_info age rt (sv_conns s ! a)) (sv_active s)"
  obtain gone cache where g: "retained_clients lru (sv_conns s) (sv_active s) (lru_Keys lru (sv_retained s)) (sv_retained s) =
      (gone, cache)" by fastforce
  then have c: "clients = sort_clients pdq (?act @ gone)"
    using assms(3) by (simp add: GetClientsInfo_def)
  note s = sort_clients_sorts [OF assms(2), of "?act @ gone", folded c]
  have d: "distinct (map fst (sv_active s))"
    using assms(1) by (simp add: server_ok_def registry_ok_def)
  have active: "ci_ID (active_info age rt (sv_conns s ! a)) = i" if "(i, a) \<in> set (sv_active s)" for i a
    using registryD(3) [OF assms(1), of i a] that d by (simp add: active_info_def Let_def)
  have "filter (\<lambda>c. ci_ID c = i) clients = [active_info age rt (sv_conns s ! a)]" if "map_of (sv_active s) i = Some a" for i a
  proof -
    have "filter (\<lambda>c. ci_ID c = i) gone = []"
      using retained_clients_ids [OF g] that by (auto simp: filter_empty_conv)
    moreover have "filter (\<lambda>c. ci_ID c = i) ?act =
        map (\<lambda>(_, a). active_info age rt (sv_conns s ! a)) (filter (\<lambda>x. fst x = i) (sv_active s))"
      unfolding filter_map by (intro arg_cong [of _ _ "map _"] filter_cong) (auto simp: active)
    ultimately have "filter (\<lambda>c. ci_ID c = i) (?act @ gone) = [active_info age rt (sv_conns s ! a)]"
      using filter_key [OF d that] by simp
    moreover have "mset (filter (\<lambda>c. ci_ID c = i) clients) = mset (filter (\<lambda>c. ci_ID c = i) (?act @ gone))"
      unfolding mset_filter using s by (simp only:)
    ultimately show ?thesis
      by (metis mset_single_iff mset.simps)
  qed
  moreover have "ci_ID c \<in> set (lru_Keys lru (sv_retained s)) \<and> ci_Status c = ClientStatusDisconnected"
    if "c \<in> set clients" "map_of (sv_active s) (ci_ID c) = None" for c
  proof -
    have "c \<in> set (?act @ gone)"
      using that(1) s by (metis mset_eq_setD)
    moreover have "c \<notin> set ?act"
      using that(2) active d by (auto simp: map_of_eq_None_iff image_iff)
    ultimately show ?thesis
      using retained_clients_ids [OF g] by auto
  qed
  ultimately show ?thesis
    using s by (simp add: active_info_def Let_def)
qed

theorem clients_listed_witness:
  "\<exists>t. GetClientsInfo (\<lambda>_. (0, [])) list_lru recording_runtime (\<lambda>xs. sort_key ci_ConnectedAt xs)
      (snd (ShutdownProxy ''c0'' ''maintenance'' sample_server)) =
    ([active_info (\<lambda>_. (0, [])) recording_runtime (cancel (setShutdownMessage ''maintenance'' sample_conn))], t)"
proof -
  let ?s = "snd (ShutdownProxy ''c0'' ''maintenance'' sample_server)"
  let ?pdq = "\<lambda>xs. sort_key ci_ConnectedAt xs"
  have s: "sv_conns ?s = [cancel (setShutdownMessage ''maintenance'' sample_conn)]" "sv_active ?s = [(''c0'', 0)]"
    "sv_retained ?s = (1000, [])"
    by (simp_all add: ShutdownProxy_def sample_server_def on_conn_def NewServer_def list_lru_def ProbeLogRetentionSize_def)
  obtain cs t where g: "GetClientsInfo (\<lambda>_. (0, [])) list_lru recording_runtime ?pdq ?s = (cs, t)" by fastforce
  have ok: "server_ok ?s"
    using server_step_ok [OF sample_server_ok, of sample_env "Shutdown ''c0'' ''maintenance''"] by simp
  have "mset (?pdq xs) = mset xs \<and> by_time (?pdq xs)" for xs
    using sorted_sort_key [of ci_ConnectedAt xs] by (simp add: by_time_def sorted_map)
  note l = clients_listed [OF ok this g]
  have "length cs = 1"
    using g s by (auto simp: GetClientsInfo_def list_lru_def sort_clients_def)
  then obtain c where "cs = [c]" by (auto simp: length_Suc_conv)
  then show ?thesis
    using l s g by (auto split: if_splits)
qed

section \<open>Requests for the configuration\<close>



end
