(* ===== verification/Go_Text.thy ===== *)
theory Go_Text
  imports Trabbits_Prelude "HOL-Library.Monad_Syntax"
begin

text \<open>
  The parts of Go and of its \<^verbatim>\<open>fmt\<close>, \<^verbatim>\<open>strconv\<close>, \<^verbatim>\<open>strings\<close> and
  \<^verbatim>\<open>unicode/utf8\<close> packages that the programs writing text for people use: indexing and slicing
  that panic out of range (\<open>None\<close> is the panic), runes and their encoding, decimal numbers, padding, and
  64-bit floating point as far as a quotient of integers printed with one decimal needs it.
\<close>

section \<open>Indexing\<close>

definition index :: "'a list \<Rightarrow> int \<Rightarrow> 'a option" where
  "index xs i = (if 0 \<le> i \<and> i < int (length xs) then Some (xs ! nat i) else None)"

definition subslice :: "'a list \<Rightarrow> int \<Rightarrow> int \<Rightarrow> 'a list option" where
  "subslice xs a b =
     (if 0 \<le> a \<and> a \<le> b \<and> b \<le> int (length xs) then Some (take (nat (b - a)) (drop (nat a) xs)) else None)"

abbreviation len :: "'a list \<Rightarrow> int" where
  "len xs \<equiv> int (length xs)"

lemma index_in [simp]: "0 \<le> i \<Longrightarrow> i < len xs \<Longrightarrow> index xs i = Some (xs ! nat i)"
  by (simp add: index_def)

lemma subslice_in [simp]: "0 \<le> a \<Longrightarrow> a \<le> b \<Longrightarrow> b \<le> len xs \<Longrightarrow> subslice xs a b = Some (take (nat (b - a)) (drop (nat a) xs))"
  by (simp add: subslice_def)

lemma subslice_split:
  assumes "0 \<le> i" and "i \<le> len xs"
  shows "subslice xs 0 i = Some (take (nat i) xs) \<and> subslice xs i (len xs) = Some (drop (nat i) xs)"
  using assms by (simp add: nat_diff_distrib)

section \<open>Runes\<close>

text \<open>A rune is a code point; \<^verbatim>\<open>utf8.RuneError\<close> stands for bytes that are no encoding.\<close>

definition RuneError :: nat where "RuneError = 65533"

abbreviation byte_at :: "string \<Rightarrow> nat \<Rightarrow> nat" where
  "byte_at s i \<equiv> of_char (s ! i)"

definition continues :: "nat \<Rightarrow> nat \<Rightarrow> string \<Rightarrow> nat \<Rightarrow> bool" where
  "continues lo hi s i \<longleftrightarrow> i < length s \<and> lo \<le> byte_at s i \<and> byte_at s i \<le> hi"

text \<open>\<^verbatim>\<open>utf8.DecodeRuneInString\<close> on a string that is not empty: the rune and its width in bytes.\<close>

definition decode_rune :: "string \<Rightarrow> nat \<times> nat" where
  "decode_rune s =
     (let b = byte_at s 0;
          lo = (if b = 0xE0 then 0xA0 else if b = 0xF0 then 0x90 else 0x80);
          hi = (if b = 0xED then 0x9F else if b = 0xF4 then 0x8F else 0xBF) in
      if b < 0x80 then (b, 1)
      else if 0xC2 \<le> b \<and> b \<le> 0xDF \<and> continues lo hi s 1
      then ((b mod 32) * 64 + byte_at s 1 mod 64, 2)
      else if 0xE0 \<le> b \<and> b \<le> 0xEF \<and> continues lo hi s 1 \<and> continues 0x80 0xBF s 2
      then ((b mod 16) * 4096 + (byte_at s 1 mod 64) * 64 + byte_at s 2 mod 64, 3)
      else if 0xF0 \<le> b \<and> b \<le> 0xF4 \<and> continues lo hi s 1 \<and> continues 0x80 0xBF s 2 \<and> continues 0x80 0xBF s 3
      then ((b mod 8) * 262144 + (byte_at s 1 mod 64) * 4096 + (byte_at s 2 mod 64) * 64 + byte_at s 3 mod 64, 4)
      else (RuneError, 1))"

lemma decode_rune_width: "0 < snd (decode_rune s)"
  by (simp add: decode_rune_def Let_def)

text \<open>\<^verbatim>\<open>[]rune(s)\<close>\<close>

function runes :: "string \<Rightarrow> nat list" where
  "runes [] = []"
| "runes (c # s) = fst (decode_rune (c # s)) # runes (drop (snd (decode_rune (c # s))) (c # s))"
  by pat_completeness auto
termination
  by (relation "measure length", simp, metis decode_rune_width diff_less length_drop length_greater_0_conv in_measure list.distinct(1))

definition rune_ok :: "nat \<Rightarrow> bool" where
  "rune_ok r \<longleftrightarrow> r < 0xD800 \<or> 0xDFFF < r \<and> r \<le> 0x10FFFF"

text \<open>The conversion of a rune to a string.\<close>

definition encode_rune :: "nat \<Rightarrow> string" where
  "encode_rune r =
     (let r = (if rune_ok r then r else RuneError) in
      map char_of (if r < 0x80 then [r]
        else if r < 0x800 then [0xC0 + r div 64, 0x80 + r mod 64]
        else if r < 0x10000 then [0xE0 + r div 4096, 0x80 + r div 64 mod 64, 0x80 + r mod 64]
        else [0xF0 + r div 262144, 0x80 + r div 4096 mod 64, 0x80 + r div 64 mod 64, 0x80 + r mod 64]))"

text \<open>\<^verbatim>\<open>string(rs)\<close>\<close>

definition string_of_runes :: "nat list \<Rightarrow> string" where
  "string_of_runes rs = concat (map encode_rune rs)"

lemma of_char_of_byte: "n < 256 \<Longrightarrow> of_char (char_of n :: char) = (n :: nat)"
  by simp

lemma base_64:
  fixes r :: nat
  shows "r div 4096 * 4096 + r div 64 mod 64 * 64 + r mod 64 = r"
    and "r div 262144 * 262144 + r div 4096 mod 64 * 4096 + r div 64 mod 64 * 64 + r mod 64 = r"
proof -
  have "r div 4096 = r div 64 div 64" "r div 262144 = r div 4096 div 64"
    by (simp_all add: div_mult2_eq [symmetric])
  then have "r div 4096 * 64 + r div 64 mod 64 = r div 64" "r div 262144 * 64 + r div 4096 mod 64 = r div 4096"
    by simp_all
  moreover have "r div 64 * 64 + r mod 64 = r" by simp
  ultimately show "r div 4096 * 4096 + r div 64 mod 64 * 64 + r mod 64 = r"
    and "r div 262144 * 262144 + r div 4096 mod 64 * 4096 + r div 64 mod 64 * 64 + r mod 64 = r"
    by linarith+
qed

lemma lead_mod:
  fixes n :: nat
  shows "n < 64 \<Longrightarrow> (128 + n) mod 64 = n" "n < 32 \<Longrightarrow> (192 + n) mod 32 = n"
    "n < 16 \<Longrightarrow> (224 + n) mod 16 = n" "n < 8 \<Longrightarrow> (240 + n) mod 8 = n"
  using mod_mult_self4 [of 64 2 n] mod_mult_self4 [of 32 6 n] mod_mult_self4 [of 16 14 n] mod_mult_self4 [of 8 30 n]
  by simp_all

lemma decode_encode_rune:
  assumes "rune_ok r"
  shows "encode_rune r \<noteq> [] \<and> decode_rune (encode_rune r @ s) = (r, length (encode_rune r))"
proof -
  consider "r < 0x80" | "0x80 \<le> r" "r < 0x800" | "0x800 \<le> r" "r < 0x10000" | "0x10000 \<le> r" "r \<le> 0x10FFFF"
    using assms by (fastforce simp: rune_ok_def)
  then show ?thesis
  proof cases
    case 1
    then show ?thesis
      using assms by (simp add: encode_rune_def decode_rune_def Let_def)
  next
    case 2
    define q m where qm: "q = r div 64" "m = r mod 64"
    then have "r = q * 64 + m" "m < 64" by auto
    moreover from this have "2 \<le> q" "q < 32" using 2 by auto
    ultimately show ?thesis
      using 2 assms by (simp add: encode_rune_def decode_rune_def continues_def Let_def qm [symmetric] lead_mod)
  next
    case 3
    define p q m where pqm: "p = r div 4096" "q = r div 64 mod 64" "m = r mod 64"
    then have "q < 64" "m < 64" and r: "r = p * 4096 + q * 64 + m" using base_64 [of r] by simp_all
    then have "p < 16" "p = 0 \<Longrightarrow> 32 \<le> q" "p = 13 \<Longrightarrow> q < 32"
      using 3 assms unfolding rune_ok_def by auto
    then have "decode_rune (map char_of [224 + p, 128 + q, 128 + m] @ s) = (r, 3)"
      using \<open>q < 64\<close> \<open>m < 64\<close> unfolding r decode_rune_def Let_def continues_def by (auto simp: lead_mod)
    then show ?thesis
      using 3 assms by (simp add: encode_rune_def pqm)
  next
    case 4
    define k p q m where opqm: "k = r div 262144" "p = r div 4096 mod 64" "q = r div 64 mod 64" "m = r mod 64"
    then have "p < 64" "q < 64" "m < 64" and r: "r = k * 262144 + p * 4096 + q * 64 + m" using base_64 [of r] by simp_all
    then have "k \<le> 4" "k = 0 \<Longrightarrow> 16 \<le> p" "k = 4 \<Longrightarrow> p < 16"
      using 4 by auto
    then have "decode_rune (map char_of [240 + k, 128 + p, 128 + q, 128 + m] @ s) = (r, 4)"
      using \<open>p < 64\<close> \<open>q < 64\<close> \<open>m < 64\<close> unfolding r decode_rune_def Let_def continues_def by (auto simp: lead_mod)
    then show ?thesis
      using 4 assms by (simp add: encode_rune_def opqm)
  qed
qed

lemma runes_of_runes: "\<forall>r \<in> set rs. rune_ok r \<Longrightarrow> runes (string_of_runes rs) = rs"
proof (induction rs)
  case (Cons r rs)
  let ?s = "encode_rune r @ string_of_runes rs"
  have d: "encode_rune r \<noteq> []" "decode_rune ?s = (r, length (encode_rune r))"
    using decode_encode_rune Cons.prems by auto
  then obtain c cs where "?s = c # cs" by (cases ?s) auto
  then have "runes ?s = r # runes (drop (length (encode_rune r)) ?s)"
    using d(2) by simp
  then show ?case
    using Cons by (simp add: string_of_runes_def)
qed (simp add: string_of_runes_def)

lemma string_of_runes_append [simp]: "string_of_runes (a @ b) = string_of_runes a @ string_of_runes b"
  by (simp add: string_of_runes_def)

section \<open>Numbers and padding\<close>

text \<open>\<^verbatim>\<open>%d\<close>\<close>

definition itoa :: "int \<Rightarrow> string" where
  "itoa i = (if i < 0 then CHR ''-'' # show_nat (nat (- i)) else show_nat (nat i))"

text \<open>\<^verbatim>\<open>%-ns\<close>: blanks on the right, counted in runes.\<close>

definition pad_right :: "nat \<Rightarrow> string \<Rightarrow> string" where
  "pad_right n s = s @ replicate (n - length (runes s)) CHR '' ''"

section \<open>Floating point\<close>

text \<open>
  The values are the fractions \<open>a / 2 ^ s\<close> with \<open>a\<close> of at most 53 bits. \<open>rounded a b\<close> is the integer nearest
  to \<open>a / b\<close>, the even one of two.
\<close>

fun bit_length :: "nat \<Rightarrow> nat" where
  "bit_length n = (if n = 0 then 0 else Suc (bit_length (n div 2)))"

declare bit_length.simps [simp del]

definition rounded :: "nat \<Rightarrow> nat \<Rightarrow> nat" where
  "rounded a b =
     (let q = a div b; r = a mod b in
      if 2 * r < b \<or> 2 * r = b \<and> even q then q else Suc q)"

text \<open>\<^verbatim>\<open>float64(n)\<close>\<close>

definition float64 :: "nat \<Rightarrow> nat" where
  "float64 n = (let k = bit_length n - 53 in rounded n (2 ^ k) * 2 ^ k)"

text \<open>
  The float nearest to a quotient, as \<open>(a, s)\<close> for \<open>a / 2 ^ s\<close>: \<open>scale\<close> makes \<open>a\<close> a number of 53 bits. The
  operands of the sources are floats whose quotients and sums are below \<open>2 ^ 53\<close>.
\<close>

function scale :: "nat \<Rightarrow> nat \<Rightarrow> nat" where
  "scale a b = (if a = 0 \<or> b \<le> a then 53 - bit_length (a div b) else Suc (scale (2 * a) b))"
  by auto
termination
  by (relation "measure (\<lambda>(a, b). b - a)") auto

declare scale.simps [simp del]

definition float_div :: "nat \<Rightarrow> nat \<Rightarrow> nat \<times> nat" where
  "float_div a b = (let s = scale a b in (rounded (a * 2 ^ s) b, s))"

text \<open>The sum of an integer and a float.\<close>

definition float_add :: "nat \<Rightarrow> nat \<times> nat \<Rightarrow> nat \<times> nat" where
  "float_add n x = (case x of (a, s) \<Rightarrow> float_div (n * 2 ^ s + a) (2 ^ s))"

text \<open>\<^verbatim>\<open>int(x)\<close>\<close>

definition truncated :: "nat \<times> nat \<Rightarrow> nat" where
  "truncated x = (case x of (a, s) \<Rightarrow> a div 2 ^ s)"

text \<open>\<^verbatim>\<open>%.1f\<close>: the tenths nearest to the value.\<close>

definition tenths :: "nat \<times> nat \<Rightarrow> nat" where
  "tenths x = (case x of (a, s) \<Rightarrow> rounded (10 * a) (2 ^ s))"

definition format_tenths :: "nat \<Rightarrow> string" where
  "format_tenths t = show_nat (t div 10) @ CHR ''.'' # show_nat (t mod 10)"

lemma rounded_near:
  assumes "0 < b"
  shows "2 * (rounded a b * b) \<le> 2 * a + b \<and> 2 * a \<le> 2 * (rounded a b * b) + b"
proof -
  have "a div b * b + a mod b = a" "a mod b < b" using assms by auto
  then show ?thesis
    unfolding rounded_def Let_def by (simp split: if_splits) (use \<open>a div b * b + a mod b = a\<close> in linarith)
qed

end
