(* ===== verification/Api_Stream.thy ===== *)
theory Api_Stream
  imports Api Go_Text
begin

text \<open>
  The parts of \<^verbatim>\<open>src/api.go\<close> around the handlers: which request reaches which handler, and the
  two handlers that answer with a stream of server-sent events, the probe log of a client and the server log.
  A stream is the text written so far, given what the goroutine receives from its channel. The JSON encoder is
  a parameter; \<open>None\<close> is its error, on which the code leaves the entry out.
\<close>

section \<open>Routes\<close>

datatype api_handler =
    GetConfigHandler
  | PutConfigHandler
  | DiffConfigHandler
  | ReloadConfigHandler
  | GetClientsHandler
  | GetClientHandler string
  | ShutdownClientHandler string
  | ProbeLogHandler string
  | ServerLogsHandler

text \<open>
  The patterns given to the multiplexer, on the segments of a clean path: a pattern without wildcard first, then
  the one with more segments fixed. A pattern for \<^verbatim>\<open>GET\<close> also serves \<^verbatim>\<open>HEAD\<close>.
\<close>

definition api_route :: "string \<Rightarrow> string \<Rightarrow> api_handler option" where
  "api_route method path =
     (let get = (method = ''GET'' \<or> method = ''HEAD'') in
      case split_on CHR ''/'' path of
        [] # segs \<Rightarrow>
          (if segs = [''config'']
           then (if get then Some GetConfigHandler else if method = ''PUT'' then Some PutConfigHandler else None)
           else if segs = [''config'', ''diff''] \<and> method = ''POST'' then Some DiffConfigHandler
           else if segs = [''config'', ''reload''] \<and> method = ''POST'' then Some ReloadConfigHandler
           else if segs = [''clients''] then (if get then Some GetClientsHandler else None)
           else if segs = [''logs''] \<and> get then Some ServerLogsHandler
           else case segs of
             s # p # ps \<Rightarrow>
               (if s = ''clients''
                then (if get then Some (if p \<noteq> [] \<and> ps = [''probe''] then ProbeLogHandler p
                                        else GetClientHandler (join_with CHR ''/'' (p # ps)))
                      else if method = ''DELETE'' then Some (ShutdownClientHandler (join_with CHR ''/'' (p # ps)))
                      else None)
                else None)
           | _ \<Rightarrow> None)
      | _ \<Rightarrow> None)"

section \<open>Events\<close>

definition quoted :: "string \<Rightarrow> string" where
  "quoted s = CHR 0x22 # s @ [CHR 0x22]"

definition json_pair :: "string \<Rightarrow> string \<Rightarrow> string" where
  "json_pair k v = quoted k @ '':'' @ quoted v"

definition data_event :: "string \<Rightarrow> string" where
  "data_event t = ''data: '' @ t @ [CHR 0x0A, CHR 0x0A]"

definition connected_text :: "string \<Rightarrow> bool \<Rightarrow> string" where
  "connected_text proxyID isActive =
     ''{'' @ json_pair ''type'' ''connected'' @ '','' @ json_pair ''proxy_id'' proxyID @ '','' @
     json_pair ''status'' (if isActive then ''active'' else ''disconnected'') @ ''}''"

definition ended_text :: "bool \<Rightarrow> string" where
  "ended_text isActive =
     ''{'' @ json_pair ''type'' ''proxy_ended'' @ (if isActive then [] else '','' @ json_pair ''status'' ''disconnected'') @ ''}''"

definition log_event :: "('b \<Rightarrow> string option) \<Rightarrow> 'b \<Rightarrow> string" where
  "log_event marshal log = (case marshal log of None \<Rightarrow> [] | Some jsonData \<Rightarrow> data_event jsonData)"

text \<open>What the \<^verbatim>\<open>select\<close> of a streaming loop gets.\<close>

datatype 'b received = Got 'b | ChanClosed | CtxDone

fun stream_loop :: "('b \<Rightarrow> string option) \<Rightarrow> string \<Rightarrow> 'b received list \<Rightarrow> string" where
  "stream_loop marshal fin [] = []"
| "stream_loop marshal fin (Got log # es) = log_event marshal log @ stream_loop marshal fin es"
| "stream_loop marshal fin (ChanClosed # es) = fin"
| "stream_loop marshal fin (CtxDone # es) = []"

text \<open>
  The stream of \<^verbatim>\<open>apiProbeLogHandler\<close>; a registered proxy has a channel. What is encoded is the
  local struct \<^verbatim>\<open>logData\<close>.
\<close>

type_synonym 'a log_data = "nat \<times> string \<times> (string \<times> 'a attr) list option"

definition logData :: "'a probeLog \<Rightarrow> 'a log_data" where
  "logData log = (pl_Timestamp log, pl_Message log, AttrsMap log)"

definition probe_stream :: "('a log_data \<Rightarrow> string option) \<Rightarrow> string \<Rightarrow> bool \<Rightarrow> 'a probeLog list \<Rightarrow> 'a probeLog received list \<Rightarrow> string" where
  "probe_stream marshal proxyID isActive bufferedLogs es =
     data_event (connected_text proxyID isActive) @ concat (map (log_event (marshal \<circ> logData)) bufferedLogs) @
     (if \<not> isActive then data_event (ended_text False)
      else stream_loop (marshal \<circ> logData) (data_event (ended_text True)) es)"

text \<open>The text of an answer of \<^verbatim>\<open>apiProbeLogHandler\<close>, an error or the stream.\<close>

definition probe_answer :: "('a log_data \<Rightarrow> string option) \<Rightarrow> 'a probeLog received list \<Rightarrow> ('a, 'd) response \<Rightarrow> nat \<times> string" where
  "probe_answer marshal es r =
     (case r of
        (code, ProbeBody proxyID isActive logs) \<Rightarrow> (code, probe_stream marshal proxyID isActive logs es)
      | (code, ErrorText e) \<Rightarrow> (code, e @ [CHR 0x0A])
      | (code, _) \<Rightarrow> (code, []))"

text \<open>\<^verbatim>\<open>apiServerLogsHandler\<close>: a subscription to the server log, and the stream of what it delivers.\<close>

definition apiServerLogsHandler :: "('v ProbeLogEntry \<Rightarrow> string option) \<Rightarrow> nat \<Rightarrow> nat \<Rightarrow> 'v ProbeLogEntry received list \<Rightarrow>
    'v ProbeLogEntry LogBuffer \<Rightarrow> string \<times> 'v ProbeLogEntry LogBuffer" where
  "apiServerLogsHandler marshal ctx now es b =
     (data_event (''{'' @ json_pair ''type'' ''connected'' @ ''}'') @ stream_loop marshal [] es,
      Subscribe ctx (''api-'' @ show_nat now) b)"

end
