(* ===== verification/Api_Client.thy ===== *)
theory Api_Client
  imports Api_Stream
begin

text \<open>
  The client of the API: \<^verbatim>\<open>src/apiclient/\<close>. Every operation builds a URL and a request, sends it
  and reads the answer; two of them read a stream of server-sent events and hand its log entries to a channel.
  The URL and HTTP libraries, the file system and the JSON decoder are parameters. The body of an answer is the
  bytes that could be read, with the error that ended the reading, if any.
\<close>

section \<open>Requests\<close>

record 'u url_lib =
  ul_Parse :: "string \<Rightarrow> 'u go"
  ul_Scheme :: "'u \<Rightarrow> string"
  ul_ResolveReference :: "'u \<Rightarrow> 'u \<Rightarrow> 'u"
  ul_SetQuery :: "string \<Rightarrow> string \<Rightarrow> 'u \<Rightarrow> 'u"
  ul_String :: "'u \<Rightarrow> string"

record http_request =
  rq_Method :: string
  rq_URL :: string
  rq_Header :: "(string \<times> string) list"
  rq_Body :: "string option"

type_synonym http_body = "string \<times> string option"

record http_response =
  rs_StatusCode :: nat
  rs_Status :: string
  rs_Body :: http_body

datatype transport = DefaultTransport | UnixSocket string

definition DefaultTimeout :: nat where "DefaultTimeout = 30 * 10 ^ 9"

text \<open>A client of the library is its transport and its timeout; without a timeout it is 0.\<close>

type_synonym http_client = "transport \<times> nat"

record Client =
  c_endpoint :: string
  c_client :: http_client
  c_streamClient :: http_client

text \<open>What the operations call: making a request may fail, and so may sending it.\<close>

record 'u net =
  nt_url :: "'u url_lib"
  nt_NewRequest :: "http_request \<Rightarrow> http_request go"
  nt_Do :: "http_client \<Rightarrow> http_request \<Rightarrow> http_response go"
  nt_ReadFile :: "string \<Rightarrow> string go"

definition New :: "'u url_lib \<Rightarrow> string \<Rightarrow> Client" where
  "New ul socketPath =
     (let http = (case ul_Parse ul socketPath of Inl _ \<Rightarrow> False
                  | Inr u \<Rightarrow> ul_Scheme ul u = ''http'' \<or> ul_Scheme ul u = ''https'');
          transport = (if http then DefaultTransport else UnixSocket socketPath) in
      \<lparr>c_endpoint = (if http then socketPath else ''http://localhost/''),
        c_client = (transport, DefaultTimeout), c_streamClient = (transport, 0)\<rparr>)"

definition buildURL :: "'u url_lib \<Rightarrow> Client \<Rightarrow> string \<Rightarrow> 'u go" where
  "buildURL ul c pathStr =
     (case ul_Parse ul (c_endpoint c) of
        Inl e \<Rightarrow> Inl e
      | Inr baseURL \<Rightarrow>
          (case ul_Parse ul pathStr of Inl e \<Rightarrow> Inl e | Inr u \<Rightarrow> Inr (ul_ResolveReference ul baseURL u)))"

text \<open>
  The steps all operations share: the URL, the query of the reason, the request with its headers, and the
  answer to it.
\<close>

definition send_request :: "'u net \<Rightarrow> Client \<Rightarrow> http_client \<Rightarrow> string \<Rightarrow> string \<Rightarrow> ('u \<Rightarrow> 'u) \<Rightarrow> (string \<times> string) list \<Rightarrow> string option \<Rightarrow>
    http_response go" where
  "send_request nt c via method pathStr query header reqBody =
     (case buildURL (nt_url nt) c pathStr of
        Inl e \<Rightarrow> Inl e
      | Inr fullURL \<Rightarrow>
          (case nt_NewRequest nt \<lparr>rq_Method = method, rq_URL = ul_String (nt_url nt) (query fullURL), rq_Header = [], rq_Body = reqBody\<rparr> of
             Inl e \<Rightarrow> Inl e
           | Inr req \<Rightarrow> nt_Do nt via (req\<lparr>rq_Header := rq_Header req @ header\<rparr>)))"

text \<open>The decoder reads from the body, so it sees the error that ended it.\<close>

definition GetConfig :: "'u net \<Rightarrow> (http_body \<Rightarrow> 'k go) \<Rightarrow> Client \<Rightarrow> 'k go" where
  "GetConfig nt decode_cfg c =
     (case send_request nt c (c_client c) ''GET'' ''config'' id [] None of
        Inl e \<Rightarrow> Inl e | Inr resp \<Rightarrow> decode_cfg (rs_Body resp))"

definition content_type :: "string \<Rightarrow> string" where
  "content_type configPath =
     (if has_suffix configPath ''.jsonnet'' then ''application/jsonnet'' else ''application/json'')"

definition PutConfigFromFile :: "'u net \<Rightarrow> Client \<Rightarrow> string \<Rightarrow> unit go" where
  "PutConfigFromFile nt c configPath =
     (case nt_ReadFile nt configPath of
        Inl e \<Rightarrow> Inl (''failed to read config file: '' @ e)
      | Inr configBytes \<Rightarrow>
          (case send_request nt c (c_client c) ''PUT'' ''config'' id [(''Content-Type'', content_type configPath)] (Some configBytes) of
             Inl e \<Rightarrow> Inl e
           | Inr resp \<Rightarrow>
               (if rs_StatusCode resp \<noteq> 200
                then Inl (''failed to put config: '' @ rs_Status resp @ '' - '' @ fst (rs_Body resp))
                else Inr ())))"

text \<open>\<^verbatim>\<open>PutConfig\<close> sends the text of a configuration and does not look at the status.\<close>

definition PutConfig :: "'u net \<Rightarrow> ('k \<Rightarrow> string) \<Rightarrow> Client \<Rightarrow> 'k \<Rightarrow> unit go" where
  "PutConfig nt show_cfg c cfg =
     (case send_request nt c (c_client c) ''PUT'' ''config'' id [(''Content-Type'', ''application/json'')] (Some (show_cfg cfg)) of
        Inl e \<Rightarrow> Inl e | Inr resp \<Rightarrow> Inr ())"

definition DiffConfigFromFile :: "'u net \<Rightarrow> Client \<Rightarrow> string \<Rightarrow> string go" where
  "DiffConfigFromFile nt c configPath =
     (case nt_ReadFile nt configPath of
        Inl e \<Rightarrow> Inl (''failed to read config file: '' @ e)
      | Inr configBytes \<Rightarrow>
          (case send_request nt c (c_client c) ''POST'' ''config/diff'' id [(''Content-Type'', content_type configPath)] (Some configBytes) of
             Inl e \<Rightarrow> Inl e
           | Inr resp \<Rightarrow>
               (if rs_StatusCode resp \<noteq> 200
                then Inl (''failed to get diff: '' @ rs_Status resp @ '' - '' @ fst (rs_Body resp))
                else case rs_Body resp of (diffBytes, Some e) \<Rightarrow> Inl e | (diffBytes, None) \<Rightarrow> Inr diffBytes)))"

definition ReloadConfig :: "'u net \<Rightarrow> (http_body \<Rightarrow> 'k go) \<Rightarrow> Client \<Rightarrow> 'k go" where
  "ReloadConfig nt decode_cfg c =
     (case send_request nt c (c_client c) ''POST'' ''config/reload'' id [] None of
        Inl e \<Rightarrow> Inl e | Inr resp \<Rightarrow> decode_cfg (rs_Body resp))"

definition GetClients :: "'u net \<Rightarrow> (http_body \<Rightarrow> ClientInfo list go) \<Rightarrow> Client \<Rightarrow> ClientInfo list go" where
  "GetClients nt decode_clients c =
     (case send_request nt c (c_client c) ''GET'' ''clients'' id [] None of
        Inl e \<Rightarrow> Inl e | Inr resp \<Rightarrow> decode_clients (rs_Body resp))"

text \<open>
  \<^verbatim>\<open>path.Join("clients", clientID)\<close> cleans the path: empty segments and dots go, two dots take the
  segment before them along.
\<close>

fun clean_step :: "string list \<Rightarrow> string \<Rightarrow> string list" where
  "clean_step kept seg =
     (if seg = [] \<or> seg = ''.'' then kept
      else if seg = ''..'' \<and> kept \<noteq> [] \<and> last kept \<noteq> ''..'' then butlast kept
      else kept @ [seg])"

definition clients_path :: "string \<Rightarrow> string" where
  "clients_path clientID =
     (case foldl clean_step [''clients''] (split_on CHR ''/'' clientID) of
        [] \<Rightarrow> ''.'' | segs \<Rightarrow> join_with CHR ''/'' segs)"

definition GetClientDetail :: "'u net \<Rightarrow> (http_body \<Rightarrow> FullClientInfo go) \<Rightarrow> Client \<Rightarrow> string \<Rightarrow> FullClientInfo go" where
  "GetClientDetail nt decode_client c clientID =
     (case send_request nt c (c_client c) ''GET'' (clients_path clientID) id [] None of
        Inl e \<Rightarrow> Inl e
      | Inr resp \<Rightarrow>
          (if rs_StatusCode resp = 404 then Inl ''client not found''
           else if rs_StatusCode resp \<noteq> 200
           then Inl (''failed to get client detail: '' @ rs_Status resp @ '' - '' @ fst (rs_Body resp))
           else decode_client (rs_Body resp)))"

definition ShutdownClient :: "'u net \<Rightarrow> Client \<Rightarrow> string \<Rightarrow> string \<Rightarrow> unit go" where
  "ShutdownClient nt c clientID reason =
     (if clientID = [] then Inl ''client ID cannot be empty''
      else case send_request nt c (c_client c) ''DELETE'' (clients_path clientID)
            (if reason \<noteq> [] then ul_SetQuery (nt_url nt) ''reason'' reason else id) [] None of
        Inl e \<Rightarrow> Inl e
      | Inr resp \<Rightarrow>
          (if rs_StatusCode resp = 404 then Inl ''client not found''
           else if rs_StatusCode resp \<noteq> 200
           then Inl (''failed to shutdown client: '' @ rs_Status resp @ '' - '' @ fst (rs_Body resp))
           else Inr ()))"

section \<open>Streams of log entries\<close>

text \<open>
  \<^verbatim>\<open>bufio.Scanner\<close>: lines without their end of line; the last one counts if it is not empty. A line of
  64 KiB or more ends the scan with an error, after the lines before it.
\<close>

definition lines_of :: "string \<Rightarrow> string list" where
  "lines_of s = (let ls = split_on CHR 0x0A s in butlast ls @ (if last ls = [] then [] else [last ls]))"

definition drop_cr :: "string \<Rightarrow> string" where
  "drop_cr l = (if l \<noteq> [] \<and> last l = CHR 0x0D then butlast l else l)"

definition short_line :: "string \<Rightarrow> bool" where
  "short_line l \<longleftrightarrow> length l < 65536"

definition scan :: "http_body \<Rightarrow> string list \<times> string option" where
  "scan body =
     (case body of (s, err) \<Rightarrow>
        (map drop_cr (takeWhile short_line (lines_of s)),
         if list_all short_line (lines_of s) then err else Some ''bufio.Scanner: token too long''))"

definition control_message :: "'v ProbeLogEntry \<Rightarrow> bool" where
  "control_message entry \<longleftrightarrow> le_Timestamp entry = 0 \<and> le_Message entry = []"

text \<open>
  The loop of the two readers: the data of an event is gathered line by line and decoded at the empty line
  that ends the event; text that is no JSON and control messages are skipped, and an error of the handler
  ends the loop. \<open>cancelled n\<close> says that the context is done when the \<open>n\<close>th line from the end is read,
  \<open>ctxErr\<close> is its error. The result is the error returned and the state of the handler.
\<close>

fun sse_loop :: "(string \<Rightarrow> 'v ProbeLogEntry go) \<Rightarrow> ('v ProbeLogEntry \<Rightarrow> 's \<Rightarrow> string option \<times> 's) \<Rightarrow> (nat \<Rightarrow> bool) \<Rightarrow> string \<Rightarrow>
    string option \<Rightarrow> string list \<Rightarrow> string \<Rightarrow> 's \<Rightarrow> string option \<times> 's" where
  "sse_loop unmarshal handler cancelled ctxErr scanErr [] dataBuffer st = (scanErr, st)"
| "sse_loop unmarshal handler cancelled ctxErr scanErr (line # ls) dataBuffer st =
     (if cancelled (length ls) then (Some ctxErr, st)
      else if has_prefix line ''data: ''
      then sse_loop unmarshal handler cancelled ctxErr scanErr ls (dataBuffer @ drop 6 line) st
      else if line = [] \<and> dataBuffer \<noteq> []
      then (case unmarshal dataBuffer of
              Inl e \<Rightarrow> sse_loop unmarshal handler cancelled ctxErr scanErr ls [] st
            | Inr entry \<Rightarrow>
                (if control_message entry then sse_loop unmarshal handler cancelled ctxErr scanErr ls [] st
                 else case handler entry st of
                   (Some e, st) \<Rightarrow> (Some e, st)
                 | (None, st) \<Rightarrow> sse_loop unmarshal handler cancelled ctxErr scanErr ls [] st))
      else sse_loop unmarshal handler cancelled ctxErr scanErr ls dataBuffer st)"

definition stream_header :: "(string \<times> string) list" where
  "stream_header = [(''Accept'', ''text/event-stream''), (''Cache-Control'', ''no-cache'')]"

definition read_events :: "(string \<Rightarrow> 'v ProbeLogEntry go) \<Rightarrow> (nat \<Rightarrow> bool) \<Rightarrow> string \<Rightarrow> http_body \<Rightarrow>
    ('v ProbeLogEntry \<Rightarrow> 's \<Rightarrow> string option \<times> 's) \<Rightarrow> 's \<Rightarrow> string option \<times> 's" where
  "read_events unmarshal cancelled ctxErr body handler st =
     (case scan body of (ls, err) \<Rightarrow> sse_loop unmarshal handler cancelled ctxErr err ls [] st)"

definition readProbeLogSSE :: "'u net \<Rightarrow> (string \<Rightarrow> 'v ProbeLogEntry go) \<Rightarrow> (nat \<Rightarrow> bool) \<Rightarrow> string \<Rightarrow> Client \<Rightarrow> string \<Rightarrow>
    ('v ProbeLogEntry \<Rightarrow> 's \<Rightarrow> string option \<times> 's) \<Rightarrow> 's \<Rightarrow> string option \<times> 's" where
  "readProbeLogSSE nt unmarshal cancelled ctxErr c proxyID handler st =
     (case send_request nt c (c_streamClient c) ''GET'' (''clients/'' @ proxyID @ ''/probe'') id stream_header None of
        Inl e \<Rightarrow> (Some e, st)
      | Inr resp \<Rightarrow>
          (if rs_StatusCode resp = 404 then (Some (''proxy not found: '' @ proxyID), st)
           else if rs_StatusCode resp \<noteq> 200
           then (Some (''failed to stream probe log: '' @ rs_Status resp @ '' - '' @ fst (rs_Body resp)), st)
           else read_events unmarshal cancelled ctxErr (rs_Body resp) handler st))"

definition readServerLogSSE :: "'u net \<Rightarrow> (string \<Rightarrow> 'v ProbeLogEntry go) \<Rightarrow> (nat \<Rightarrow> bool) \<Rightarrow> string \<Rightarrow> Client \<Rightarrow>
    ('v ProbeLogEntry \<Rightarrow> 's \<Rightarrow> string option \<times> 's) \<Rightarrow> 's \<Rightarrow> string option \<times> 's" where
  "readServerLogSSE nt unmarshal cancelled ctxErr c handler st =
     (case send_request nt c (c_streamClient c) ''GET'' ''logs'' id stream_header None of
        Inl e \<Rightarrow> (Some e, st)
      | Inr resp \<Rightarrow>
          (if rs_StatusCode resp \<noteq> 200
           then (Some (''failed to stream server logs: '' @ rs_Status resp @ '' - '' @ fst (rs_Body resp)), st)
           else read_events unmarshal cancelled ctxErr (rs_Body resp) handler st))"

text \<open>
  The handler of the goroutines: the entry goes to the channel, or the context is done first, at the \<open>n\<close>th
  entry if \<open>stop n\<close>. The channel is what its reader gets before it is closed.
\<close>

definition send_entry :: "(nat \<Rightarrow> bool) \<Rightarrow> string \<Rightarrow> 'v ProbeLogEntry \<Rightarrow> 'v ProbeLogEntry list \<Rightarrow> string option \<times> 'v ProbeLogEntry list" where
  "send_entry stop ctxErr entry logChan = (if stop (length logChan) then (Some ctxErr, logChan) else (None, logChan @ [entry]))"

text \<open>The entries a stream gives, and the error logged at its end unless the context is done.\<close>

definition logged_error :: "bool \<Rightarrow> string option \<times> 's \<Rightarrow> 's \<times> string option" where
  "logged_error ctxDone r = (snd r, if ctxDone then None else fst r)"

definition StreamProbeLogEntries :: "'u net \<Rightarrow> (string \<Rightarrow> 'v ProbeLogEntry go) \<Rightarrow> (nat \<Rightarrow> bool) \<Rightarrow> (nat \<Rightarrow> bool) \<Rightarrow> bool \<Rightarrow> string \<Rightarrow>
    Client \<Rightarrow> string \<Rightarrow> 'v ProbeLogEntry list \<times> string option" where
  "StreamProbeLogEntries nt unmarshal cancelled stop ctxDone ctxErr c proxyID =
     logged_error ctxDone (readProbeLogSSE nt unmarshal cancelled ctxErr c proxyID (send_entry stop ctxErr) [])"

definition StreamServerLogs :: "'u net \<Rightarrow> (string \<Rightarrow> 'v ProbeLogEntry go) \<Rightarrow> (nat \<Rightarrow> bool) \<Rightarrow> (nat \<Rightarrow> bool) \<Rightarrow> bool \<Rightarrow> string \<Rightarrow>
    Client \<Rightarrow> 'v ProbeLogEntry list \<times> string option" where
  "StreamServerLogs nt unmarshal cancelled stop ctxDone ctxErr c =
     logged_error ctxDone (readServerLogSSE nt unmarshal cancelled ctxErr c (send_entry stop ctxErr) [])"

section \<open>What a stream delivers\<close>

text \<open>The text of an event that the scanner passes on as it is.\<close>

definition event_text :: "string \<Rightarrow> bool" where
  "event_text t \<longleftrightarrow> t \<noteq> [] \<and> CHR 0x0A \<notin> set t \<and> last t \<noteq> CHR 0x0D \<and> length t < 65530"

definition entry_of :: "(string \<Rightarrow> 'v ProbeLogEntry go) \<Rightarrow> string \<Rightarrow> 'v ProbeLogEntry option" where
  "entry_of unmarshal t =
     (case unmarshal t of Inl _ \<Rightarrow> None | Inr entry \<Rightarrow> if control_message entry then None else Some entry)"

abbreviation entries_of :: "(string \<Rightarrow> 'v ProbeLogEntry go) \<Rightarrow> string list \<Rightarrow> 'v ProbeLogEntry list" where
  "entries_of unmarshal ts \<equiv> List.map_filter (entry_of unmarshal) ts"

lemma lines_of_line: "CHR 0x0A \<notin> set w \<Longrightarrow> lines_of (w @ CHR 0x0A # s) = w # lines_of s"
  by (simp add: lines_of_def split_on_append Let_def)

lemma lines_of_rest: "CHR 0x0A \<notin> set w \<Longrightarrow> lines_of w = (if w = [] then [] else [w])"
  by (simp add: lines_of_def split_on_absent)

lemma lines_of_event:
  assumes "event_text t"
  shows "lines_of (data_event t @ s) = (''data: '' @ t) # [] # lines_of s"
  using assms lines_of_line [of "''data: '' @ t" "CHR 0x0A # s"] lines_of_line [of "[]" s]
  by (simp add: data_event_def event_text_def)

lemma event_lines_kept [simp]:
  assumes "event_text t"
  shows "short_line (''data: '' @ t)" and "drop_cr (''data: '' @ t) = ''data: '' @ t" and "has_prefix (''data: '' @ t) ''data: ''"
  using assms by (simp_all add: event_text_def short_line_def drop_cr_def has_prefix_def)

lemma empty_line_kept [simp]: "short_line []" "drop_cr [] = []" "\<not> has_prefix [] ''data: ''"
  by (simp_all add: short_line_def drop_cr_def has_prefix_def)

lemma sse_loop_event:
  assumes "event_text t"
  shows "sse_loop unmarshal (send_entry stop ctxErr) cancelled ctxErr err ((''data: '' @ t) # [] # ls) [] st =
    (if cancelled (Suc (length ls)) \<or> cancelled (length ls) then (Some ctxErr, st)
     else case entry_of unmarshal t of
       None \<Rightarrow> sse_loop unmarshal (send_entry stop ctxErr) cancelled ctxErr err ls [] st
     | Some entry \<Rightarrow>
         if stop (length st) then (Some ctxErr, st)
         else sse_loop unmarshal (send_entry stop ctxErr) cancelled ctxErr err ls [] (st @ [entry]))"
proof -
  have "t \<noteq> []" using assms by (simp add: event_text_def)
  then show ?thesis
    using event_lines_kept(3) [OF assms]
    by (simp add: entry_of_def send_entry_def split: sum.split)
qed

text \<open>A stream may break off in the middle of an event, which is then left out.\<close>

lemma cut_event:
  assumes "event_text t" and "n < length (data_event t)"
  obtains "lines_of (take n (data_event t)) = []" | l where "lines_of (take n (data_event t)) = [l]" "l \<noteq> []"
proof -
  define w where w: "w = ''data: '' @ t"
  then have nl: "CHR 0x0A \<notin> set w" and "w \<noteq> []" using assms(1) by (simp_all add: event_text_def)
  have d: "data_event t = w @ [CHR 0x0A, CHR 0x0A]" by (simp add: data_event_def w)
  show thesis
  proof (cases "n \<le> length w")
    case True
    then have "take n (data_event t) = take n w" unfolding d by simp
    moreover have "CHR 0x0A \<notin> set (take n w)" using nl in_set_takeD by fast
    ultimately show thesis
      using that lines_of_rest by metis
  next
    case False
    then have "n = Suc (length w)" using assms(2) by (simp add: d)
    then have "take n (data_event t) = w @ CHR 0x0A # []" unfolding d by simp
    then have "lines_of (take n (data_event t)) = [w]"
      using lines_of_line [OF nl, of "[]"] by (simp add: lines_of_rest)
    then show thesis
      using that(2) \<open>w \<noteq> []\<close> by simp
  qed
qed

lemma sse_loop_last: "snd (sse_loop unmarshal handler cancelled ctxErr err [l] [] st) = st"
  by (cases "l = []") simp_all

lemma sse_loop_cut_event:
  assumes "event_text t" and "n < length (data_event t)"
  shows "snd (sse_loop unmarshal handler cancelled ctxErr err
    (map drop_cr (takeWhile short_line (lines_of (take n (data_event t))))) [] st) = st"
  using assms
proof (cases rule: cut_event)
  case (2 l)
  then show ?thesis
    using sse_loop_last [of unmarshal _ cancelled ctxErr err "drop_cr l" st] by (cases "short_line l") simp_all
qed simp

lemma sse_loop_cut:
  "\<forall>t \<in> set ts. event_text t \<Longrightarrow>
    prefix (snd (sse_loop unmarshal (send_entry stop ctxErr) cancelled ctxErr err
      (map drop_cr (takeWhile short_line (lines_of (take n (concat (map data_event ts)))))) [] st)) (st @ entries_of unmarshal ts)"
proof (induction ts arbitrary: n st)
  case Nil
  then show ?case by (simp add: lines_of_def)
next
  case (Cons t ts)
  then have t: "event_text t" by simp
  show ?case
  proof (cases "n < length (data_event t)")
    case True
    then have "take n (concat (map data_event (t # ts))) = take n (data_event t)" by simp
    then show ?thesis
      by (simp only: sse_loop_cut_event [OF t True]) simp
  next
    case False
    define m where "m = n - length (data_event t)"
    have n: "take n (concat (map data_event (t # ts))) = data_event t @ take m (concat (map data_event ts))"
      using False by (simp add: m_def)
    let ?ls = "map drop_cr (takeWhile short_line (lines_of (take m (concat (map data_event ts)))))"
    have ih: "prefix (snd (sse_loop unmarshal (send_entry stop ctxErr) cancelled ctxErr err ?ls [] st')) (st' @ entries_of unmarshal ts)" for st'
      using Cons by simp
    have "prefix (snd (sse_loop unmarshal (send_entry stop ctxErr) cancelled ctxErr err ((''data: '' @ t) # [] # ?ls) [] st))
        (st @ entries_of unmarshal (t # ts))"
    proof (cases "entry_of unmarshal t")
      case None
      then show ?thesis
        using ih [of st] unfolding sse_loop_event [OF t] by (simp add: map_filter_simps)
    next
      case (Some e)
      then show ?thesis
        using ih [of "st @ [e]"] unfolding sse_loop_event [OF t] by (simp add: map_filter_simps)
    qed
    then show ?thesis
      unfolding n lines_of_event [OF t] using event_lines_kept [OF t] by (simp del: append.simps sse_loop.simps)
  qed
qed

lemma sse_loop_whole:
  "\<forall>t \<in> set ts. event_text t \<Longrightarrow>
    sse_loop unmarshal (send_entry (\<lambda>_. False) ctxErr) (\<lambda>_. False) ctxErr err (map drop_cr (lines_of (concat (map data_event ts)))) [] st =
      (err, st @ entries_of unmarshal ts) \<and> list_all short_line (lines_of (concat (map data_event ts)))"
proof (induction ts arbitrary: st)
  case Nil
  then show ?case by (simp add: lines_of_def map_filter_simps)
next
  case (Cons t ts)
  then have t: "event_text t" by simp
  have l: "lines_of (concat (map data_event (t # ts))) = (''data: '' @ t) # [] # lines_of (concat (map data_event ts))"
    using lines_of_event [OF t] by simp
  show ?case
    unfolding l using Cons event_lines_kept [OF t]
    by (simp add: sse_loop_event [OF t] map_filter_simps del: append.simps sse_loop.simps(2) split: option.split)
qed

text \<open>What \<^verbatim>\<open>read_events\<close> gives for a stream of events, broken off or complete.\<close>

lemma events_read:
  assumes "\<forall>t \<in> set ts. event_text t"
  shows "prefix (snd (read_events unmarshal cancelled ctxErr (take n (concat (map data_event ts)), err) (send_entry stop ctxErr) []))
      (entries_of unmarshal ts)"
    and "read_events unmarshal (\<lambda>_. False) ctxErr (concat (map data_event ts), None) (send_entry (\<lambda>_. False) ctxErr) [] =
      (None, entries_of unmarshal ts)"
proof -
  show "prefix (snd (read_events unmarshal cancelled ctxErr (take n (concat (map data_event ts)), err) (send_entry stop ctxErr) []))
      (entries_of unmarshal ts)"
    using sse_loop_cut [OF assms, of unmarshal stop ctxErr cancelled _ n "[]"] by (simp add: read_events_def scan_def)
  have w: "takeWhile short_line (lines_of (concat (map data_event ts))) = lines_of (concat (map data_event ts))"
    using sse_loop_whole [OF assms] by (metis list_all_iff takeWhile_eq_all_conv)
  show "read_events unmarshal (\<lambda>_. False) ctxErr (concat (map data_event ts), None) (send_entry (\<lambda>_. False) ctxErr) [] =
      (None, entries_of unmarshal ts)"
    using sse_loop_whole [OF assms, of unmarshal ctxErr None "[]"] by (simp add: read_events_def scan_def w)
qed

text \<open>What a streaming handler gets before its channel is closed or its context is done.\<close>

fun received_logs :: "'b received list \<Rightarrow> 'b list" where
  "received_logs (Got log # es) = log # received_logs es"
| "received_logs _ = []"

fun stream_closed :: "'b received list \<Rightarrow> bool" where
  "stream_closed (Got log # es) = stream_closed es"
| "stream_closed (ChanClosed # es) = True"
| "stream_closed _ = False"

lemma stream_loop_events:
  "stream_loop marshal fin es =
    concat (map data_event (List.map_filter marshal (received_logs es))) @ (if stream_closed es then fin else [])"
  by (induction marshal fin es rule: stream_loop.induct)
    (simp_all add: log_event_def map_filter_simps split: option.split)

lemma log_events: "concat (map (log_event marshal) logs) = concat (map data_event (List.map_filter marshal logs))"
  by (induction logs) (simp_all add: log_event_def map_filter_simps split: option.split)

text \<open>
  What the streams rely on from the JSON library: an encoded value is a line of text, and decoding it gives what
  a reader makes of the value.
\<close>

definition json_codec :: "('e \<Rightarrow> string option) \<Rightarrow> (string \<Rightarrow> 'v ProbeLogEntry go) \<Rightarrow> ('e \<Rightarrow> 'v ProbeLogEntry) \<Rightarrow> bool" where
  "json_codec marshal unmarshal as_read \<longleftrightarrow>
     (\<forall>e t. marshal e = Some t \<longrightarrow> t \<noteq> [] \<and> CHR 0x0A \<notin> set t \<and> last t \<noteq> CHR 0x0D \<and> unmarshal t = Inr (as_read e))"

text \<open>An entry that is no control message and whose line the scanner can hold.\<close>

definition streamable :: "('e \<Rightarrow> string option) \<Rightarrow> ('e \<Rightarrow> 'v ProbeLogEntry) \<Rightarrow> 'e \<Rightarrow> bool" where
  "streamable marshal as_read e \<longleftrightarrow>
     \<not> control_message (as_read e) \<and> (case marshal e of None \<Rightarrow> True | Some t \<Rightarrow> length t < 65530)"

text \<open>A control text decodes to nothing a reader would show.\<close>

definition control_text :: "(string \<Rightarrow> 'v ProbeLogEntry go) \<Rightarrow> string \<Rightarrow> bool" where
  "control_text unmarshal t \<longleftrightarrow> (case unmarshal t of Inl _ \<Rightarrow> True | Inr z \<Rightarrow> control_message z)"

abbreviation readable :: "('e \<Rightarrow> string option) \<Rightarrow> ('e \<Rightarrow> 'v ProbeLogEntry) \<Rightarrow> 'e list \<Rightarrow> 'v ProbeLogEntry list" where
  "readable marshal as_read logs \<equiv> map as_read (filter (\<lambda>e. marshal e \<noteq> None) logs)"

lemma streamable_events:
  assumes "json_codec marshal unmarshal as_read" and "\<forall>e \<in> set logs. streamable marshal as_read e"
  shows "\<forall>t \<in> set (List.map_filter marshal logs). event_text t"
    and "entries_of unmarshal (List.map_filter marshal logs) = readable marshal as_read logs"
  using assms(2)
proof (induction logs)
  case (Cons e logs)
  {
    case 1
    then show ?case
      using Cons assms(1)
      by (auto simp: map_filter_simps json_codec_def streamable_def event_text_def split: option.splits)
  next
    case 2
    then show ?case
      using Cons assms(1)
      by (auto simp: map_filter_simps json_codec_def streamable_def entry_of_def split: option.splits)
  }
qed (simp_all add: map_filter_simps)

lemma entries_of_append: "entries_of unmarshal (a @ b) = entries_of unmarshal a @ entries_of unmarshal b"
  by (simp add: List.map_filter_def)

lemma control_text_entry: "control_text unmarshal t \<longleftrightarrow> entry_of unmarshal t = None"
  by (simp add: control_text_def entry_of_def split: sum.split)

text \<open>Nothing stops the reading before the end of the text.\<close>

definition undisturbed :: "(nat \<Rightarrow> bool) \<Rightarrow> (nat \<Rightarrow> bool) \<Rightarrow> string option \<Rightarrow> bool" where
  "undisturbed cancelled stop err \<longleftrightarrow> cancelled = (\<lambda>_. False) \<and> stop = (\<lambda>_. False) \<and> err = None"

text \<open>A stream of control texts around logs delivers the logs.\<close>

lemma stream_delivers:
  assumes codec: "json_codec marshal unmarshal as_read" and logs: "\<forall>e \<in> set logs. streamable marshal as_read e"
    and before: "event_text first" "control_text unmarshal first"
    and after: "\<forall>t \<in> set final. event_text t \<and> control_text unmarshal t"
    and whole: "whole = data_event first @ concat (map data_event (List.map_filter marshal logs)) @ concat (map data_event final)"
  shows "let got = logged_error ctxDone (read_events unmarshal cancelled ctxErr (take n whole, err) (send_entry stop ctxErr) []) in
    prefix (fst got) (readable marshal as_read logs) \<and>
    (undisturbed cancelled stop err \<and> length whole \<le> n \<longrightarrow> got = (readable marshal as_read logs, None))"
proof -
  let ?ts = "first # List.map_filter marshal logs @ final"
  have w: "whole = concat (map data_event ?ts)"
    by (simp add: whole)
  have ok: "\<forall>t \<in> set ?ts. event_text t"
    using streamable_events(1) [OF codec logs] before(1) after by auto
  have "entries_of unmarshal final = []"
    using after by (induction final) (simp_all add: map_filter_simps control_text_entry)
  then have e: "entries_of unmarshal ?ts = readable marshal as_read logs"
    using streamable_events(2) [OF codec logs] before(2) entries_of_append [of unmarshal "List.map_filter marshal logs" final]
    by (simp add: map_filter_simps control_text_entry)
  show ?thesis
    using events_read(1) [OF ok, of unmarshal cancelled ctxErr n err stop] events_read(2) [OF ok, of unmarshal ctxErr]
    unfolding w [symmetric] e by (auto simp: Let_def logged_error_def undisturbed_def)
qed

text \<open>The answer of the server to a streaming request: the text that arrived, and the error that broke it off.\<close>

definition answered :: "'u net \<Rightarrow> Client \<Rightarrow> string \<Rightarrow> http_body \<Rightarrow> bool" where
  "answered nt c path body \<longleftrightarrow>
     send_request nt c (c_streamClient c) ''GET'' path id stream_header None =
       Inr \<lparr>rs_StatusCode = 200, rs_Status = ''200 OK'', rs_Body = body\<rparr>"

lemma event_text_connected:
  assumes "CHR 0x0A \<notin> set proxyID" and "length proxyID < 65000"
  shows "event_text (connected_text proxyID isActive)" and "event_text (ended_text isActive)"
  using assms by (simp_all add: event_text_def connected_text_def ended_text_def json_pair_def quoted_def)

text \<open>C28. The log entries a client of the API gets for a connection are the ones the server sends: for a
  request the server answers with the retained logs and what it takes from the channel of the connection, the
  entries are exactly these logs, in order, without the control messages around them; and when the stream
  breaks off anywhere, or the context is cancelled, they are a prefix of them. Assumed of the JSON library is that
  it inverts itself line by line; logs of 64 KiB and more are outside the theorem.\<close>

theorem probe_logs_delivered:
  fixes s :: "('w, 'a, 'c) server" and nt :: "'u net"
  assumes "json_codec marshal unmarshal as_read"
    and "fst (apiProbeLogHandler lru proxyID s) = ((200, ProbeBody proxyID isActive logs) :: ('a, 'd) response)"
    and "answer = snd (probe_answer marshal es (fst (apiProbeLogHandler lru proxyID s) :: ('a, 'd) response))"
    and "answered nt c (''clients/'' @ proxyID @ ''/probe'') (take n answer, err)"
    and "sent = map logData (logs @ (if isActive then received_logs es else []))"
    and "\<forall>e \<in> set sent. streamable marshal as_read e"
    and "control_text unmarshal (connected_text proxyID isActive)" "control_text unmarshal (ended_text isActive)"
    and "CHR 0x0A \<notin> set proxyID" "length proxyID < 65000"
  shows "prefix (fst (StreamProbeLogEntries nt unmarshal cancelled stop ctxDone ctxErr c proxyID)) (readable marshal as_read sent) \<and>
    (undisturbed cancelled stop err \<and> length answer \<le> n \<longrightarrow>
      StreamProbeLogEntries nt unmarshal cancelled stop ctxDone ctxErr c proxyID = (readable marshal as_read sent, None))"
proof -
  define final where "final = (if isActive \<and> \<not> stream_closed es then [] else [ended_text isActive])"
  have mf: "List.map_filter (marshal \<circ> logData) xs = List.map_filter marshal (map logData xs)" for xs :: "'a probeLog list"
    by (induction xs) (simp_all add: map_filter_simps split: option.split)
  have mf_append: "List.map_filter marshal (xs @ ys) = List.map_filter marshal xs @ List.map_filter marshal ys" for xs ys
    by (simp add: List.map_filter_def)
  have answer: "answer = data_event (connected_text proxyID isActive) @ concat (map data_event (List.map_filter marshal sent)) @
      concat (map data_event final)"
    unfolding assms(3,2,5) probe_answer_def probe_stream_def final_def
    by (simp add: stream_loop_events log_events mf mf_append)
  have fin: "\<forall>t \<in> set final. event_text t \<and> control_text unmarshal t"
    using event_text_connected(2) [OF assms(9,10)] assms(8) by (simp add: final_def)
  have r: "readProbeLogSSE nt unmarshal cancelled ctxErr c proxyID (send_entry stop ctxErr) [] =
      read_events unmarshal cancelled ctxErr (take n answer, err) (send_entry stop ctxErr) []"
    using assms(4) by (simp add: readProbeLogSSE_def answered_def)
  show ?thesis
    using stream_delivers [OF assms(1,6) event_text_connected(1) [OF assms(9,10)] assms(7) fin answer]
    unfolding StreamProbeLogEntries_def r Let_def .
qed

definition sample_log :: "nat probeLog" where
  "sample_log = \<lparr>pl_Timestamp = 1, pl_Message = ''m'', pl_attrs = []\<rparr>"

definition logging_server :: "(lib_call list, nat, nat \<times> (string \<times> nat) list) server" where
  "logging_server = sample_server\<lparr>sv_conns := [sample_conn\<lparr>cn_probe := Proxy_probeLog sample_log (cn_probe sample_conn)\<rparr>]\<rparr>"

definition sample_entry :: "unit ProbeLogEntry" where
  "sample_entry = \<lparr>le_Timestamp = 1, le_Message = ''m'', le_ProxyID = [], le_Attrs = []\<rparr>"

definition sample_marshal :: "nat log_data \<Rightarrow> string option" where
  "sample_marshal d = (if d = logData sample_log then Some ''{m}'' else None)"

definition sample_unmarshal :: "string \<Rightarrow> unit ProbeLogEntry go" where
  "sample_unmarshal t = (if t = ''{m}'' then Inr sample_entry else Inl ''no entry'')"

definition sample_net :: "string \<Rightarrow> string net" where
  "sample_net text = \<lparr>nt_url = \<lparr>ul_Parse = Inr, ul_Scheme = (\<lambda>_. []), ul_ResolveReference = (@), ul_SetQuery = (\<lambda>k v u. u), ul_String = id\<rparr>,
     nt_NewRequest = Inr, nt_Do = (\<lambda>_ _. Inr \<lparr>rs_StatusCode = 200, rs_Status = ''200 OK'', rs_Body = (text, None)\<rparr>),
     nt_ReadFile = (\<lambda>_. Inl ''no file'')\<rparr>"

lemma answered_sample: "answered (sample_net text) c path (text, None)"
  by (simp add: answered_def sample_net_def send_request_def buildURL_def)

theorem probe_logs_delivered_witness:
  "fst (StreamProbeLogEntries (sample_net (snd (probe_answer sample_marshal [Got sample_log]
      (fst (apiProbeLogHandler list_lru ''c0'' logging_server) :: (nat, nat) response))))
      sample_unmarshal (\<lambda>_. False) (\<lambda>_. False) False ''context canceled'' (New (nt_url (sample_net [])) ''/tmp/s'') ''c0'') =
    [sample_entry, sample_entry]"
proof -
  let ?r = "fst (apiProbeLogHandler list_lru ''c0'' logging_server) :: (nat, nat) response"
  let ?text = "snd (probe_answer sample_marshal [Got sample_log] ?r)"
  have r: "?r = (200, ProbeBody ''c0'' True [sample_log])"
    by (simp add: apiProbeLogHandler_def logging_server_def sample_server_def GetProbeLogBuffer_def sample_conn_def
        Proxy_probeLog_def ProbeLogBuffer_Add_def NewProbeLogBuffer_def GetLogs_def)
  have "json_codec sample_marshal sample_unmarshal (\<lambda>_. sample_entry)"
    "\<forall>e \<in> set (map logData ([sample_log] @ received_logs [Got sample_log])). streamable sample_marshal (\<lambda>_. sample_entry) e"
    by (simp_all add: json_codec_def sample_marshal_def sample_unmarshal_def streamable_def control_message_def sample_entry_def)
  moreover have "control_text sample_unmarshal (connected_text ''c0'' True)" "control_text sample_unmarshal (ended_text True)"
    by (simp_all add: control_text_def sample_unmarshal_def connected_text_def ended_text_def json_pair_def quoted_def)
  ultimately show ?thesis
    using probe_logs_delivered [OF _ r refl, of sample_marshal sample_unmarshal "\<lambda>_. sample_entry" "sample_net ?text"
        "New (nt_url (sample_net [])) ''/tmp/s''" "length ?text" "[Got sample_log]" None _ "\<lambda>_. False" "\<lambda>_. False" False "''context canceled''"]
      answered_sample
    by (simp add: undisturbed_def sample_marshal_def)
qed

text \<open>A client that follows the server log gets the entries the subscription delivers, in order and each once, and
  a prefix of them when the stream breaks off; the announcement at the start is not among them.\<close>

theorem server_log_delivered:
  assumes "json_codec marshal unmarshal as_read"
    and "answer = fst (apiServerLogsHandler marshal ctx now es b)"
    and "answered nt c ''logs'' (take n answer, err)"
    and "\<forall>e \<in> set (received_logs es). streamable marshal as_read e"
    and "control_text unmarshal (''{'' @ json_pair ''type'' ''connected'' @ ''}'')"
  shows "prefix (fst (StreamServerLogs nt unmarshal cancelled stop ctxDone ctxErr c)) (readable marshal as_read (received_logs es)) \<and>
    (undisturbed cancelled stop err \<and> length answer \<le> n \<longrightarrow>
      StreamServerLogs nt unmarshal cancelled stop ctxDone ctxErr c = (readable marshal as_read (received_logs es), None))"
proof -
  have answer: "answer = data_event (''{'' @ json_pair ''type'' ''connected'' @ ''}'') @
      concat (map data_event (List.map_filter marshal (received_logs es))) @ concat (map data_event [])"
    unfolding assms(2) apiServerLogsHandler_def by (simp add: stream_loop_events)
  have r: "readServerLogSSE nt unmarshal cancelled ctxErr c (send_entry stop ctxErr) [] =
      read_events unmarshal cancelled ctxErr (take n answer, err) (send_entry stop ctxErr) []"
    using assms(3) by (simp add: readServerLogSSE_def answered_def)
  have "event_text (''{'' @ json_pair ''type'' ''connected'' @ ''}'')"
    by (simp add: event_text_def json_pair_def quoted_def)
  note d = stream_delivers [OF assms(1,4) this assms(5) _ answer, unfolded Let_def]
  show ?thesis
    unfolding StreamServerLogs_def r by (rule d) simp
qed

definition entry_marshal :: "unit ProbeLogEntry \<Rightarrow> string option" where
  "entry_marshal e = Some ''{m}''"

theorem server_log_delivered_witness:
  "StreamServerLogs (sample_net (fst (apiServerLogsHandler entry_marshal 0 7 [Got sample_entry, CtxDone] (NewLogBuffer 10))))
      sample_unmarshal (\<lambda>_. False) (\<lambda>_. False) False ''context canceled'' (New (nt_url (sample_net [])) ''/tmp/s'') =
    ([sample_entry], None)"
proof -
  let ?text = "fst (apiServerLogsHandler entry_marshal 0 7 [Got sample_entry, CtxDone] (NewLogBuffer 10))"
  have "json_codec entry_marshal sample_unmarshal (\<lambda>_. sample_entry)"
    "\<forall>e \<in> set (received_logs [Got sample_entry, CtxDone]). streamable entry_marshal (\<lambda>_. sample_entry) e"
    by (simp_all add: json_codec_def entry_marshal_def sample_unmarshal_def streamable_def control_message_def sample_entry_def)
  moreover have "control_text sample_unmarshal (''{'' @ json_pair ''type'' ''connected'' @ ''}'')"
    by (simp add: control_text_def sample_unmarshal_def json_pair_def quoted_def)
  ultimately show ?thesis
    using server_log_delivered [OF _ refl, of entry_marshal sample_unmarshal "\<lambda>_. sample_entry" "sample_net ?text"
        "New (nt_url (sample_net [])) ''/tmp/s''" "length ?text" 0 7 "[Got sample_entry, CtxDone]" "NewLogBuffer 10" None
        "\<lambda>_. False" "\<lambda>_. False" False "''context canceled''"]
      answered_sample
    by (simp add: undisturbed_def entry_marshal_def)
qed

text \<open>
  A stream opened for a connection whose channel nobody has read gives every retained log twice: the
  channel has kept the same logs as the buffer.
\<close>

lemma probe_stream_repeats:
  fixes logs :: "'a probeLog list"
  defines "p \<equiv> fold Proxy_probeLog logs \<lparr>ps_buffer = NewProbeLogBuffer 100, ps_chan = []\<rparr>"
  shows "GetLogs (ps_buffer p) @ received_logs (map Got (ps_chan p)) = keep_last 100 logs @ keep_last 100 logs"
proof -
  have "received_logs (map Got xs) = xs" for xs :: "'a probeLog list"
    by (induction xs) simp_all
  then show ?thesis
    unfolding p_def by (simp add: probe_state_run)
qed

section \<open>Requests reach their handlers\<close>

text \<open>Paths the URL library leaves as they are.\<close>

definition plain_char :: "char \<Rightarrow> bool" where
  "plain_char ch \<longleftrightarrow> (let n = of_char ch :: nat in 97 \<le> n \<and> n \<le> 122 \<or> 48 \<le> n \<and> n \<le> 57)"

definition plain_segment :: "string \<Rightarrow> bool" where
  "plain_segment seg \<longleftrightarrow> seg \<noteq> [] \<and> list_all plain_char seg"

text \<open>
  What is assumed of the library and the connection: a path of plain segments is resolved against the endpoint
  and arrives as it is, with or without a query; and a request is answered by the handler the multiplexer
  chooses.
\<close>

definition plain_urls :: "'u url_lib \<Rightarrow> Client \<Rightarrow> (string \<Rightarrow> string) \<Rightarrow> bool" where
  "plain_urls ul c path_of \<longleftrightarrow>
     (\<forall>segs. segs \<noteq> [] \<and> list_all plain_segment segs \<longrightarrow>
        (\<exists>u. buildURL ul c (join_with CHR ''/'' segs) = Inr u \<and> path_of (ul_String ul u) = CHR ''/'' # join_with CHR ''/'' segs \<and>
          (\<forall>k v. path_of (ul_String ul (ul_SetQuery ul k v u)) = CHR ''/'' # join_with CHR ''/'' segs)))"

definition served_by :: "'u net \<Rightarrow> (string \<Rightarrow> string) \<Rightarrow> (api_handler \<Rightarrow> http_request \<Rightarrow> http_response go) \<Rightarrow> bool" where
  "served_by nt path_of serve \<longleftrightarrow> nt_NewRequest nt = Inr \<and>
     (\<forall>via req h. api_route (rq_Method req) (path_of (rq_URL req)) = Some h \<longrightarrow> nt_Do nt via req = serve h req)"

lemma plain_no_slash: "plain_segment seg \<Longrightarrow> CHR ''/'' \<notin> set seg \<and> seg \<noteq> ''.'' \<and> seg \<noteq> ''..''"
  by (auto simp: plain_segment_def list_all_iff plain_char_def)

lemma clients_path_plain: "plain_segment seg \<Longrightarrow> clients_path seg = ''clients/'' @ seg"
  using plain_no_slash [of seg] by (simp add: clients_path_def split_on_absent plain_segment_def)

lemma request_served:
  assumes "served_by nt path_of serve" and "plain_urls (nt_url nt) c path_of" and "segs \<noteq> []" "list_all plain_segment segs"
    and "api_route method (CHR ''/'' # join_with CHR ''/'' segs) = Some h" and "query = id \<or> query = ul_SetQuery (nt_url nt) k v"
  shows "\<exists>url. send_request nt c via method (join_with CHR ''/'' segs) query hdr body =
    serve h \<lparr>rq_Method = method, rq_URL = url, rq_Header = hdr, rq_Body = body\<rparr>"
proof -
  obtain u where u: "buildURL (nt_url nt) c (join_with CHR ''/'' segs) = Inr u"
    "path_of (ul_String (nt_url nt) (query u)) = CHR ''/'' # join_with CHR ''/'' segs"
  proof -
    obtain u where "buildURL (nt_url nt) c (join_with CHR ''/'' segs) = Inr u"
      "path_of (ul_String (nt_url nt) u) = CHR ''/'' # join_with CHR ''/'' segs"
      "path_of (ul_String (nt_url nt) (ul_SetQuery (nt_url nt) k v u)) = CHR ''/'' # join_with CHR ''/'' segs"
      using assms(2) [unfolded plain_urls_def, rule_format, of segs] assms(3,4) by blast
    with that [of u] assms(6) show thesis by auto
  qed
  let ?r = "\<lparr>rq_Method = method, rq_URL = ul_String (nt_url nt) (query u), rq_Header = hdr, rq_Body = body\<rparr>"
  have "api_route (rq_Method ?r) (path_of (rq_URL ?r)) = Some h"
    using assms(5) u(2) by simp
  then have "nt_Do nt via ?r = serve h ?r" "nt_NewRequest nt = Inr"
    using assms(1) unfolding served_by_def by blast+
  then show ?thesis
    using u(1) by (auto simp: send_request_def)
qed

lemma route_of_client:
  assumes "plain_segment i"
  shows "api_route ''GET'' (''/clients/'' @ i) = Some (GetClientHandler i)"
    and "api_route ''DELETE'' (''/clients/'' @ i) = Some (ShutdownClientHandler i)"
    and "api_route ''GET'' (''/clients/'' @ i @ ''/probe'') = Some (ProbeLogHandler i)"
proof -
  have i: "CHR ''/'' \<notin> set i" "i \<noteq> []" using plain_no_slash [OF assms] assms by (simp_all add: plain_segment_def)
  have "split_on CHR ''/'' (''/clients/'' @ i) = [[], ''clients'', i]"
    using split_on_absent [OF i(1)] by simp
  moreover have "split_on CHR ''/'' (''/clients/'' @ i @ ''/probe'') = [[], ''clients'', i, ''probe'']"
    using split_on_append [OF i(1), of "''probe''"] by simp
  ultimately show "api_route ''GET'' (''/clients/'' @ i) = Some (GetClientHandler i)"
    and "api_route ''DELETE'' (''/clients/'' @ i) = Some (ShutdownClientHandler i)"
    and "api_route ''GET'' (''/clients/'' @ i @ ''/probe'') = Some (ProbeLogHandler i)"
    using i(2) by (simp_all add: api_route_def Let_def)
qed

lemma plain_names: "plain_segment ''clients''" "plain_segment ''config''" "plain_segment ''diff''" "plain_segment ''reload''"
    "plain_segment ''logs''" "plain_segment ''probe''"
  by (simp_all add: plain_segment_def plain_char_def)

text \<open>C29. A request for a client goes the whole way: for an id as the server makes them, the operations of the API
  client reach the handlers for this id and answer what the server knows: the description of the client, and
  whether it was told to leave, or that there is no such client. Assumed are the URL library on plain paths
  and that the answer is decoded as it was encoded.\<close>

theorem client_requests_served:
  fixes s :: "('w, 'a, 'c) server" and encode :: "('a, 'd) response \<Rightarrow> http_response"
  assumes "served_by nt path_of serve" and "plain_urls (nt_url nt) c path_of" and "plain_segment i"
    and "\<And>code b. rs_StatusCode (encode (code, b)) = code"
    and "\<And>info. fst (GetClientInfo age lru rt i s) = Some info \<Longrightarrow> decode_client (rs_Body (encode (200, ClientBody info))) = Inr info"
    and "\<And>req. serve (GetClientHandler i) req = Inr (encode (fst (apiGetClientHandler age lru rt i s)))"
    and "\<And>req. serve (ShutdownClientHandler i) req =
      Inr (encode (fst (apiShutdownClientHandler (path_of (rq_URL req)) (rq_Method req) i (reason_of (rq_URL req)) s)))"
  shows "GetClientDetail nt decode_client c i =
      (case fst (GetClientInfo age lru rt i s) of Some info \<Rightarrow> Inr info | None \<Rightarrow> Inl ''client not found'') \<and>
    ShutdownClient nt c i reason = (if map_of (sv_active s) i \<noteq> None then Inr () else Inl ''client not found'')"
proof -
  have i: "i \<noteq> []" "join_with CHR ''/'' [''clients'', i] = clients_path i" "list_all plain_segment [''clients'', i]"
    using assms(3) plain_names(1) clients_path_plain [OF assms(3)] by (simp_all add: plain_segment_def)
  have p: "CHR ''/'' # clients_path i = ''/clients/'' @ i"
    using clients_path_plain [OF assms(3)] by simp
  have "api_route ''GET'' (CHR ''/'' # clients_path i) = Some (GetClientHandler i)"
    "api_route ''DELETE'' (CHR ''/'' # clients_path i) = Some (ShutdownClientHandler i)"
    unfolding p using route_of_client [OF assms(3)] by blast+
  note routes = this [folded i(2)]
  have "\<exists>req. send_request nt c (c_client c) ''GET'' (clients_path i) id [] None = serve (GetClientHandler i) req"
    using request_served [OF assms(1,2) _ i(3) routes(1), of id _ _ "c_client c" "[]" None] unfolding i(2) by blast
  then have g: "send_request nt c (c_client c) ''GET'' (clients_path i) id [] None = Inr (encode (fst (apiGetClientHandler age lru rt i s)))"
    using assms(6) by auto
  define query where "query = (if reason \<noteq> [] then ul_SetQuery (nt_url nt) ''reason'' reason else id)"
  have "\<exists>req. send_request nt c (c_client c) ''DELETE'' (clients_path i) query [] None = serve (ShutdownClientHandler i) req"
    using request_served [OF assms(1,2) _ i(3) routes(2), of query "''reason''" reason "c_client c" "[]" None]
    unfolding i(2) query_def by (cases "reason = []") auto
  then obtain req where "send_request nt c (c_client c) ''DELETE'' (clients_path i) query [] None = serve (ShutdownClientHandler i) req"
    by blast
  note d = this [unfolded assms(7)]
  have "GetClientDetail nt decode_client c i =
      (case fst (GetClientInfo age lru rt i s) of Some info \<Rightarrow> Inr info | None \<Rightarrow> Inl ''client not found'')"
    unfolding GetClientDetail_def g using assms(4) assms(5) i(1)
    by (auto simp: apiGetClientHandler_def split: prod.split option.split)
  moreover have "ShutdownClient nt c i reason = (if map_of (sv_active s) i \<noteq> None then Inr () else Inl ''client not found'')"
    unfolding ShutdownClient_def query_def [symmetric] d using assms(4) i(1)
    by (simp add: apiShutdownClientHandler_def ShutdownProxy_def split: prod.split option.split bool.split)
  ultimately show ?thesis ..
qed

definition served_response :: "(nat, nat) response \<Rightarrow> http_response" where
  "served_response r = \<lparr>rs_StatusCode = fst r, rs_Status = [], rs_Body = ([], None)\<rparr>"

definition sample_serve :: "api_handler \<Rightarrow> http_request \<Rightarrow> http_response go" where
  "sample_serve h req =
     (case h of
        GetClientHandler i \<Rightarrow> Inr (served_response (fst (apiGetClientHandler (\<lambda>_. (0, [])) list_lru recording_runtime i sample_server)))
      | ShutdownClientHandler i \<Rightarrow> Inr (served_response (fst (apiShutdownClientHandler (rq_URL req) (rq_Method req) i [] sample_server)))
      | _ \<Rightarrow> Inl ''not asked'')"

definition served_net :: "string net" where
  "served_net = \<lparr>nt_url = \<lparr>ul_Parse = Inr, ul_Scheme = (\<lambda>_. []), ul_ResolveReference = (\<lambda>base u. CHR ''/'' # u),
     ul_SetQuery = (\<lambda>k v u. u), ul_String = id\<rparr>, nt_NewRequest = Inr,
     nt_Do = (\<lambda>via req. case api_route (rq_Method req) (rq_URL req) of Some h \<Rightarrow> sample_serve h req | None \<Rightarrow> Inl ''404''),
     nt_ReadFile = (\<lambda>_. Inl ''no file'')\<rparr>"

theorem client_requests_served_witness:
  "let info = active_full_info (\<lambda>_. (0, [])) recording_runtime sample_conn;
       c = New (nt_url served_net) ''/tmp/s'' in
   GetClientDetail served_net (\<lambda>_. Inr info) c ''c0'' = Inr info \<and>
   ShutdownClient served_net c ''c0'' ''maintenance'' = Inr () \<and> ShutdownClient served_net c ''c1'' [] = Inl ''client not found''"
proof -
  let ?c = "New (nt_url served_net) ''/tmp/s''" and ?age = "\<lambda>_. (0, [])"
  let ?info = "active_full_info ?age recording_runtime sample_conn"
  have net: "served_by served_net id sample_serve" "plain_urls (nt_url served_net) ?c id"
    by (simp_all add: served_by_def served_net_def plain_urls_def buildURL_def)
  have found: "fst (GetClientInfo ?age list_lru recording_runtime ''c0'' sample_server) = Some ?info"
    "map_of (sv_active sample_server) ''c0'' \<noteq> None" "map_of (sv_active sample_server) ''c1'' = None"
    by (simp_all add: GetClientInfo_def sample_server_def)
  have gone: "fst (GetClientInfo ?age list_lru recording_runtime ''c1'' sample_server) = None"
    by (simp add: GetClientInfo_def sample_server_def NewServer_def list_lru_def split: prod.split)
  have plain: "plain_segment ''c0''" "plain_segment ''c1''"
    by (simp_all add: plain_segment_def plain_char_def)
  have code: "rs_StatusCode (served_response (k, b)) = k" for k b by (simp add: served_response_def)
  have serve: "sample_serve (GetClientHandler i) req = Inr (served_response (fst (apiGetClientHandler ?age list_lru recording_runtime i sample_server)))"
    "sample_serve (ShutdownClientHandler i) req =
      Inr (served_response (fst (apiShutdownClientHandler (id (rq_URL req)) (rq_Method req) i ((\<lambda>_. []) (rq_URL req)) sample_server)))" for i req
    by (simp_all add: sample_serve_def)
  note w = client_requests_served [OF net _ code _ serve, of _ "\<lambda>_. Inr ?info"]
  show ?thesis
    using w [OF plain(1), of "''maintenance''"] w [OF plain(2), of "[]"] found gone by (simp add: Let_def)
qed

end
