(* ===== verification/Tui_Text.thy ===== *)
theory Tui_Text
  imports Go_Text Client_Types
begin

text \<open>
  The text of the terminal user interface: \<^verbatim>\<open>src/tui/format.go\<close>, \<^verbatim>\<open>src/tui/scroll.go\<close> and the
  parts of \<^verbatim>\<open>src/tui/view.go\<close> that lay out log entries. The library that colours text and that
  knows how wide a rune is, the JSON encoder, the format of a time and the stable sort of more than twenty
  elements are parameters, the fields of \<open>tui_lib\<close>.
\<close>

section \<open>The terminal library\<close>

datatype setting =
    Bold bool
  | Foreground string
  | Background string
  | MarginBottom nat
  | Margin nat nat
  | Padding nat nat
  | RoundedBorder
  | BorderForeground string
  | InheritFrom "setting list"

type_synonym style = "setting list"

record 'v tui_lib =
  Render :: "style \<Rightarrow> string \<Rightarrow> string"
  RuneWidth :: "nat \<Rightarrow> int"
  Marshal :: "(string \<times> 'v) list \<Rightarrow> string option"
  TimeFormat :: "string \<Rightarrow> nat \<Rightarrow> string"
  Sprint :: "field \<Rightarrow> string"
  StableMany :: "(ClientInfo \<Rightarrow> ClientInfo \<Rightarrow> bool) \<Rightarrow> ClientInfo list \<Rightarrow> ClientInfo list"

definition headerStyle :: style where "headerStyle = [Bold True, Foreground ''205'', MarginBottom 1]"
definition tableStyle :: style where "tableStyle = [RoundedBorder, BorderForeground ''240'']"
definition selectedRowStyle :: style where
  "selectedRowStyle = [Background ''62'', Foreground ''230'', Bold True]"
definition selectedStyle :: style where "selectedStyle = [Background ''238'', Foreground ''255'']"
definition helpStyle :: style where "helpStyle = [Foreground ''241'', Margin 1 0]"
definition errorStyle :: style where "errorStyle = [Foreground ''196'', Bold True]"
definition successStyle :: style where "successStyle = [Foreground ''46'', Bold True]"
definition scrollInfoStyle :: style where "scrollInfoStyle = [Foreground ''241'']"
definition statusDimStyle :: style where "statusDimStyle = [Foreground ''244'']"
definition debugDimStyle :: style where "debugDimStyle = [Foreground ''243'']"
definition attrGreyStyle :: style where "attrGreyStyle = [Foreground ''245'']"
definition logPaneBoxStyle :: style where
  "logPaneBoxStyle = [RoundedBorder, BorderForeground ''240'', Padding 0 1]"
definition levelErrorStyle :: style where "levelErrorStyle = [Foreground ''196'', Bold True]"
definition levelWarnStyle :: style where "levelWarnStyle = [Foreground ''226'']"
definition levelInfoStyle :: style where "levelInfoStyle = [Foreground ''46'']"
definition levelDefaultStyle :: style where "levelDefaultStyle = [Foreground ''245'']"
definition activeStatusStyle :: style where "activeStatusStyle = [Foreground ''46'']"
definition shutdownStatusStyle :: style where "shutdownStatusStyle = [Foreground ''196'']"

abbreviation newline :: char where "newline \<equiv> CHR 0x0A"

section \<open>Scrolling\<close>

definition maxScroll :: "int \<Rightarrow> int \<Rightarrow> int" where
  "maxScroll amount visible = (let m = amount - visible in if m < 0 then 0 else m)"

definition clamp :: "int \<Rightarrow> int \<Rightarrow> int \<Rightarrow> int" where
  "clamp v lo hi = (if v < lo then lo else if v > hi then hi else v)"

definition clampScrollToContain :: "int \<Rightarrow> int \<Rightarrow> int \<Rightarrow> int \<Rightarrow> int" where
  "clampScrollToContain scroll selected visible amount =
     (if visible \<le> 0 then 0
      else
        let ms = maxScroll amount visible;
            scroll = min selected (clamp scroll 0 ms);
            scroll = (if selected \<ge> scroll + visible then selected - visible + 1 else scroll) in
        clamp scroll 0 ms)"

section \<open>Fields of a row\<close>

definition formatID :: "string \<Rightarrow> string" where
  "formatID i = (if length i \<le> 10 then i else take 8 i @ ''..'')"

definition formatAddress :: "string \<Rightarrow> string" where
  "formatAddress addr = (if length addr \<le> 21 then addr else take 21 addr)"

definition formatStatus :: "string \<Rightarrow> string" where
  "formatStatus status =
     (if status = ''active'' then ''Active''
      else if status = ''shutting_down'' then ''Shtdwn''
      else if status = ''disconnected'' then ''Closed''
      else status)"

definition formatStatusWithColor :: "'v tui_lib \<Rightarrow> string \<Rightarrow> string" where
  "formatStatusWithColor lib status =
     (let padded = pad_right 8 (formatStatus status) in
      if status = ''active'' then Render lib activeStatusStyle padded
      else if status = ''shutting_down'' then Render lib shutdownStatusStyle padded
      else padded)"

text \<open>
  \<^verbatim>\<open>d.Seconds()\<close>, \<^verbatim>\<open>d.Minutes()\<close> and \<^verbatim>\<open>d.Hours()\<close> for a duration that is not negative:
  the whole units and the rest of a unit, added as floats.
\<close>

definition in_units :: "nat \<Rightarrow> nat \<Rightarrow> nat \<times> nat" where
  "in_units d u = float_add (d div u) (float_div (d mod u) u)"

definition second :: nat where "second = 1000000000"
definition minute :: nat where "minute = 60 * second"
definition hour :: nat where "hour = 60 * minute"

definition formatDuration :: "int \<Rightarrow> string" where
  "formatDuration d =
     (if d < int minute
      then itoa (if d < 0 then - int (truncated (in_units (nat (- d)) second)) else int (truncated (in_units (nat d) second))) @ ''s ago''
      else if d < int hour then itoa (int (truncated (in_units (nat d) minute))) @ ''m ago''
      else if d < 24 * int hour then itoa (int (truncated (in_units (nat d) hour))) @ ''h ago''
      else itoa (int (truncated (case in_units (nat d) hour of (a, s) \<Rightarrow> float_div a (24 * 2 ^ s)))) @ ''d ago'')"

definition with_unit :: "int \<Rightarrow> nat \<Rightarrow> string" where
  "with_unit n u = format_tenths (tenths (float_div (float64 (nat n)) u))"

definition formatNumber :: "int \<Rightarrow> string" where
  "formatNumber n =
     (if n < 1000 then itoa n
      else if n < 1000000 then with_unit n 1000 @ ''K''
      else if n < 1000000000 then with_unit n 1000000 @ ''M''
      else with_unit n 1000000000 @ ''G'')"

text \<open>\<^verbatim>\<open>s[:maxLen-2]\<close> panics for a \<^verbatim>\<open>maxLen\<close> below two.\<close>

definition truncate_str :: "string \<Rightarrow> int \<Rightarrow> string option" where
  "truncate_str s maxLen = (if len s \<le> maxLen then Some s else do { t \<leftarrow> subslice s 0 (maxLen - 2); Some (t @ ''..'') })"

definition getStatValue :: "StatsSummary option \<Rightarrow> string \<Rightarrow> int" where
  "getStatValue stats field =
     (case stats of None \<Rightarrow> 0
      | Some stats \<Rightarrow>
          if field = ''total_methods'' then sint (ts_TotalMethods stats)
          else if field = ''received_frames'' then sint (ts_ReceivedFrames stats)
          else if field = ''sent_frames'' then sint (ts_SentFrames stats)
          else if field = ''total_frames'' then sint (ts_TotalFrames stats)
          else 0)"

definition formatClientRow :: "'v tui_lib \<Rightarrow> nat \<Rightarrow> ClientInfo \<Rightarrow> bool \<Rightarrow> string option" where
  "formatClientRow lib now client selected = do {
     let prefix = (if selected then ''>'' else '' '');
     user \<leftarrow> truncate_str (ci_User client) 8;
     vhost \<leftarrow> truncate_str (ci_VirtualHost client) 8;
     let address = formatAddress (ci_ClientAddress client);
     let status = formatStatusWithColor lib (ci_Status client);
     let connected = formatDuration (int now - int (ci_ConnectedAt client));
     let methods = formatNumber (getStatValue (ci_Stats client) ''total_methods'');
     let frames = formatNumber (getStatValue (ci_Stats client) ''total_frames'');
     Some (prefix @ '' '' @ pad_right 10 (formatID (ci_ID client)) @ '' '' @ pad_right 8 user @ '' '' @ pad_right 8 vhost @ '' '' @
       pad_right 21 address @ '' '' @ status @ '' '' @ pad_right 10 connected @ '' '' @ pad_right 8 methods @ '' '' @
       pad_right 8 frames)
   }"

section \<open>Wrapping\<close>

text \<open>
  The loop of \<^verbatim>\<open>wrapText\<close> over the runes of one line of text: \<open>cur\<close> are the runes since
  \<^verbatim>\<open>start\<close>, \<open>lineWidth\<close> their width.
\<close>

fun wrap_runes :: "(nat \<Rightarrow> int) \<Rightarrow> int \<Rightarrow> nat list \<Rightarrow> int \<Rightarrow> nat list \<Rightarrow> nat list list" where
  "wrap_runes rw width cur lineWidth [] = (if cur = [] then [] else [cur])"
| "wrap_runes rw width cur lineWidth (ch # rs) =
     (if lineWidth + rw ch > width then cur # wrap_runes rw width [ch] (rw ch) rs
      else wrap_runes rw width (cur @ [ch]) (lineWidth + rw ch) rs)"

definition wrap_segment :: "(nat \<Rightarrow> int) \<Rightarrow> int \<Rightarrow> string \<Rightarrow> string list" where
  "wrap_segment rw width seg =
     (if seg = [] then [[]] else map string_of_runes (wrap_runes rw width [] 0 (runes seg)))"

definition wrapText :: "(nat \<Rightarrow> int) \<Rightarrow> string \<Rightarrow> int \<Rightarrow> string list" where
  "wrapText rw text width =
     (if width \<le> 0 then [text] else concat (map (wrap_segment rw width) (split_on newline text)))"

section \<open>Log entries\<close>

record 'v LogEntry =
  lg_Time :: nat
  lg_Level :: string
  lg_Message :: string
  lg_Attrs :: "(string \<times> 'v) list"
  lg_AttrJSON :: string

definition text_width :: "int \<Rightarrow> int" where
  "text_width w = (let width = w - 2 in if width \<le> 0 then 80 else width)"

definition level_style :: "string \<Rightarrow> style" where
  "level_style level =
     (if level = ''ERROR'' then levelErrorStyle
      else if level = ''WARN'' then levelWarnStyle
      else if level = ''INFO'' then levelInfoStyle
      else levelDefaultStyle)"

text \<open>The first line of an entry: time, level in its colour, message, attributes in grey.\<close>

definition style_first :: "'v tui_lib \<Rightarrow> bool \<Rightarrow> style \<Rightarrow> style \<Rightarrow> string \<Rightarrow> string \<Rightarrow> string \<Rightarrow> string option" where
  "style_first lib isSelected levelStyle attrStyle mainText attrStr line =
     (let sel = (\<lambda>t. if isSelected then Render lib selectedStyle t else t) in
      if len line > 14
      then do {
        timestampPart \<leftarrow> subslice line 0 9;
        levelPart \<leftarrow> subslice line 9 14;
        rest \<leftarrow> subslice line 14 (len line);
        let attrStartInLine = len mainText - 14;
        restStyled \<leftarrow>
          (if attrStr \<noteq> [] \<and> len rest > attrStartInLine
           then do {
             messagePart \<leftarrow> subslice rest 0 attrStartInLine;
             attrPart \<leftarrow> subslice rest attrStartInLine (len rest);
             Some (sel messagePart @ Render lib attrStyle attrPart)
           }
           else Some (sel rest));
        Some (sel timestampPart @ Render lib levelStyle levelPart @ restStyled)
      }
      else Some (sel line))"

definition formatLogEntry :: "'v tui_lib \<Rightarrow> int \<Rightarrow> 'v LogEntry \<Rightarrow> bool \<Rightarrow> string option" where
  "formatLogEntry lib w entry isSelected =
     (let mainText = TimeFormat lib ''15:04:05'' (lg_Time entry) @ '' '' @ pad_right 5 (lg_Level entry) @ '' '' @ lg_Message entry;
          attrStr = lg_AttrJSON entry;
          fullText = mainText @ (if attrStr \<noteq> [] then '' '' @ attrStr else []);
          lines = wrapText (RuneWidth lib) fullText (text_width w);
          inherit = (\<lambda>st. if isSelected then st @ [InheritFrom selectedStyle] else st);
          levelStyle = inherit (level_style (lg_Level entry));
          attrStyle = inherit attrGreyStyle in
      case lines of
        [] \<Rightarrow> Some []
      | line # rest \<Rightarrow> do {
          first \<leftarrow> style_first lib isSelected levelStyle attrStyle mainText attrStr line;
          Some (join_with newline (first # map (Render lib attrStyle) rest))
        })"

definition formatProbeLogLine :: "'v tui_lib \<Rightarrow> int \<Rightarrow> 'v ProbeLogEntry \<Rightarrow> string option" where
  "formatProbeLogLine lib w log =
     (let mainText = TimeFormat lib ''15:04:05.000'' (le_Timestamp log) @ '' '' @ le_Message log;
          attrStr = (if le_Attrs log \<noteq> [] then (case Marshal lib (le_Attrs log) of Some b \<Rightarrow> b | None \<Rightarrow> []) else []);
          fullText = mainText @ (if attrStr \<noteq> [] then '' '' @ attrStr else []);
          lines = wrapText (RuneWidth lib) fullText (text_width w) in
      if attrStr \<noteq> []
      then
        let attrStartInFirstLine = len mainText + 1 in
        case lines of
          [] \<Rightarrow> Some []
        | line # rest \<Rightarrow> do {
            first \<leftarrow>
              (if len line > attrStartInFirstLine
               then do {
                 above \<leftarrow> subslice line 0 attrStartInFirstLine;
                 attrs \<leftarrow> subslice line attrStartInFirstLine (len line);
                 Some (above @ Render lib attrGreyStyle attrs)
               }
               else Some line);
            Some (join_with newline (first # map (Render lib attrGreyStyle) rest))
          }
      else Some (join_with newline lines))"

section \<open>A page of log entries\<close>

record renderResult =
  renderedLines :: "string list"
  rr_startIdx :: int
  rr_endIdx :: int

definition line_count :: "string \<Rightarrow> int" where
  "line_count logLine = int (count_list logLine newline) + 1"

text \<open>
  The loop that fills the page from \<^verbatim>\<open>startIdx\<close>; its state are the lines and indices rendered so
  far, the number of display lines and \<^verbatim>\<open>endIdx\<close>.
\<close>

type_synonym page = "string list \<times> int list \<times> int \<times> int"

fun fill_page :: "int \<Rightarrow> int \<Rightarrow> (int \<Rightarrow> bool \<Rightarrow> string option) \<Rightarrow> int list \<Rightarrow> page \<Rightarrow> page option" where
  "fill_page maxDisplayLines selectedIdx formatFunc [] pg = Some pg"
| "fill_page maxDisplayLines selectedIdx formatFunc (i # is) (rendered, indices, displayLines, endIdx) =
     (if displayLines < maxDisplayLines
      then do {
        logLine \<leftarrow> formatFunc i False;
        let lineCount = line_count logLine;
        if displayLines + lineCount > maxDisplayLines \<and> i \<noteq> selectedIdx
        then (if selectedIdx > i
              then fill_page maxDisplayLines selectedIdx formatFunc is (rendered, indices, displayLines, endIdx)
              else Some (rendered, indices, displayLines, endIdx))
        else do {
          logLine \<leftarrow> (if i = selectedIdx then formatFunc i True else Some logLine);
          fill_page maxDisplayLines selectedIdx formatFunc is
            (rendered @ [logLine], indices @ [i], displayLines + lineCount, i + 1)
        }
      }
      else Some (rendered, indices, displayLines, endIdx))"

text \<open>The two loops around the selected entry: entries are taken as long as they fit.\<close>

fun take_fitting :: "int \<Rightarrow> (int \<Rightarrow> bool \<Rightarrow> string option) \<Rightarrow> int list \<Rightarrow> int \<Rightarrow> ((string list \<times> int list) \<times> int) option" where
  "take_fitting maxDisplayLines formatFunc [] displayLines = Some (([], []), displayLines)"
| "take_fitting maxDisplayLines formatFunc (i # is) displayLines =
     (if displayLines < maxDisplayLines
      then do {
        logLine \<leftarrow> formatFunc i False;
        let lineCount = line_count logLine;
        if displayLines + lineCount > maxDisplayLines then Some (([], []), displayLines)
        else do {
          ((ls, js), n) \<leftarrow> take_fitting maxDisplayLines formatFunc is (displayLines + lineCount);
          Some ((logLine # ls, i # js), n)
        }
      }
      else Some (([], []), displayLines))"

text \<open>The selection and the first entry of the page, brought into range.\<close>

definition page_selected :: "int \<Rightarrow> int \<Rightarrow> int" where
  "page_selected logCount selectedIdx =
     (let selectedIdx = (if selectedIdx < 0 then 0 else selectedIdx) in
      if selectedIdx \<ge> logCount then logCount - 1 else selectedIdx)"

definition page_start :: "int \<Rightarrow> int \<Rightarrow> int \<Rightarrow> int" where
  "page_start logCount scrollPos selectedIdx =
     (let startIdx = max scrollPos 0;
          startIdx = (if startIdx \<ge> logCount then logCount - 1 else startIdx);
          startIdx = (if startIdx < 0 then 0 else startIdx) in
      if selectedIdx < startIdx then selectedIdx else startIdx)"

text \<open>The page around the selected entry, for when the first attempt did not reach it.\<close>

definition page_around :: "int \<Rightarrow> int \<Rightarrow> int \<Rightarrow> (int \<Rightarrow> bool \<Rightarrow> string option) \<Rightarrow> (renderResult \<times> int list) option" where
  "page_around logCount maxDisplayLines selectedIdx formatFunc = do {
     logLine \<leftarrow> formatFunc selectedIdx True;
     let displayLines = line_count logLine;
     ((below, belowIndices), displayLines) \<leftarrow>
       take_fitting maxDisplayLines formatFunc [selectedIdx + 1..logCount - 1] displayLines;
     ((above, aboveIndices), displayLines) \<leftarrow>
       take_fitting maxDisplayLines formatFunc (rev [0..selectedIdx - 1]) displayLines;
     let indices = rev aboveIndices @ selectedIdx # belowIndices;
     Some (\<lparr>renderedLines = rev above @ logLine # below, rr_startIdx = hd indices, rr_endIdx = last indices + 1\<rparr>, indices)
   }"

text \<open>The whole page with the indices of its entries, which are a local variable of the code.\<close>

definition render_page :: "int \<Rightarrow> int \<Rightarrow> int \<Rightarrow> int \<Rightarrow> (int \<Rightarrow> bool \<Rightarrow> string option) \<Rightarrow> (renderResult \<times> int list) option" where
  "render_page logCount maxDisplayLines scrollPos selectedIdx formatFunc =
     (if logCount = 0 then Some (\<lparr>renderedLines = [], rr_startIdx = 0, rr_endIdx = 0\<rparr>, [])
      else
        let selectedIdx = page_selected logCount selectedIdx;
            startIdx = page_start logCount scrollPos selectedIdx in
        do {
          (lines, indices, displayLines, endIdx) \<leftarrow>
            fill_page maxDisplayLines selectedIdx formatFunc [startIdx..logCount - 1] ([], [], 0, startIdx);
          if selectedIdx \<notin> set indices \<and> selectedIdx < logCount
          then page_around logCount maxDisplayLines selectedIdx formatFunc
          else Some (\<lparr>renderedLines = lines, rr_startIdx = startIdx, rr_endIdx = endIdx\<rparr>, indices)
        })"

definition renderLogsWithWrapping ::
    "int \<Rightarrow> int \<Rightarrow> int \<Rightarrow> int \<Rightarrow> (int \<Rightarrow> bool \<Rightarrow> string option) \<Rightarrow> renderResult option" where
  "renderLogsWithWrapping logCount maxDisplayLines scrollPos selectedIdx formatFunc =
     map_option fst (render_page logCount maxDisplayLines scrollPos selectedIdx formatFunc)"

end
