(* ===== verification/Tui_Model.thy ===== *)
theory Tui_Model
  imports Tui_Text
begin

text \<open>
  The state of the terminal user interface and how it changes: \<^verbatim>\<open>src/tui/model.go\<close>,
  \<^verbatim>\<open>src/tui/tui.go\<close> and the functions of \<^verbatim>\<open>src/tui/view.go\<close> that compute how many rows fit.

  \<^verbatim>\<open>Update\<close> gets a message and gives the new model and a command, or \<open>None\<close> for an index out of
  range, on which the program panics. A command is a value; what it does outside of the model (a request to
  the API, a file) is described by the functions that turn its outcome into the next message. A context with
  its cancel function and the channel read under it is a number, and \<open>m_cancelled\<close> are the contexts cancelled
  so far.
\<close>

section \<open>State\<close>

datatype ViewMode = ViewList | ViewDetail | ViewConfirm | ViewProbe | ViewServerLogs | ViewSaveConfirm

record confirmState =
  cf_clientID :: string
  cf_message :: string

record saveState =
  sa_clientID :: string
  sa_filePath :: string
  sa_editing :: bool
  sa_cursorPos :: int
  sa_previousView :: ViewMode
  sa_overwriteConfirm :: bool

record 'v probeState =
  pr_clientID :: string
  pr_logs :: "'v ProbeLogEntry list"
  pr_scroll :: int
  pr_selectedIdx :: int
  pr_cancelFunc :: "nat option"
  pr_ctx :: nat
  pr_autoScroll :: bool
  pr_reconnectCount :: int
  pr_disconnected :: bool

record 'v TUIModel =
  m_clients :: "ClientInfo list"
  m_selectedIdx :: int
  m_viewMode :: ViewMode
  m_selectedID :: string
  m_clientDetail :: "FullClientInfo option"
  m_confirmState :: "confirmState option"
  m_probeState :: "'v probeState option"
  m_saveState :: "saveState option"
  m_width :: int
  m_height :: int
  m_lastUpdate :: nat
  m_err :: "string option"
  m_errorTime :: nat
  m_successMsg :: string
  m_successTime :: nat
  m_detailScroll :: int
  m_listScroll :: int
  m_logEntries :: "'v LogEntry list"
  m_logChan :: "'v LogEntry list"
  m_serverLogsScroll :: int
  m_serverLogsSelectedIdx :: int
  m_droppedLogs :: int
  m_cancelled :: "nat list"

definition NewModel :: "'v TUIModel" where
  "NewModel = \<lparr>m_clients = [], m_selectedIdx = 0, m_viewMode = ViewList, m_selectedID = [], m_clientDetail = None,
     m_confirmState = None, m_probeState = None, m_saveState = None, m_width = 0, m_height = 0, m_lastUpdate = 0,
     m_err = None, m_errorTime = 0, m_successMsg = [], m_successTime = 0, m_detailScroll = 0, m_listScroll = 0,
     m_logEntries = [], m_logChan = [], m_serverLogsScroll = 0, m_serverLogsSelectedIdx = 0, m_droppedLogs = 0,
     m_cancelled = []\<rparr>"

definition serverLogKeep :: nat where "serverLogKeep = 100"
definition probeLogKeep :: nat where "probeLogKeep = 1000"

section \<open>Messages and commands\<close>

text \<open>The types of keys that the editing of a path tells apart.\<close>

datatype KeyType =
  KeyEsc | KeyEnter | KeyBackspace | KeyDelete | KeyLeft | KeyRight | KeyHome | KeyEnd | KeyRunes | KeyOther

record KeyMsg =
  k_String :: string
  k_Type :: KeyType
  k_Runes :: "nat list"

datatype 'v msg =
    WindowSizeMsg int int
  | KeyPress KeyMsg
  | TickMsg
  | ClientsMsg "ClientInfo list"
  | ClientDetailMsg FullClientInfo
  | ErrorMsg string
  | SuccessMsg string
  | ProbeLogMsg "'v ProbeLogEntry"
  | ProbeEndMsg
  | LogMsg "'v LogEntry"
  | ProbeStreamStartedMsg string nat "nat option"
  | ReconnectProbeMsg string "'v ProbeLogEntry list" int
  | ProbeStreamStartedMsgWithState string nat "nat option" "'v ProbeLogEntry list option" int bool

datatype 'v cmd =
    NoCmd
  | Quit
  | FetchClients
  | FetchClientDetail string
  | ShutdownClientCmd string
  | StartProbeStream string "'v ProbeLogEntry list option" int bool
  | ListenForProbeLog
  | ListenForLogs
  | Tick
  | ReconnectLater string "'v ProbeLogEntry list" int
  | SaveProbeLogs
  | Batch "'v cmd list"

definition Init :: "'v cmd" where
  "Init = Batch [FetchClients, Tick, ListenForLogs]"

type_synonym 'v step = "('v TUIModel \<times> 'v cmd) option"

section \<open>Rows that fit\<close>

definition estimateLogPaneLines :: "'v tui_lib \<Rightarrow> 'v TUIModel \<Rightarrow> int option" where
  "estimateLogPaneLines lib m =
     (if m_logEntries m = [] then Some 3
      else do {
        texts \<leftarrow> those (map (\<lambda>entry. formatLogEntry lib (m_width m) entry False) (keep_last 3 (m_logEntries m)));
        let lineCount = 1 + sum_list (map line_count texts);
        Some (lineCount + 4)
      })"

definition getVisibleRows :: "'v tui_lib \<Rightarrow> 'v TUIModel \<Rightarrow> int option" where
  "getVisibleRows lib m = do {
     logPaneLines \<leftarrow> estimateLogPaneLines lib m;
     Some (max (m_height m - 3 - 2 - logPaneLines - 4) 5)
   }"

definition getProbeVisibleRows :: "'v TUIModel \<Rightarrow> int" where
  "getProbeVisibleRows m = max (m_height m - 8) 5"

definition getServerLogsVisibleRows :: "'v TUIModel \<Rightarrow> int" where
  "getServerLogsVisibleRows m = m_height m - 6"

definition adjustScrollForSelection :: "'v tui_lib \<Rightarrow> 'v TUIModel \<Rightarrow> 'v TUIModel option" where
  "adjustScrollForSelection lib m = do {
     visibleRows \<leftarrow> getVisibleRows lib m;
     let amount = len (m_clients m);
     Some (if amount = 0 then m\<lparr>m_selectedIdx := 0, m_listScroll := 0\<rparr>
       else
         let selected = clamp (m_selectedIdx m) 0 (amount - 1) in
         m\<lparr>m_selectedIdx := selected,
           m_listScroll := clampScrollToContain (m_listScroll m) selected visibleRows amount\<rparr>)
   }"

definition adjustServerLogsScroll :: "'v TUIModel \<Rightarrow> 'v TUIModel" where
  "adjustServerLogsScroll m =
     (let visibleRows = getServerLogsVisibleRows m; amount = len (m_logEntries m) in
      if amount = 0 then m\<lparr>m_serverLogsSelectedIdx := 0, m_serverLogsScroll := 0\<rparr>
      else
        let selected = clamp (m_serverLogsSelectedIdx m) 0 (amount - 1) in
        m\<lparr>m_serverLogsSelectedIdx := selected,
          m_serverLogsScroll := clampScrollToContain (m_serverLogsScroll m) selected visibleRows amount\<rparr>)"

section \<open>The probe stream\<close>

definition cancel_ctx :: "nat option \<Rightarrow> 'v TUIModel \<Rightarrow> 'v TUIModel" where
  "cancel_ctx f m = (case f of None \<Rightarrow> m | Some h \<Rightarrow> m\<lparr>m_cancelled := h # m_cancelled m\<rparr>)"

definition stopProbeStream :: "'v TUIModel \<Rightarrow> 'v TUIModel" where
  "stopProbeStream m =
     (case m_probeState m of
        None \<Rightarrow> m
      | Some ps \<Rightarrow> (if pr_cancelFunc ps \<noteq> None then (cancel_ctx (pr_cancelFunc ps) m)\<lparr>m_probeState := None\<rparr> else m))"

definition startProbeStream :: "string \<Rightarrow> 'v cmd" where
  "startProbeStream clientID = StartProbeStream clientID None 0 False"

definition startProbeStreamWithDisconnected :: "string \<Rightarrow> bool \<Rightarrow> 'v cmd" where
  "startProbeStreamWithDisconnected clientID disconnected = StartProbeStream clientID None 0 disconnected"

definition updateAutoScroll :: "'v TUIModel \<Rightarrow> 'v TUIModel" where
  "updateAutoScroll m =
     (case m_probeState m of
        None \<Rightarrow> m
      | Some ps \<Rightarrow>
          m\<lparr>m_probeState := Some (ps\<lparr>pr_autoScroll := pr_scroll ps \<ge> max (len (pr_logs ps) - getProbeVisibleRows m) 0\<rparr>)\<rparr>)"

section \<open>Keys in the list of clients\<close>

definition probe_selected :: "string \<Rightarrow> string \<Rightarrow> 'v TUIModel \<Rightarrow> 'v TUIModel \<times> 'v cmd" where
  "probe_selected clientID status m =
     (m\<lparr>m_viewMode := ViewProbe\<rparr>, startProbeStreamWithDisconnected clientID (status = ''disconnected''))"

definition shutdown_question :: "string \<Rightarrow> string \<Rightarrow> string \<Rightarrow> confirmState" where
  "shutdown_question clientID user address =
     \<lparr>cf_clientID = clientID,
       cf_message = ''Shutdown client '' @ formatID clientID @ '' ('' @ user @ ''@'' @ address @ '')?''\<rparr>"

definition show_server_logs :: "'v TUIModel \<Rightarrow> 'v TUIModel" where
  "show_server_logs m =
     (let m = m\<lparr>m_viewMode := ViewServerLogs\<rparr> in
      if len (m_logEntries m) > 0
      then
        let visible = max (getServerLogsVisibleRows m) 1 in
        m\<lparr>m_serverLogsSelectedIdx := len (m_logEntries m) - 1,
          m_serverLogsScroll := max (len (m_logEntries m) - visible) 0\<rparr>
      else m\<lparr>m_serverLogsSelectedIdx := 0, m_serverLogsScroll := 0\<rparr>)"

definition select_at :: "'v tui_lib \<Rightarrow> int \<Rightarrow> 'v TUIModel \<Rightarrow> 'v step" where
  "select_at lib i m = do { m \<leftarrow> adjustScrollForSelection lib (m\<lparr>m_selectedIdx := i\<rparr>); Some (m, NoCmd) }"

definition handleListKeys :: "'v tui_lib \<Rightarrow> nat \<Rightarrow> KeyMsg \<Rightarrow> 'v TUIModel \<Rightarrow> 'v step" where
  "handleListKeys lib now key m =
     (let k = k_String key; n = len (m_clients m); sel = m_selectedIdx m in
      if k = ''g'' \<or> k = ''home'' then Some (m\<lparr>m_selectedIdx := 0, m_listScroll := 0\<rparr>, NoCmd)
      else if k = ''K'' then
        (if n > 0 \<and> sel < n
         then do {
           client \<leftarrow> index (m_clients m) sel;
           if ci_ID client = []
           then Some (m\<lparr>m_err := Some (''selected client has empty ID (index: '' @ itoa sel @ '', total: '' @ itoa n @ '')''),
                       m_errorTime := now\<rparr>, NoCmd)
           else Some (m\<lparr>m_confirmState := Some (shutdown_question (ci_ID client) (ci_User client) (ci_ClientAddress client)),
                       m_viewMode := ViewConfirm\<rparr>, NoCmd)
         }
         else Some (m, NoCmd))
      else if k = ''up'' \<or> k = ''k'' then (if sel > 0 then select_at lib (sel - 1) m else Some (m, NoCmd))
      else if k = ''down'' \<or> k = ''j'' then (if sel < n - 1 then select_at lib (sel + 1) m else Some (m, NoCmd))
      else if k = ''pgup'' then do {
        pageSize \<leftarrow> getVisibleRows lib m;
        select_at lib (if sel > pageSize then sel - pageSize else 0) m
      }
      else if k = ''pgdn'' then do {
        pageSize \<leftarrow> getVisibleRows lib m;
        select_at lib (if sel + pageSize < n then sel + pageSize else n - 1) m
      }
      else if k = ''end'' then select_at lib (n - 1) m
      else if k = ''G'' then (if n > 0 then select_at lib (n - 1) m else Some (m, NoCmd))
      else if k = ''enter'' then
        (if n > 0
         then do {
           client \<leftarrow> index (m_clients m) sel;
           Some (m\<lparr>m_selectedID := ci_ID client\<rparr>, FetchClientDetail (ci_ID client))
         }
         else Some (m, NoCmd))
      else if k = ''r'' then Some (m, FetchClients)
      else if k = ''p'' then
        (if n > 0
         then do { client \<leftarrow> index (m_clients m) sel; Some (probe_selected (ci_ID client) (ci_Status client) m) }
         else Some (m, NoCmd))
      else if k = ''l'' then Some (show_server_logs m, NoCmd)
      else Some (m, NoCmd))"

section \<open>Keys in the other views\<close>

definition handleDetailKeys :: "KeyMsg \<Rightarrow> 'v TUIModel \<Rightarrow> 'v TUIModel \<times> 'v cmd" where
  "handleDetailKeys key m =
     (let k = k_String key in
      if k = ''ctrl+c'' \<or> k = ''q'' \<or> k = ''esc''
      then (m\<lparr>m_viewMode := ViewList, m_clientDetail := None, m_detailScroll := 0\<rparr>, NoCmd)
      else if k = ''K'' then
        (case m_clientDetail m of
           None \<Rightarrow> (m, NoCmd)
         | Some d \<Rightarrow> (m\<lparr>m_confirmState := Some (shutdown_question (fi_ID d) (fi_User d) (fi_ClientAddress d)),
                       m_viewMode := ViewConfirm\<rparr>, NoCmd))
      else if k = ''up'' \<or> k = ''k''
      then (if m_detailScroll m > 0 then m\<lparr>m_detailScroll := m_detailScroll m - 1\<rparr> else m, NoCmd)
      else if k = ''down'' \<or> k = ''j'' then (m\<lparr>m_detailScroll := m_detailScroll m + 1\<rparr>, NoCmd)
      else if k = ''home'' then (m\<lparr>m_detailScroll := 0\<rparr>, NoCmd)
      else if k = ''end'' then (m\<lparr>m_detailScroll := 1000\<rparr>, NoCmd)
      else if k = ''p'' then
        (case m_clientDetail m of
           None \<Rightarrow> (m, NoCmd)
         | Some d \<Rightarrow> probe_selected (fi_ID d) (fi_Status d) m)
      else (m, NoCmd))"

definition handleConfirmKeys :: "KeyMsg \<Rightarrow> 'v TUIModel \<Rightarrow> 'v TUIModel \<times> 'v cmd" where
  "handleConfirmKeys key m =
     (let k = k_String key in
      if k = ''ctrl+c'' \<or> k = ''q'' \<or> k = ''esc'' \<or> k = ''n''
      then (m\<lparr>m_viewMode := ViewList, m_confirmState := None\<rparr>, NoCmd)
      else if k = ''y'' \<or> k = ''enter'' then
        (case m_confirmState m of
           None \<Rightarrow> (m, NoCmd)
         | Some c \<Rightarrow> (m\<lparr>m_viewMode := ViewList, m_confirmState := None\<rparr>, ShutdownClientCmd (cf_clientID c)))
      else (m, NoCmd))"

text \<open>Moving in the probe logs: nothing happens without a stream and, for most keys, without a log.\<close>

definition on_probe :: "('v probeState \<Rightarrow> 'v probeState) \<Rightarrow> 'v TUIModel \<Rightarrow> 'v TUIModel" where
  "on_probe f m = m\<lparr>m_probeState := map_option f (m_probeState m)\<rparr>"

definition on_logs :: "('v probeState \<Rightarrow> 'v probeState) \<Rightarrow> 'v TUIModel \<Rightarrow> 'v TUIModel" where
  "on_logs f m =
     (case m_probeState m of
        None \<Rightarrow> m
      | Some ps \<Rightarrow> (if len (pr_logs ps) > 0 then m\<lparr>m_probeState := Some (f ps)\<rparr> else m))"

definition probe_top :: "'v probeState \<Rightarrow> 'v probeState" where
  "probe_top ps = ps\<lparr>pr_selectedIdx := 0, pr_scroll := 0, pr_autoScroll := False\<rparr>"

definition probe_bottom :: "int \<Rightarrow> 'v probeState \<Rightarrow> 'v probeState" where
  "probe_bottom visibleRows ps =
     ps\<lparr>pr_selectedIdx := len (pr_logs ps) - 1, pr_scroll := max (len (pr_logs ps) - visibleRows) 0, pr_autoScroll := True\<rparr>"

definition probe_to :: "int \<Rightarrow> int \<Rightarrow> 'v probeState \<Rightarrow> 'v probeState" where
  "probe_to visibleRows i ps =
     ps\<lparr>pr_selectedIdx := i, pr_scroll := clampScrollToContain (pr_scroll ps) i visibleRows (len (pr_logs ps))\<rparr>"

definition probe_up :: "int \<Rightarrow> 'v probeState \<Rightarrow> 'v probeState" where
  "probe_up visibleRows ps =
     (probe_to visibleRows (if pr_selectedIdx ps > 0 then pr_selectedIdx ps - 1 else pr_selectedIdx ps) ps)\<lparr>pr_autoScroll := False\<rparr>"

definition probe_down :: "int \<Rightarrow> 'v probeState \<Rightarrow> 'v probeState" where
  "probe_down visibleRows ps =
     probe_to visibleRows (if pr_selectedIdx ps < len (pr_logs ps) - 1 then pr_selectedIdx ps + 1 else pr_selectedIdx ps) ps"

definition probe_pgup :: "int \<Rightarrow> 'v probeState \<Rightarrow> 'v probeState" where
  "probe_pgup pageSize ps =
     (probe_to pageSize (if pr_selectedIdx ps > pageSize then pr_selectedIdx ps - pageSize else 0) ps)\<lparr>pr_autoScroll := False\<rparr>"

definition probe_pgdn :: "int \<Rightarrow> 'v probeState \<Rightarrow> 'v probeState" where
  "probe_pgdn pageSize ps =
     probe_to pageSize
       (if pr_selectedIdx ps + pageSize < len (pr_logs ps) - 1 then pr_selectedIdx ps + pageSize else len (pr_logs ps) - 1) ps"

definition toggle_auto_scroll :: "nat \<Rightarrow> 'v TUIModel \<Rightarrow> 'v TUIModel" where
  "toggle_auto_scroll now m =
     (case m_probeState m of
        None \<Rightarrow> m
      | Some ps \<Rightarrow>
          let ps = ps\<lparr>pr_autoScroll := \<not> pr_autoScroll ps\<rparr>;
              ps = (if pr_autoScroll ps \<and> len (pr_logs ps) > 0
                then ps\<lparr>pr_selectedIdx := len (pr_logs ps) - 1,
                        pr_scroll := max (len (pr_logs ps) - getProbeVisibleRows m) 0\<rparr> else ps) in
          m\<lparr>m_probeState := Some ps,
            m_successMsg := (if pr_autoScroll ps then ''Auto-scroll: ON'' else ''Auto-scroll: OFF''), m_successTime := now\<rparr>)"

definition ask_for_file :: "'v tui_lib \<Rightarrow> nat \<Rightarrow> 'v TUIModel \<Rightarrow> 'v TUIModel" where
  "ask_for_file lib now m =
     (case m_probeState m of
        None \<Rightarrow> m
      | Some ps \<Rightarrow>
          let defaultPath = pr_clientID ps @ ''-'' @ TimeFormat lib ''20060102-150405'' now @ ''.log'' in
          m\<lparr>m_saveState := Some \<lparr>sa_clientID = pr_clientID ps, sa_filePath = defaultPath, sa_editing = False,
                sa_cursorPos = len defaultPath, sa_previousView = ViewProbe, sa_overwriteConfirm = False\<rparr>,
            m_viewMode := ViewSaveConfirm\<rparr>)"

definition handleProbeKeys :: "'v tui_lib \<Rightarrow> nat \<Rightarrow> KeyMsg \<Rightarrow> 'v TUIModel \<Rightarrow> 'v TUIModel" where
  "handleProbeKeys lib now key m =
     (let k = k_String key; rows = getProbeVisibleRows m in
      if k = ''ctrl+c'' \<or> k = ''q'' \<or> k = ''esc'' then (stopProbeStream m)\<lparr>m_viewMode := ViewList\<rparr>
      else if k = ''g'' \<or> k = ''home'' then on_probe probe_top m
      else if k = '' '' then toggle_auto_scroll now m
      else if k = ''s'' then ask_for_file lib now m
      else if k = ''up'' \<or> k = ''k'' then on_logs (probe_up rows) m
      else if k = ''down'' \<or> k = ''j''
      then (case m_probeState m of
              None \<Rightarrow> m
            | Some ps \<Rightarrow> if len (pr_logs ps) > 0 then updateAutoScroll (on_logs (probe_down rows) m) else m)
      else if k = ''end'' \<or> k = ''G'' then on_logs (probe_bottom rows) m
      else if k = ''pgup'' then on_logs (probe_pgup rows) m
      else if k = ''pgdn''
      then (case m_probeState m of
              None \<Rightarrow> m
            | Some ps \<Rightarrow> if len (pr_logs ps) > 0 then updateAutoScroll (on_logs (probe_pgdn rows) m) else m)
      else m)"

definition handleServerLogsKeys :: "nat \<Rightarrow> KeyMsg \<Rightarrow> 'v TUIModel \<Rightarrow> 'v TUIModel" where
  "handleServerLogsKeys now key m =
     (let k = k_String key; n = len (m_logEntries m); sel = m_serverLogsSelectedIdx m; rows = getServerLogsVisibleRows m in
      if k = ''ctrl+c'' \<or> k = ''q'' \<or> k = ''esc'' then m\<lparr>m_viewMode := ViewList, m_serverLogsScroll := 0\<rparr>
      else if k = ''g'' \<or> k = ''home'' then m\<lparr>m_serverLogsSelectedIdx := 0, m_serverLogsScroll := 0\<rparr>
      else if k = ''up'' \<or> k = ''k''
      then (if n > 0 \<and> sel > 0 then adjustServerLogsScroll (m\<lparr>m_serverLogsSelectedIdx := sel - 1\<rparr>) else m)
      else if k = ''down'' \<or> k = ''j''
      then (if n > 0 \<and> sel < n - 1 then adjustServerLogsScroll (m\<lparr>m_serverLogsSelectedIdx := sel + 1\<rparr>) else m)
      else if k = ''pgup''
      then adjustServerLogsScroll (m\<lparr>m_serverLogsSelectedIdx := (if sel > rows then sel - rows else 0)\<rparr>)
      else if k = ''pgdn''
      then adjustServerLogsScroll (m\<lparr>m_serverLogsSelectedIdx := (if sel + rows < n - 1 then sel + rows else n - 1)\<rparr>)
      else if k = ''end'' \<or> k = ''G''
      then (if n > 0 then adjustServerLogsScroll (m\<lparr>m_serverLogsSelectedIdx := n - 1\<rparr>) else m)
      else if k = ''R''
      then m\<lparr>m_droppedLogs := 0, m_successMsg := ''Dropped logs reset'', m_successTime := now\<rparr>
      else m)"

section \<open>The dialog for a file\<close>

text \<open>The loop over the runes typed: each goes to the cursor, which moves by its bytes.\<close>

fun insert_runes :: "nat list \<Rightarrow> string \<Rightarrow> int \<Rightarrow> (string \<times> int) option" where
  "insert_runes [] path cursorPos = Some (path, cursorPos)"
| "insert_runes (r # rs) path cursorPos = do {
     let s = encode_rune r;
     front \<leftarrow> subslice path 0 cursorPos;
     back \<leftarrow> subslice path cursorPos (len path);
     insert_runes rs (front @ s @ back) (cursorPos + len s)
   }"

definition edit_path :: "KeyMsg \<Rightarrow> saveState \<Rightarrow> saveState option" where
  "edit_path key sa =
     (let path = sa_filePath sa; pos = sa_cursorPos sa in
      case k_Type key of
        KeyEsc \<Rightarrow> Some (sa\<lparr>sa_editing := False\<rparr>)
      | KeyEnter \<Rightarrow> Some (sa\<lparr>sa_editing := False\<rparr>)
      | KeyBackspace \<Rightarrow>
          (if pos > 0
           then do {
             front \<leftarrow> subslice path 0 (pos - 1);
             back \<leftarrow> subslice path pos (len path);
             Some (sa\<lparr>sa_filePath := front @ back, sa_cursorPos := pos - 1\<rparr>)
           }
           else Some sa)
      | KeyDelete \<Rightarrow>
          (if pos < len path
           then do {
             front \<leftarrow> subslice path 0 pos;
             back \<leftarrow> subslice path (pos + 1) (len path);
             Some (sa\<lparr>sa_filePath := front @ back\<rparr>)
           }
           else Some sa)
      | KeyLeft \<Rightarrow> Some (if pos > 0 then sa\<lparr>sa_cursorPos := pos - 1\<rparr> else sa)
      | KeyRight \<Rightarrow> Some (if pos < len path then sa\<lparr>sa_cursorPos := pos + 1\<rparr> else sa)
      | KeyHome \<Rightarrow> Some (sa\<lparr>sa_cursorPos := 0\<rparr>)
      | KeyEnd \<Rightarrow> Some (sa\<lparr>sa_cursorPos := len path\<rparr>)
      | KeyRunes \<Rightarrow> do {
          (path, pos) \<leftarrow> insert_runes (k_Runes key) path pos;
          Some (sa\<lparr>sa_filePath := path, sa_cursorPos := pos\<rparr>)
        }
      | KeyOther \<Rightarrow> Some sa)"

text \<open>\<open>stat\<close> tells whether a file exists.\<close>

definition handleSaveConfirmKeys :: "(string \<Rightarrow> bool) \<Rightarrow> KeyMsg \<Rightarrow> 'v TUIModel \<Rightarrow> 'v step" where
  "handleSaveConfirmKeys stat key m =
     (case m_saveState m of
        None \<Rightarrow> Some (m\<lparr>m_viewMode := ViewProbe\<rparr>, NoCmd)
      | Some sa \<Rightarrow>
          if sa_editing sa then do { sa \<leftarrow> edit_path key sa; Some (m\<lparr>m_saveState := Some sa\<rparr>, NoCmd) }
          else
            let k = k_String key in
            if k = ''ctrl+c'' \<or> k = ''esc'' \<or> k = ''n'' \<or> k = ''q''
            then Some (m\<lparr>m_viewMode := sa_previousView sa, m_saveState := None\<rparr>, NoCmd)
            else if k = ''e''
            then Some (m\<lparr>m_saveState := Some (sa\<lparr>sa_editing := True, sa_overwriteConfirm := False\<rparr>)\<rparr>, NoCmd)
            else if k = ''enter''
            then (if \<not> sa_overwriteConfirm sa \<and> stat (sa_filePath sa)
                  then Some (m\<lparr>m_saveState := Some (sa\<lparr>sa_overwriteConfirm := True\<rparr>)\<rparr>, NoCmd)
                  else Some (m, SaveProbeLogs))
            else Some (m, NoCmd))"

section \<open>Any key\<close>

definition handleKeyPress :: "'v tui_lib \<Rightarrow> nat \<Rightarrow> (string \<Rightarrow> bool) \<Rightarrow> KeyMsg \<Rightarrow> 'v TUIModel \<Rightarrow> 'v step" where
  "handleKeyPress lib now stat key m =
     (if k_String key = ''ctrl+c'' \<or> k_String key = ''q'' \<and> m_viewMode m = ViewList then Some (m, Quit)
      else case m_viewMode m of
        ViewList \<Rightarrow> handleListKeys lib now key m
      | ViewDetail \<Rightarrow> Some (handleDetailKeys key m)
      | ViewConfirm \<Rightarrow> Some (handleConfirmKeys key m)
      | ViewProbe \<Rightarrow> Some (handleProbeKeys lib now key m, NoCmd)
      | ViewServerLogs \<Rightarrow> Some (handleServerLogsKeys now key m, NoCmd)
      | ViewSaveConfirm \<Rightarrow> handleSaveConfirmKeys stat key m)"

section \<open>The list of clients arrives\<close>

text \<open>\<^verbatim>\<open>sort.SliceStable\<close>: an insertion sort up to twenty elements.\<close>

fun insert_by :: "('b \<Rightarrow> 'b \<Rightarrow> bool) \<Rightarrow> 'b \<Rightarrow> 'b list \<Rightarrow> 'b list" where
  "insert_by lt c [] = [c]"
| "insert_by lt c (d # ds) = (if lt c d then d # insert_by lt c ds else c # d # ds)"

definition insertion_sort :: "('b \<Rightarrow> 'b \<Rightarrow> bool) \<Rightarrow> 'b list \<Rightarrow> 'b list" where
  "insertion_sort lt xs = rev (fold (insert_by lt) xs [])"

definition client_less :: "ClientInfo \<Rightarrow> ClientInfo \<Rightarrow> bool" where
  "client_less ci cj =
     (if ci_Status ci = ''active'' \<and> ci_Status cj \<noteq> ''active'' then True
      else if ci_Status ci \<noteq> ''active'' \<and> ci_Status cj = ''active'' then False
      else if ci_Status ci = ''active'' \<and> ci_Status cj = ''active'' then ci_ConnectedAt ci < ci_ConnectedAt cj
      else if ci_Status ci = ''disconnected'' \<and> ci_Status cj = ''disconnected''
      then ci_DisconnectedAt ci > ci_DisconnectedAt cj
      else False)"

definition order_clients :: "'v tui_lib \<Rightarrow> ClientInfo list \<Rightarrow> ClientInfo list" where
  "order_clients lib cs = (if length cs \<le> 20 then insertion_sort client_less cs else StableMany lib client_less cs)"

text \<open>The position of the first client with an id.\<close>

fun position_of :: "string \<Rightarrow> ClientInfo list \<Rightarrow> nat option" where
  "position_of i [] = None"
| "position_of i (c # cs) = (if ci_ID c = i then Some 0 else map_option Suc (position_of i cs))"

definition last_if_beyond :: "'v TUIModel \<Rightarrow> 'v TUIModel" where
  "last_if_beyond m =
     (if len (m_clients m) > 0 \<and> m_selectedIdx m \<ge> len (m_clients m) then m\<lparr>m_selectedIdx := len (m_clients m) - 1\<rparr> else m)"

definition clients_arrive :: "'v tui_lib \<Rightarrow> nat \<Rightarrow> ClientInfo list \<Rightarrow> 'v TUIModel \<Rightarrow> 'v step" where
  "clients_arrive lib now clients m = do {
     prevSelectedID \<leftarrow>
       (if m_selectedIdx m \<ge> 0 \<and> m_selectedIdx m < len (m_clients m)
        then map_option ci_ID (index (m_clients m) (m_selectedIdx m)) else Some []);
     let m = m\<lparr>m_clients := order_clients lib clients, m_lastUpdate := now\<rparr>;
     let m = (if prevSelectedID \<noteq> []
       then (case position_of prevSelectedID (m_clients m) of
               Some i \<Rightarrow> m\<lparr>m_selectedIdx := int i\<rparr>
             | None \<Rightarrow> last_if_beyond m)
       else last_if_beyond m);
     m \<leftarrow> adjustScrollForSelection lib m;
     Some (m, NoCmd)
   }"

section \<open>Logs and streams\<close>

definition keep_selection :: "int \<Rightarrow> int \<Rightarrow> int" where
  "keep_selection sel amount = clamp sel 0 (clamp (amount - 1) (-1) (amount - 1))"

definition probe_log_arrives :: "'v ProbeLogEntry \<Rightarrow> 'v TUIModel \<Rightarrow> 'v TUIModel \<times> 'v cmd" where
  "probe_log_arrives entry m =
     (case m_probeState m of
        None \<Rightarrow> (m, NoCmd)
      | Some ps \<Rightarrow>
          let ps = ps\<lparr>pr_logs := keep_last probeLogKeep (pr_logs ps @ [entry])\<rparr>;
              amount = len (pr_logs ps);
              visible = getProbeVisibleRows m;
              ps = (if pr_autoScroll ps
                then ps\<lparr>pr_selectedIdx := amount - 1, pr_scroll := maxScroll amount visible\<rparr>
                else ps\<lparr>pr_selectedIdx := keep_selection (pr_selectedIdx ps) amount,
                        pr_scroll := clamp (pr_scroll ps) 0 (maxScroll amount visible)\<rparr>) in
          (m\<lparr>m_probeState := Some ps\<rparr>, ListenForProbeLog))"

definition probe_ends :: "nat \<Rightarrow> 'v TUIModel \<Rightarrow> 'v TUIModel \<times> 'v cmd" where
  "probe_ends now m =
     (case m_probeState m of
        None \<Rightarrow> (m, NoCmd)
      | Some ps \<Rightarrow>
          if m_viewMode m \<noteq> ViewProbe then (stopProbeStream m, NoCmd)
          else if pr_disconnected ps
          then ((cancel_ctx (pr_cancelFunc ps) m)\<lparr>m_probeState := Some (ps\<lparr>pr_cancelFunc := None\<rparr>)\<rparr>, NoCmd)
          else if pr_reconnectCount ps \<ge> 5
          then (stopProbeStream (m\<lparr>m_err := Some (''probe stream ended after '' @ itoa (pr_reconnectCount ps) @ '' reconnection attempts''),
                  m_errorTime := now\<rparr>), NoCmd)
          else ((stopProbeStream m)\<lparr>m_err := Some (''probe stream disconnected, reconnecting... (attempt '' @
                    itoa (pr_reconnectCount ps + 1) @ ''/5)''), m_errorTime := now\<rparr>,
                ReconnectLater (pr_clientID ps) (pr_logs ps) (pr_reconnectCount ps + 1)))"

definition stream_started :: "string \<Rightarrow> nat \<Rightarrow> nat option \<Rightarrow> 'v ProbeLogEntry list \<Rightarrow> int \<Rightarrow> int \<Rightarrow> int \<Rightarrow> bool \<Rightarrow> 'v probeState" where
  "stream_started clientID ctx cancelFunc logs scroll selectedIdx reconnectCount disconnected =
     \<lparr>pr_clientID = clientID, pr_logs = logs, pr_scroll = scroll, pr_selectedIdx = selectedIdx,
       pr_cancelFunc = cancelFunc, pr_ctx = ctx, pr_autoScroll = True, pr_reconnectCount = reconnectCount,
       pr_disconnected = disconnected\<rparr>"

definition stream_starts :: "string \<Rightarrow> nat \<Rightarrow> nat option \<Rightarrow> 'v ProbeLogEntry list option \<Rightarrow> int \<Rightarrow> bool \<Rightarrow>
    'v TUIModel \<Rightarrow> 'v TUIModel \<times> 'v cmd" where
  "stream_starts clientID ctx cancelFunc preservedLogs reconnectCount disconnected m =
     (if m_viewMode m \<noteq> ViewProbe then (cancel_ctx cancelFunc m, NoCmd)
      else
        let logs = (case preservedLogs of None \<Rightarrow> [] | Some logs \<Rightarrow> logs);
            selectedIdx = (if len logs - 1 < 0 then 0 else len logs - 1);
            scroll = (if len logs > 0 then max (len logs - max (getProbeVisibleRows m) 1) 0 else 0) in
        (m\<lparr>m_probeState := Some (stream_started clientID ctx cancelFunc logs scroll selectedIdx reconnectCount disconnected)\<rparr>,
         ListenForProbeLog))"

definition log_arrives :: "'v tui_lib \<Rightarrow> 'v LogEntry \<Rightarrow> 'v TUIModel \<Rightarrow> 'v TUIModel \<times> 'v cmd" where
  "log_arrives lib entry m =
     (let filtered = filter (\<lambda>(k, v). k \<noteq> ''level'') (lg_Attrs entry);
          entry = (if length (lg_Attrs entry) > 0 \<and> length filtered > 0
            then (case Marshal lib filtered of Some b \<Rightarrow> entry\<lparr>lg_AttrJSON := b\<rparr> | None \<Rightarrow> entry) else entry);
          m = m\<lparr>m_logEntries := keep_last serverLogKeep (m_logEntries m @ [entry])\<rparr>;
          amount = len (m_logEntries m);
          sel = keep_selection (m_serverLogsSelectedIdx m) amount in
      (if m_viewMode m = ViewServerLogs
       then m\<lparr>m_serverLogsSelectedIdx := sel,
              m_serverLogsScroll := clampScrollToContain (m_serverLogsScroll m) sel (getServerLogsVisibleRows m) amount\<rparr>
       else m, ListenForLogs))"

section \<open>The window is resized\<close>

definition resize :: "'v tui_lib \<Rightarrow> int \<Rightarrow> int \<Rightarrow> 'v TUIModel \<Rightarrow> 'v step" where
  "resize lib w h m =
     (let m = m\<lparr>m_width := w, m_height := h\<rparr> in
      case m_viewMode m of
        ViewList \<Rightarrow> do { m \<leftarrow> adjustScrollForSelection lib m; Some (m, NoCmd) }
      | ViewServerLogs \<Rightarrow>
          let amount = clamp (len (m_logEntries m)) 0 (len (m_logEntries m));
              sel = keep_selection (m_serverLogsSelectedIdx m) amount in
          Some (if amount = 0 then m\<lparr>m_serverLogsSelectedIdx := 0, m_serverLogsScroll := 0\<rparr>
                else m\<lparr>m_serverLogsSelectedIdx := sel,
                  m_serverLogsScroll := clampScrollToContain (m_serverLogsScroll m) sel (getServerLogsVisibleRows m) amount\<rparr>,
                NoCmd)
      | ViewProbe \<Rightarrow>
          Some (on_probe (\<lambda>ps. probe_to (getProbeVisibleRows m) (keep_selection (pr_selectedIdx ps) (len (pr_logs ps))) ps) m, NoCmd)
      | _ \<Rightarrow> Some (m, NoCmd))"

section \<open>Update\<close>

definition Update :: "'v tui_lib \<Rightarrow> nat \<Rightarrow> (string \<Rightarrow> bool) \<Rightarrow> 'v msg \<Rightarrow> 'v TUIModel \<Rightarrow> 'v step" where
  "Update lib now stat msg m =
     (case msg of
        WindowSizeMsg w h \<Rightarrow> resize lib w h m
      | KeyPress key \<Rightarrow> handleKeyPress lib now stat key m
      | TickMsg \<Rightarrow>
          Some (m, Batch ([FetchClients, Tick] @
            (case m_clientDetail m of
               Some d \<Rightarrow> (if m_viewMode m = ViewDetail then [FetchClientDetail (fi_ID d)] else [])
             | None \<Rightarrow> [])))
      | ClientsMsg clients \<Rightarrow> clients_arrive lib now clients m
      | ClientDetailMsg d \<Rightarrow> Some (m\<lparr>m_clientDetail := Some d, m_viewMode := ViewDetail\<rparr>, NoCmd)
      | ErrorMsg e \<Rightarrow>
          let m = m\<lparr>m_err := Some e, m_errorTime := now\<rparr> in
          Some (if m_viewMode m = ViewProbe \<and> m_probeState m = None then m\<lparr>m_viewMode := ViewList\<rparr> else m, NoCmd)
      | SuccessMsg t \<Rightarrow>
          let m = m\<lparr>m_successMsg := t, m_successTime := now\<rparr> in
          Some (case m_saveState m of
              Some sa \<Rightarrow> (if m_viewMode m = ViewSaveConfirm
                then m\<lparr>m_viewMode := sa_previousView sa, m_saveState := None\<rparr> else m)
            | None \<Rightarrow> m, NoCmd)
      | ProbeLogMsg entry \<Rightarrow> Some (probe_log_arrives entry m)
      | ProbeEndMsg \<Rightarrow> Some (probe_ends now m)
      | ProbeStreamStartedMsg clientID ctx cancelFunc \<Rightarrow>
          Some (m\<lparr>m_probeState := Some (stream_started clientID ctx cancelFunc [] 0 0 0 False)\<rparr>, ListenForProbeLog)
      | ReconnectProbeMsg clientID logs reconnectCount \<Rightarrow>
          Some (m, if m_viewMode m \<noteq> ViewProbe then NoCmd else StartProbeStream clientID (Some logs) reconnectCount False)
      | ProbeStreamStartedMsgWithState clientID ctx cancelFunc logs reconnectCount disconnected \<Rightarrow>
          Some (stream_starts clientID ctx cancelFunc logs reconnectCount disconnected m)
      | LogMsg entry \<Rightarrow> Some (log_arrives lib entry m))"

section \<open>What commands answer\<close>

text \<open>The answers of the API become messages; \<open>Inl\<close> is the text of an error.\<close>

definition fetchClients :: "string + ClientInfo list \<Rightarrow> 'v msg" where
  "fetchClients r = (case r of Inl e \<Rightarrow> ErrorMsg e | Inr clients \<Rightarrow> ClientsMsg clients)"

definition fetchClientDetail :: "string + FullClientInfo \<Rightarrow> 'v msg" where
  "fetchClientDetail r = (case r of Inl e \<Rightarrow> ErrorMsg e | Inr clientInfo \<Rightarrow> ClientDetailMsg clientInfo)"

definition shutdownClient :: "string + unit \<Rightarrow> 'v msg" where
  "shutdownClient r = (case r of Inl e \<Rightarrow> ErrorMsg e | Inr _ \<Rightarrow> SuccessMsg ''Client shutdown initiated successfully'')"

text \<open>\<open>ctx\<close> is the new context; a stream that could not be started cancels it.\<close>

definition startProbeStreamWithState :: "nat \<Rightarrow> string + unit \<Rightarrow> string \<Rightarrow> 'v ProbeLogEntry list option \<Rightarrow> int \<Rightarrow> bool \<Rightarrow>
    'v TUIModel \<Rightarrow> 'v msg \<times> 'v TUIModel" where
  "startProbeStreamWithState ctx r clientID preservedLogs reconnectCount disconnected m =
     (case r of
        Inl e \<Rightarrow> (ErrorMsg e, cancel_ctx (Some ctx) m)
      | Inr _ \<Rightarrow> (ProbeStreamStartedMsgWithState clientID ctx (Some ctx) preservedLogs reconnectCount disconnected, m))"

text \<open>What the channel of the stream does next: a log, or its end; a cancelled context may win.\<close>

definition listenForProbeLog :: "'v ProbeLogEntry option \<Rightarrow> bool \<Rightarrow> 'v TUIModel \<Rightarrow> 'v msg" where
  "listenForProbeLog log prefer_done m =
     (case m_probeState m of
        None \<Rightarrow> ProbeEndMsg
      | Some ps \<Rightarrow>
          if pr_ctx ps \<in> set (m_cancelled m) \<and> prefer_done then ProbeEndMsg
          else case log of None \<Rightarrow> ProbeEndMsg | Some log \<Rightarrow> ProbeLogMsg log)"

text \<open>The next entry of the channel of server logs, if there is one and the program goes on.\<close>

definition listenForLogs :: "bool \<Rightarrow> 'v TUIModel \<Rightarrow> 'v msg option \<times> 'v TUIModel" where
  "listenForLogs done m =
     (if done then (None, m)
      else case m_logChan m of
        [] \<Rightarrow> (None, m)
      | log # q \<Rightarrow> (Some (LogMsg log), m\<lparr>m_logChan := q\<rparr>))"

definition tick :: "'v msg" where "tick = TickMsg"

text \<open>
  Saving: \<open>dir_of\<close>, \<open>mkdir\<close> and \<open>create\<close> are the file system's, \<open>encode\<close> the encoder writing one log to the
  file. The outcome is the message and what the file holds.
\<close>

fun encode_all :: "('v ProbeLogEntry \<Rightarrow> string + string) \<Rightarrow> 'v ProbeLogEntry list \<Rightarrow> string \<Rightarrow> string option \<times> string" where
  "encode_all encode [] out = (None, out)"
| "encode_all encode (log # logs) out =
     (case encode log of
        Inl e \<Rightarrow> (Some e, out)
      | Inr line \<Rightarrow> encode_all encode logs (out @ line))"

definition saveProbeLogsToFile :: "(string \<Rightarrow> string) \<Rightarrow> (string \<Rightarrow> string + unit) \<Rightarrow> (string \<Rightarrow> string + unit) \<Rightarrow>
    ('v ProbeLogEntry \<Rightarrow> string + string) \<Rightarrow> 'v TUIModel \<Rightarrow> 'v msg \<times> (string \<times> string) option" where
  "saveProbeLogsToFile dir_of mkdir create encode m =
     (case (m_saveState m, m_probeState m) of
        (Some sa, Some ps) \<Rightarrow>
          let filePath = sa_filePath sa; logs = pr_logs ps; dir = dir_of filePath in
          (case (if dir \<noteq> ''.'' \<and> dir \<noteq> [] then mkdir dir else Inr ()) of
             Inl e \<Rightarrow> (ErrorMsg (''failed to create directory '' @ dir @ '': '' @ e), None)
           | Inr _ \<Rightarrow>
               (case create filePath of
                  Inl e \<Rightarrow> (ErrorMsg (''failed to create file: '' @ e), None)
                | Inr _ \<Rightarrow>
                    (case encode_all encode logs [] of
                       (Some e, out) \<Rightarrow> (ErrorMsg (''failed to write log: '' @ e), Some (filePath, out))
                     | (None, out) \<Rightarrow> (SuccessMsg (''Saved '' @ itoa (len logs) @ '' logs to '' @ filePath), Some (filePath, out)))))
      | _ \<Rightarrow> (ErrorMsg ''save state or probe state not initialized'', None))"

section \<open>Logs for the interface\<close>

text \<open>
  The goroutine of \<^verbatim>\<open>Run\<close> that forwards an entry of the server's log to the channel of 100 entries;
  an entry for which there is no room is counted. \<open>level_of\<close> reads the attribute \<^verbatim>\<open>level\<close> if it is a
  string.
\<close>

definition entry_of_log :: "('v \<Rightarrow> string option) \<Rightarrow> 'v ProbeLogEntry \<Rightarrow> 'v LogEntry" where
  "entry_of_log string_of log =
     \<lparr>lg_Time = le_Timestamp log,
       lg_Level = (case map_of (le_Attrs log) ''level'' of
           Some v \<Rightarrow> (case string_of v of Some l \<Rightarrow> l | None \<Rightarrow> ''INFO'')
         | None \<Rightarrow> ''INFO''),
       lg_Message = le_Message log, lg_Attrs = le_Attrs log, lg_AttrJSON = []\<rparr>"

definition forward_log :: "('v \<Rightarrow> string option) \<Rightarrow> 'v ProbeLogEntry \<Rightarrow> 'v TUIModel \<Rightarrow> 'v TUIModel" where
  "forward_log string_of log m =
     (if length (m_logChan m) < 100 then m\<lparr>m_logChan := m_logChan m @ [entry_of_log string_of log]\<rparr>
      else m\<lparr>m_droppedLogs := m_droppedLogs m + 1\<rparr>)"

text \<open>
  The slog handler of \<^verbatim>\<open>src/tui/slog_handler.go\<close>: it sends a record to the channel if there is room
  and always hands it on to the next handler, \<open>next\<close>.
\<close>

record ('v, 's) TUIHandler =
  th_logChan :: "'v LogEntry list"
  th_next :: 's

definition NewTUIHandler :: "'v LogEntry list \<Rightarrow> 's \<Rightarrow> ('v, 's) TUIHandler" where
  "NewTUIHandler logChan nxt = \<lparr>th_logChan = logChan, th_next = nxt\<rparr>"

definition TUIHandler_Enabled :: "('s \<Rightarrow> 'l \<Rightarrow> bool) \<Rightarrow> ('v, 's) TUIHandler \<Rightarrow> 'l \<Rightarrow> bool" where
  "TUIHandler_Enabled enabled h level = enabled (th_next h) level"

definition TUIHandler_Handle :: "('s \<Rightarrow> 'r + 's) \<Rightarrow> nat \<Rightarrow> string \<Rightarrow> string \<Rightarrow> (string \<times> 'v) list \<Rightarrow> ('v, 's) TUIHandler \<Rightarrow>
    'r option \<times> ('v, 's) TUIHandler" where
  "TUIHandler_Handle handle time level message attrs h =
     (let entry = \<lparr>lg_Time = time, lg_Level = level, lg_Message = message,
                    lg_Attrs = fold (\<lambda>(k, v) m. AList.update k v m) attrs [], lg_AttrJSON = []\<rparr>;
          h = (if length (th_logChan h) < 100 then h\<lparr>th_logChan := th_logChan h @ [entry]\<rparr> else h) in
      case handle (th_next h) of
        Inl e \<Rightarrow> (Some e, h)
      | Inr nxt \<Rightarrow> (None, h\<lparr>th_next := nxt\<rparr>))"

definition TUIHandler_WithAttrs :: "('b \<Rightarrow> 's \<Rightarrow> 's) \<Rightarrow> 'b \<Rightarrow> ('v, 's) TUIHandler \<Rightarrow> ('v, 's) TUIHandler" where
  "TUIHandler_WithAttrs withAttrs attrs h = \<lparr>th_logChan = th_logChan h, th_next = withAttrs attrs (th_next h)\<rparr>"

definition TUIHandler_WithGroup :: "(string \<Rightarrow> 's \<Rightarrow> 's) \<Rightarrow> string \<Rightarrow> ('v, 's) TUIHandler \<Rightarrow> ('v, 's) TUIHandler" where
  "TUIHandler_WithGroup withGroup name h = \<lparr>th_logChan = th_logChan h, th_next = withGroup name (th_next h)\<rparr>"

end
