(* ===== verification/Tui_View.thy ===== *)
theory Tui_View
  imports Tui_Model
begin

text \<open>
  What the terminal user interface shows: \<^verbatim>\<open>src/tui/view.go\<close>. A view is text; it is \<open>None\<close> where the
  code would index or slice out of range. Two views change the model: the list forgets messages that were
  shown long enough, the details bring their scroll position into range.
\<close>

section \<open>Characters beyond ASCII\<close>

definition bullet :: string where "bullet = [CHR 0x20, CHR 0xE2, CHR 0x80, CHR 0xA2, CHR 0x20]"
definition arrows :: string where "arrows = [CHR 0xE2, CHR 0x86, CHR 0x91, CHR 0xE2, CHR 0x86, CHR 0x93]"
definition dash :: string where "dash = [CHR 0xE2, CHR 0x94, CHR 0x80]"

definition line :: "string \<Rightarrow> string" where "line s = s @ [newline]"

definition since :: "nat \<Rightarrow> nat \<Rightarrow> int" where "since now t = int now - int t"

definition errorToastDuration :: int where "errorToastDuration = 5 * int second"
definition successToastDuration :: int where "successToastDuration = 3 * int second"

section \<open>The list\<close>

definition renderHeader :: "'v tui_lib \<Rightarrow> 'v TUIModel \<Rightarrow> string" where
  "renderHeader lib m =
     (let activeCount = len (filter (\<lambda>client. ci_Status client = ''active'') (m_clients m)) in
      Render lib headerStyle
        (''Active Clients: '' @ itoa activeCount @ ''  Total: '' @ itoa (len (m_clients m)) @ ''  Last Update: '' @
          TimeFormat lib ''15:04:05'' (m_lastUpdate m) @
          (if m_droppedLogs m > 0 then ''  Dropped logs: '' @ itoa (m_droppedLogs m) else [])))"

definition table_header :: string where
  "table_header = ''ID         User     VHost    Address              Status    Connected  Methods  Frames''"

definition renderTable :: "'v tui_lib \<Rightarrow> nat \<Rightarrow> 'v TUIModel \<Rightarrow> string option" where
  "renderTable lib now m =
     (if m_clients m = [] then Some (Render lib tableStyle ''No clients connected'')
      else do {
        visibleRows \<leftarrow> getVisibleRows lib m;
        let startIdx = m_listScroll m;
        let endIdx = min (startIdx + visibleRows) (len (m_clients m));
        rows \<leftarrow> those (map (\<lambda>i. do {
            client \<leftarrow> index (m_clients m) i;
            row \<leftarrow> formatClientRow lib now client (i = m_selectedIdx m);
            Some (if i = m_selectedIdx m then Render lib selectedRowStyle row else row)
          }) [startIdx..endIdx - 1]);
        let content = join_with newline
          ([table_header, concat (replicate (length table_header) dash)] @ rows);
        let result = Render lib tableStyle content;
        Some (if len (m_clients m) > visibleRows
          then
            let totalPages = (len (m_clients m) + visibleRows - 1) div visibleRows;
                currentPage = (m_listScroll m) div visibleRows + 1 in
            result @ [newline] @ Render lib scrollInfoStyle
              ('' ['' @ itoa (startIdx + 1) @ ''-'' @ itoa endIdx @ '' of '' @ itoa (len (m_clients m)) @ '' clients, page '' @
                itoa currentPage @ ''/'' @ itoa totalPages @ '']'')
          else result)
      })"

definition renderLogPane :: "'v tui_lib \<Rightarrow> 'v TUIModel \<Rightarrow> string option" where
  "renderLogPane lib m = do {
     content \<leftarrow>
       (if m_logEntries m = [] then Some (Render lib debugDimStyle ''Logs (waiting...)'')
        else do {
          logLines \<leftarrow> those (map (\<lambda>entry. formatLogEntry lib (m_width m) entry False) (keep_last 3 (m_logEntries m)));
          Some (join_with newline
            (Render lib debugDimStyle (''Logs ('' @ itoa (len (m_logEntries m)) @ '' total):'') # logLines))
        });
     Some (Render lib logPaneBoxStyle content)
   }"

definition renderHelp :: "'v tui_lib \<Rightarrow> string" where
  "renderHelp lib = Render lib helpStyle
     (arrows @ ''/kj navigate'' @ bullet @ ''PgUp/PgDn page'' @ bullet @ ''Enter info'' @ bullet @ ''p probe'' @ bullet @
      ''l logs'' @ bullet @ ''Shift+K shutdown'' @ bullet @ ''r refresh'' @ bullet @ ''q quit'')"

text \<open>An error is broken into pieces of 80 bytes.\<close>

fun pieces :: "nat \<Rightarrow> string \<Rightarrow> string list" where
  "pieces 0 s = []"
| "pieces (Suc fuel) s = (if s = [] then [] else take 80 s # pieces fuel (drop 80 s))"

definition error_text :: "string \<Rightarrow> string" where
  "error_text err =
     (let errMsg = ''Error: '' @ err in
      if length errMsg > 80 then join_with newline (pieces (length errMsg) errMsg) else errMsg)"

definition renderListView :: "'v tui_lib \<Rightarrow> nat \<Rightarrow> 'v TUIModel \<Rightarrow> (string \<times> 'v TUIModel) option" where
  "renderListView lib now m = do {
     table \<leftarrow> renderTable lib now m;
     logs \<leftarrow> renderLogPane lib m;
     let b = renderHeader lib m @ [newline, newline] @ table @ [newline] @ logs @ [newline] @ renderHelp lib;
     let (b, m) =
       (case m_err m of
          None \<Rightarrow> (b, m)
        | Some err \<Rightarrow>
            if since now (m_errorTime m) < errorToastDuration
            then (b @ [newline] @ Render lib errorStyle (error_text err), m)
            else if since now (m_errorTime m) \<ge> 5 * int second then (b, m\<lparr>m_err := None\<rparr>)
            else (b, m));
     Some (if m_successMsg m \<noteq> [] \<and> since now (m_successTime m) < successToastDuration
       then (b @ [newline] @ Render lib successStyle (m_successMsg m), m)
       else if m_successMsg m \<noteq> [] \<and> since now (m_successTime m) \<ge> 3 * int second
       then (b, m\<lparr>m_successMsg := []\<rparr>)
       else (b, m))
   }"

section \<open>Details of a client\<close>

fun string_less :: "string \<Rightarrow> string \<Rightarrow> bool" where
  "string_less s [] = False"
| "string_less [] (d # t) = True"
| "string_less (c # s) (d # t) =
     (if c = d then string_less s t else (of_char c :: nat) < of_char d)"

definition property_lines :: "'v tui_lib \<Rightarrow> gotable \<Rightarrow> string" where
  "property_lines lib props =
     (if entries props = [] then []
      else
        let keys = insertion_sort string_less (filter (\<lambda>key. key \<noteq> []) (map fst (entries props))) in
        line (newline # ''Client Properties:'') @
        concat (map (\<lambda>key. line (''  '' @ key @ '': '' @
          (case map_of (entries props) key of Some v \<Rightarrow> Sprint lib v | None \<Rightarrow> ''<nil>''))) keys))"

definition method_less :: "string \<times> u64 \<Rightarrow> string \<times> u64 \<Rightarrow> bool" where
  "method_less a b = (if snd a \<noteq> snd b then sint (snd a) > sint (snd b) else string_less (fst a) (fst b))"

definition top_methods :: "(string \<times> u64) list \<Rightarrow> (string \<times> u64) list" where
  "top_methods methods = take 5 (insertion_sort method_less methods)"

definition stats_lines :: "'v tui_lib \<Rightarrow> FullStatsSummary \<Rightarrow> string" where
  "stats_lines lib stats =
     line (newline # ''Statistics:'') @
     line (''  Started: '' @ TimeFormat lib ''2006-01-02 15:04:05'' (fs_StartedAt stats) @ '' ('' @ fs_Duration stats @ '' ago)'') @
     line (''  Total Methods: '' @ formatNumber (sint (fs_TotalMethods stats))) @
     line (''  Received Frames: '' @ formatNumber (sint (fs_ReceivedFrames stats))) @
     line (''  Sent Frames: '' @ formatNumber (sint (fs_SentFrames stats))) @
     line (''  Total Frames: '' @ formatNumber (sint (fs_TotalFrames stats))) @
     (if fs_Methods stats \<noteq> []
      then line (newline # ''Method Statistics:'') @
        concat (map (\<lambda>(method, count). line (''  '' @ method @ '': '' @ itoa (sint count))) (top_methods (fs_Methods stats)))
      else [])"

definition detail_text :: "'v tui_lib \<Rightarrow> nat \<Rightarrow> FullClientInfo \<Rightarrow> string" where
  "detail_text lib now client =
     Render lib headerStyle (''Client Details: '' @ formatID (fi_ID client)) @ [newline, newline] @
     line (''ID: '' @ fi_ID client) @ line (''User: '' @ fi_User client) @
     line (''Virtual Host: '' @ fi_VirtualHost client) @ line (''Address: '' @ fi_ClientAddress client) @
     line (''Status: '' @ formatStatus (fi_Status client)) @
     (if fi_ShutdownReason client \<noteq> [] then line (''Shutdown Reason: '' @ fi_ShutdownReason client) else []) @
     line (''Connected: '' @ TimeFormat lib ''2006-01-02 15:04:05'' (fi_ConnectedAt client) @ '' ('' @
       formatDuration (since now (fi_ConnectedAt client)) @ '')'') @
     line (''Client Banner: '' @ fi_ClientBanner client) @
     property_lines lib (fi_ClientProperties client) @
     (case fi_Stats client of None \<Rightarrow> [] | Some stats \<Rightarrow> stats_lines lib stats) @
     [newline] @
     Render lib helpStyle (''Press ESC/q to go back'' @ bullet @ arrows @ ''/kj to scroll'' @ bullet @ ''Home/End'' @ bullet @
       ''p probe'' @ bullet @ ''Shift+K shutdown'')"

definition renderDetailView :: "'v tui_lib \<Rightarrow> nat \<Rightarrow> 'v TUIModel \<Rightarrow> (string \<times> 'v TUIModel) option" where
  "renderDetailView lib now m =
     (case m_clientDetail m of
        None \<Rightarrow> Some (''No client selected'', m)
      | Some client \<Rightarrow> do {
          let lines = split_on newline (detail_text lib now client);
          let availableHeight = max (m_height m - 4) 10;
          let most = max (len lines - availableHeight) 0;
          let m = (if m_detailScroll m > most then m\<lparr>m_detailScroll := most\<rparr> else m);
          let startLine = m_detailScroll m;
          let endLine = min (startLine + availableHeight) (len lines);
          scrolledLines \<leftarrow> subslice lines startLine endLine;
          let result = join_with newline scrolledLines;
          Some (if most > 0
            then result @ [newline] @ Render lib scrollInfoStyle ('' ['' @ itoa (m_detailScroll m + 1) @ ''/'' @ itoa (most + 1) @ '']'')
            else result, m)
        })"

definition renderConfirmView :: "'v TUIModel \<Rightarrow> string" where
  "renderConfirmView m =
     (case m_confirmState m of
        None \<Rightarrow> []
      | Some c \<Rightarrow> ''Confirm Shutdown'' @ [newline, newline] @ cf_message c @ [newline, newline] @
          ''Press '' @ [CHR 0x27] @ ''y'' @ [CHR 0x27] @ '' to confirm, '' @ [CHR 0x27] @ ''n'' @ [CHR 0x27] @ '' to cancel'')"

section \<open>Logs\<close>

definition page_text :: "'v tui_lib \<Rightarrow> int \<Rightarrow> renderResult \<Rightarrow> string" where
  "page_text lib logCount result =
     concat (map line (renderedLines result)) @
     (if logCount > len (renderedLines result)
      then [newline] @ Render lib scrollInfoStyle
        ('' ['' @ itoa (rr_startIdx result + 1) @ ''-'' @ itoa (rr_endIdx result) @ '' of '' @ itoa logCount @ '' logs]'')
      else [])"

definition probe_line :: "'v tui_lib \<Rightarrow> int \<Rightarrow> 'v ProbeLogEntry list \<Rightarrow> int \<Rightarrow> bool \<Rightarrow> string option" where
  "probe_line lib width logs idx isSelected = do {
     log \<leftarrow> index logs idx;
     logLine \<leftarrow> formatProbeLogLine lib width log;
     Some (if isSelected then Render lib selectedStyle logLine else logLine)
   }"

definition renderProbeView :: "'v tui_lib \<Rightarrow> nat \<Rightarrow> 'v TUIModel \<Rightarrow> string option" where
  "renderProbeView lib now m =
     (case m_probeState m of
        None \<Rightarrow> Some ''Loading probe stream...''
      | Some ps \<Rightarrow> do {
          let logCount = len (pr_logs ps);
          latest \<leftarrow> (if logCount > 0
            then map_option (\<lambda>log. bullet @ ''Latest: '' @ TimeFormat lib ''15:04:05'' (le_Timestamp log)) (index (pr_logs ps) (logCount - 1))
            else Some []);
          body \<leftarrow> (if logCount = 0
            then Some (line ''Waiting for probe logs...'' @
              line (Render lib debugDimStyle (''Debug: State initialized for '' @ pr_clientID ps @ bullet @ ''Channel ready'')))
            else map_option (page_text lib logCount)
              (renderLogsWithWrapping logCount (getProbeVisibleRows m) (pr_scroll ps) (pr_selectedIdx ps)
                (probe_line lib (m_width m) (pr_logs ps))));
          Some (Render lib headerStyle (''Probe Logs: '' @ formatID (pr_clientID ps)) @ [newline, newline] @
            Render lib statusDimStyle (''Logs: '' @ itoa logCount @ latest) @ [newline, newline] @ body @ [newline] @
            Render lib helpStyle (''Press ESC/q to go back'' @ bullet @ arrows @ ''/kj to scroll'' @ bullet @ ''Home/End'' @ bullet @
              ''PgUp/PgDn page'' @ bullet @ ''SPACE pause'' @ bullet @ ''s save'' @ bullet @
              (if pr_autoScroll ps then ''Auto-scroll: ON'' else ''Auto-scroll: OFF'')) @
            (case m_err m of
               Some err \<Rightarrow> (if since now (m_errorTime m) < errorToastDuration
                 then [newline] @ Render lib errorStyle (''Error: '' @ err) else [])
             | None \<Rightarrow> []) @
            (if m_successMsg m \<noteq> [] \<and> since now (m_successTime m) < successToastDuration
             then [newline] @ Render lib successStyle (m_successMsg m) else []))
        })"

definition log_line :: "'v tui_lib \<Rightarrow> int \<Rightarrow> 'v LogEntry list \<Rightarrow> int \<Rightarrow> bool \<Rightarrow> string option" where
  "log_line lib width logs idx isSelected = do {
     entry \<leftarrow> index logs idx;
     formatLogEntry lib width entry isSelected
   }"

definition renderServerLogsView :: "'v tui_lib \<Rightarrow> 'v TUIModel \<Rightarrow> string option" where
  "renderServerLogsView lib m = do {
     let logCount = len (m_logEntries m);
     let headerText = ''Server Logs ('' @ itoa logCount @ '' total)'' @
       (if m_droppedLogs m > 0 then bullet @ ''dropped '' @ itoa (m_droppedLogs m) else []);
     body \<leftarrow> (if logCount = 0 then Some (line ''No server logs yet...'')
       else map_option (page_text lib logCount)
         (renderLogsWithWrapping logCount (getServerLogsVisibleRows m) (m_serverLogsScroll m) (m_serverLogsSelectedIdx m)
           (log_line lib (m_width m) (m_logEntries m))));
     Some (Render lib headerStyle headerText @ [newline, newline] @ body @ [newline] @
       Render lib [Foreground ''241''] (''Press ESC/q to go back'' @ bullet @ arrows @ ''/kj to scroll'' @ bullet @ ''Home/End'' @ bullet @
         ''PgUp/PgDn page''))
   }"

section \<open>The dialog for a file and the whole view\<close>

definition renderSaveConfirmView :: "'v tui_lib \<Rightarrow> 'v TUIModel \<Rightarrow> string option" where
  "renderSaveConfirmView lib m =
     (case m_saveState m of
        None \<Rightarrow> Some ''Error: save state not initialized''
      | Some sa \<Rightarrow> do {
          path \<leftarrow> (if sa_editing sa
            then do {
              front \<leftarrow> subslice (sa_filePath sa) 0 (sa_cursorPos sa);
              back \<leftarrow> subslice (sa_filePath sa) (sa_cursorPos sa) (len (sa_filePath sa));
              Some (front @ Render lib [Background ''255'', Foreground ''0''] '' '' @ back)
            }
            else Some (sa_filePath sa));
          let helpText = (if sa_editing sa
            then ''Type to edit path'' @ bullet @ ''ESC to stop editing'' @ bullet @ ''ENTER to confirm''
            else if sa_overwriteConfirm sa
            then ''File exists: ENTER to overwrite'' @ bullet @ ''e edit path'' @ bullet @ ''ESC/n cancel''
            else ''ENTER to save'' @ bullet @ ''e to edit path'' @ bullet @ ''ESC/n to cancel'');
          Some (Render lib headerStyle ''Save Probe Logs to File'' @ [newline, newline] @ ''File path: '' @ path @ [newline, newline] @
            (case m_probeState m of
               Some ps \<Rightarrow> ''Logs to save: '' @ itoa (len (pr_logs ps)) @ '' entries'' @ [newline, newline]
             | None \<Rightarrow> []) @
            Render lib [Foreground ''241''] helpText)
        })"

definition View :: "'v tui_lib \<Rightarrow> nat \<Rightarrow> 'v TUIModel \<Rightarrow> (string \<times> 'v TUIModel) option" where
  "View lib now m =
     (case m_viewMode m of
        ViewList \<Rightarrow> renderListView lib now m
      | ViewDetail \<Rightarrow> renderDetailView lib now m
      | ViewConfirm \<Rightarrow> Some (renderConfirmView m, m)
      | ViewProbe \<Rightarrow> map_option (\<lambda>s. (s, m)) (renderProbeView lib now m)
      | ViewServerLogs \<Rightarrow> map_option (\<lambda>s. (s, m)) (renderServerLogsView lib m)
      | ViewSaveConfirm \<Rightarrow> map_option (\<lambda>s. (s, m)) (renderSaveConfirmView lib m))"

end
