(* ===== verification/Tui_Sorting.thy ===== *)
theory Tui_Sorting
  imports Tui_View "HOL-Library.Multiset"
begin

text \<open>
  What the sorts of the interface and of the commands give. A comparison that the sorts of the library require, a
  strict weak order, is a locale; a comparison that tells any two different elements apart is a stronger one, and
  there is only one sorted arrangement for it, whichever algorithm finds it. The locales are interpreted on the
  comparisons the program uses, except for that of the client list, which is no weak order (see \<open>Tui\<close>).
\<close>

section \<open>Sorting by a comparison\<close>

lemma mset_insert_by: "mset (insert_by lt c ds) = add_mset c (mset ds)"
  by (induction ds) auto

lemma set_insert_by: "set (insert_by lt c ds) = insert c (set ds)"
  by (metis mset_insert_by set_mset_add_mset_insert set_mset_mset)

lemma mset_insertion_sort: "mset (insertion_sort lt xs) = mset xs"
proof -
  have "mset (fold (insert_by lt) xs acc) = mset xs + mset acc" for acc
    by (induction xs arbitrary: acc) (simp_all add: mset_insert_by)
  then show ?thesis by (simp add: insertion_sort_def)
qed

locale comparison =
  fixes lt :: "'b \<Rightarrow> 'b \<Rightarrow> bool"
  assumes asym: "lt x y \<Longrightarrow> \<not> lt y x"
    and not_less_trans: "\<not> lt x y \<Longrightarrow> \<not> lt y z \<Longrightarrow> \<not> lt x z"
begin

lemma insert_by_sorts: "sorted_wrt (\<lambda>a b. \<not> lt a b) ds \<Longrightarrow> sorted_wrt (\<lambda>a b. \<not> lt a b) (insert_by lt c ds)"
proof (induction ds)
  case (Cons d ds)
  have "\<not> lt c x" if "\<not> lt c d" "x \<in> set ds" for x
    using that Cons.prems not_less_trans [of c d x] by simp
  then show ?case
    using Cons asym [of c d] by (cases "lt c d") (simp_all add: set_insert_by)
qed simp

lemma sorts: "sorted_wrt (\<lambda>a b. \<not> lt b a) (insertion_sort lt xs)"
proof -
  have "sorted_wrt (\<lambda>a b. \<not> lt a b) ds \<Longrightarrow> sorted_wrt (\<lambda>a b. \<not> lt a b) (fold (insert_by lt) xs ds)" for ds
    by (induction xs arbitrary: ds) (simp_all add: insert_by_sorts)
  from this [of "[]"] show ?thesis
    by (simp add: insertion_sort_def sorted_wrt_rev)
qed

lemma first_before_rest:
  assumes "x \<in> set (take n (insertion_sort lt xs))" and "y \<in> set (drop n (insertion_sort lt xs))"
  shows "\<not> lt y x"
  using assms sorts [of xs] sorted_wrt_append [of "\<lambda>a b. \<not> lt b a" "take n (insertion_sort lt xs)" "drop n (insertion_sort lt xs)"]
  by simp

end

locale total_comparison = comparison +
  assumes tells_apart: "\<not> lt x y \<Longrightarrow> \<not> lt y x \<Longrightarrow> x = y"
begin

lemma sorted_unique:
  "mset xs = mset ys \<Longrightarrow> sorted_wrt (\<lambda>a b. \<not> lt b a) xs \<Longrightarrow> sorted_wrt (\<lambda>a b. \<not> lt b a) ys \<Longrightarrow> xs = ys"
proof (induction xs arbitrary: ys)
  case (Cons x xs)
  from Cons.prems(1) obtain y ys' where ys: "ys = y # ys'" by (cases ys) simp_all
  have "x = y \<or> x \<in> set ys' \<and> y \<in> set xs"
    using Cons.prems(1) mset_eq_setD [OF Cons.prems(1)] unfolding ys by auto
  then have "x = y"
    using Cons.prems(2,3) tells_apart unfolding ys by auto
  then show ?case using Cons ys by simp
qed simp

lemma any_sort:
  assumes "mset (f xs) = mset xs" and "sorted_wrt (\<lambda>a b. \<not> lt b a) (f xs)"
  shows "f xs = insertion_sort lt xs"
  using sorted_unique [OF _ assms(2) sorts] assms(1) by (simp add: mset_insertion_sort)

end

section \<open>The comparisons of the program\<close>

lemma string_less_irrefl: "\<not> string_less s s"
  by (induction s) simp_all

lemma string_less_trans: "string_less a b \<Longrightarrow> string_less b c \<Longrightarrow> string_less a c"
  by (induction a c arbitrary: b rule: string_less.induct) (auto elim!: string_less.elims split: if_splits)

lemma string_less_total: "string_less a b \<or> a = b \<or> string_less b a"
proof (induction a b rule: string_less.induct)
  case (1 s)
  then show ?case by (cases s) simp_all
next
  case (3 c s d t)
  have "c = d \<or> of_char c < (of_char d :: nat) \<or> of_char d < (of_char c :: nat)"
    using less_linear [of "of_char c :: nat" "of_char d"] by auto
  then show ?case using 3 by auto
qed simp

interpretation keys: total_comparison string_less
  using string_less_irrefl string_less_trans string_less_total by unfold_locales metis+

lemma sint_eqD: "sint a = sint b \<Longrightarrow> a = b"
  by (rule signed_word_eqI)

lemma method_less_iff:
  "method_less a b \<longleftrightarrow> sint (snd b) < sint (snd a) \<or> sint (snd a) = sint (snd b) \<and> string_less (fst a) (fst b)"
  by (auto simp: method_less_def dest: sint_eqD)

interpretation methods: total_comparison method_less
proof
  fix x y z :: "string \<times> u64"
  show "method_less x y \<Longrightarrow> \<not> method_less y x"
    using keys.asym by (auto simp: method_less_iff)
  show "\<not> method_less x z" if "\<not> method_less x y" "\<not> method_less y z"
    using that keys.not_less_trans [of "fst x" "fst y" "fst z"] by (auto simp: method_less_iff)
  show "x = y" if "\<not> method_less x y" "\<not> method_less y x"
    using that keys.tells_apart [of "fst x" "fst y"] sint_eqD [of "snd y" "snd x"] by (auto simp: method_less_iff prod_eq_iff)
qed

text \<open>
  The detail view shows the five busiest methods: no method that is left out was called more often than one that is
  shown, and fewer than five are shown only when there are no more.
\<close>

theorem top_methods_busiest:
  "length (top_methods ms) = min 5 (length ms) \<and>
   (\<exists>rest. mset ms = mset (top_methods ms) + mset rest \<and>
     (\<forall>shown \<in> set (top_methods ms). \<forall>hidden \<in> set rest. sint (snd hidden) \<le> sint (snd shown)))"
proof -
  let ?rest = "drop 5 (insertion_sort method_less ms)"
  have "mset ms = mset (top_methods ms) + mset ?rest"
    unfolding top_methods_def mset_append [symmetric] by (simp only: append_take_drop_id mset_insertion_sort)
  moreover have "sint (snd hidden) \<le> sint (snd shown)"
    if "shown \<in> set (top_methods ms)" "hidden \<in> set ?rest" for shown hidden
    using methods.first_before_rest [OF that [unfolded top_methods_def]] by (auto simp: method_less_iff)
  moreover have "length (top_methods ms) = min 5 (length ms)"
    by (metis length_take min.commute mset_insertion_sort size_mset top_methods_def)
  ultimately show ?thesis by blast
qed

end
