(* ===== verification/Tui.thy ===== *)
theory Tui
  imports Tui_Sorting
begin

text \<open>
  The terminal user interface as a whole: the event loop that interleaves keys, window sizes, ticks, answers of
  the API and log entries with redrawing, as a step relation; the invariant that every step keeps; and what
  follows, that no order of events makes the program index out of range.
\<close>

section \<open>Scroll positions\<close>

lemma maxScroll_bounds: "0 < visible \<Longrightarrow> 0 \<le> maxScroll amount visible \<and> maxScroll amount visible \<le> max 0 (amount - visible)"
  by (simp add: maxScroll_def Let_def)

lemma clamp_bounds: "lo \<le> hi \<Longrightarrow> lo \<le> clamp v lo hi \<and> clamp v lo hi \<le> hi"
  by (simp add: clamp_def)

lemma clampScroll_range: "0 \<le> clampScrollToContain scroll selected visible amount \<and>
    clampScrollToContain scroll selected visible amount \<le> max 0 (amount - max 1 visible)"
  by (auto simp: clampScrollToContain_def Let_def clamp_def maxScroll_def)

text \<open>The list scrolls so that the selection is on the screen: for a selection within the list, whatever
  the scroll position was, the new one is not negative and not beyond the last page, and the selected row is
  among the rows shown.\<close>

theorem scroll_contains_selection:
  assumes "0 < visible" and "0 \<le> selected" and "selected < amount"
  shows "let s = clampScrollToContain scroll selected visible amount in
    0 \<le> s \<and> s \<le> maxScroll amount visible \<and> s \<le> selected \<and> selected < s + visible"
  using assms by (auto simp: clampScrollToContain_def Let_def clamp_def maxScroll_def)

theorem scroll_contains_selection_witness: "clampScrollToContain 7 2 5 20 = 2"
  using scroll_contains_selection [of 5 2 20 7]
  by (simp add: clampScrollToContain_def Let_def clamp_def maxScroll_def)

section \<open>Formatting is total\<close>

lemma length_runes: "length (runes s) \<le> length s"
proof (induction s rule: runes.induct)
  case (2 c s)
  then show ?case
    using decode_rune_width [of "c # s"] by simp
qed simp

lemma length_pad_right: "n \<le> length (pad_right n s)"
  using length_runes [of s] by (simp add: pad_right_def)

text \<open>A time of day has eight characters.\<close>

definition lib_ok :: "'v tui_lib \<Rightarrow> bool" where
  "lib_ok lib \<longleftrightarrow> (\<forall>t. length (TimeFormat lib ''15:04:05'' t) = 8)"

lemma style_first_total:
  "14 \<le> len mainText \<Longrightarrow> \<exists>s. style_first lib isSelected levelStyle attrStyle mainText attrStr l = Some s"
  by (auto simp: style_first_def Let_def)

lemma bind_total: "\<exists>x. f = Some x \<Longrightarrow> \<exists>y. f \<bind> (\<lambda>x. Some (g x)) = Some y"
  by auto

lemma formatLogEntry_total:
  assumes "lib_ok lib"
  shows "\<exists>s. formatLogEntry lib w entry isSelected = Some s"
proof -
  let ?main = "TimeFormat lib ''15:04:05'' (lg_Time entry) @ '' '' @ pad_right 5 (lg_Level entry) @ '' '' @ lg_Message entry"
  have "14 \<le> len ?main"
    using assms length_pad_right [of 5 "lg_Level entry"] by (simp add: lib_ok_def)
  note total = style_first_total [OF this]
  show ?thesis
    unfolding formatLogEntry_def Let_def
    by (cases "wrapText (RuneWidth lib) (?main @ (if lg_AttrJSON entry \<noteq> [] then '' '' @ lg_AttrJSON entry else [])) (text_width w)")
      (simp, simp only: list.case, rule bind_total [OF total])
qed

lemma formatProbeLogLine_total: "\<exists>s. formatProbeLogLine lib w log = Some s"
  by (auto simp: formatProbeLogLine_def Let_def split: list.split)

lemma formatClientRow_total: "\<exists>s. formatClientRow lib now client selected = Some s"
  by (auto simp: formatClientRow_def truncate_str_def Let_def)

lemma those_total: "\<forall>x \<in> set xs. \<exists>y. f x = Some y \<Longrightarrow> \<exists>ys. those (map f xs) = Some ys \<and> length ys = length xs"
  by (induction xs) auto

lemma getVisibleRows_total:
  assumes "lib_ok lib"
  obtains rows where "getVisibleRows lib m = Some rows" "5 \<le> rows"
proof -
  obtain ts where "those (map (\<lambda>entry. formatLogEntry lib (m_width m) entry False) (keep_last 3 (m_logEntries m))) = Some ts"
    using those_total [of "keep_last 3 (m_logEntries m)" "\<lambda>entry. formatLogEntry lib (m_width m) entry False"]
      formatLogEntry_total [OF assms] by blast
  then have "\<exists>n. estimateLogPaneLines lib m = Some n"
    by (simp add: estimateLogPaneLines_def Let_def)
  then show thesis
    using that by (auto simp: getVisibleRows_def)
qed

section \<open>The invariant\<close>

definition list_ok :: "'v TUIModel \<Rightarrow> bool" where
  "list_ok m \<longleftrightarrow> 0 \<le> m_selectedIdx m \<and> m_selectedIdx m \<le> max 0 (len (m_clients m) - 1) \<and>
     0 \<le> m_listScroll m \<and> m_listScroll m \<le> max 0 (len (m_clients m) - 1)"

definition save_ok :: "saveState \<Rightarrow> bool" where
  "save_ok sa \<longleftrightarrow> 0 \<le> sa_cursorPos sa \<and> sa_cursorPos sa \<le> len (sa_filePath sa)"

definition probe_ok :: "'v probeState \<Rightarrow> bool" where
  "probe_ok ps \<longleftrightarrow> length (pr_logs ps) \<le> probeLogKeep \<and> -1 \<le> pr_selectedIdx ps \<and>
     pr_selectedIdx ps \<le> max 0 (len (pr_logs ps) - 1) \<and> 0 \<le> pr_scroll ps \<and> pr_scroll ps \<le> max 0 (len (pr_logs ps) - 1) \<and>
     0 \<le> pr_reconnectCount ps \<and> pr_reconnectCount ps \<le> 5"

definition logs_ok :: "'v TUIModel \<Rightarrow> bool" where
  "logs_ok m \<longleftrightarrow> length (m_logEntries m) \<le> serverLogKeep \<and>
     0 \<le> m_serverLogsSelectedIdx m \<and> m_serverLogsSelectedIdx m \<le> max 0 (len (m_logEntries m) - 1) \<and>
     0 \<le> m_serverLogsScroll m \<and> m_serverLogsScroll m \<le> max 0 (len (m_logEntries m) - 1)"

definition ui_ok :: "'v TUIModel \<Rightarrow> bool" where
  "ui_ok m \<longleftrightarrow> list_ok m \<and> logs_ok m \<and> 0 \<le> m_detailScroll m \<and>
     (\<forall>sa. m_saveState m = Some sa \<longrightarrow> save_ok sa) \<and> (\<forall>ps. m_probeState m = Some ps \<longrightarrow> probe_ok ps)"

text \<open>What a command or a message carries about a stream to be continued.\<close>

definition resume_ok :: "'v ProbeLogEntry list option \<Rightarrow> int \<Rightarrow> bool" where
  "resume_ok logs n \<longleftrightarrow> (\<forall>ls. logs = Some ls \<longrightarrow> length ls \<le> probeLogKeep) \<and> 0 \<le> n \<and> n \<le> 5"

fun cmd_ok :: "'v cmd \<Rightarrow> bool" where
  "cmd_ok (StartProbeStream clientID logs n disconnected) \<longleftrightarrow> resume_ok logs n"
| "cmd_ok (ReconnectLater clientID logs n) \<longleftrightarrow> resume_ok (Some logs) n"
| "cmd_ok (Batch cs) \<longleftrightarrow> list_all cmd_ok cs"
| "cmd_ok c \<longleftrightarrow> True"

fun msg_ok :: "'v msg \<Rightarrow> bool" where
  "msg_ok (ReconnectProbeMsg clientID logs n) \<longleftrightarrow> resume_ok (Some logs) n"
| "msg_ok (ProbeStreamStartedMsgWithState clientID ctx cancelFunc logs n disconnected) \<longleftrightarrow> resume_ok logs n"
| "msg_ok msg \<longleftrightarrow> True"

definition ok_step :: "'v step \<Rightarrow> bool" where
  "ok_step r \<longleftrightarrow> (\<exists>m c. r = Some (m, c) \<and> ui_ok m \<and> cmd_ok c)"

lemma ok_step_Some [simp]: "ok_step (Some (m, c)) \<longleftrightarrow> ui_ok m \<and> cmd_ok c"
  by (simp add: ok_step_def)

lemmas ui_oks = ui_ok_def list_ok_def logs_ok_def save_ok_def probe_ok_def

text \<open>Fields that no part of the invariant looks at.\<close>

lemma ui_ok_indifferent [simp]:
  "ui_ok (m\<lparr>m_viewMode := v\<rparr>) = ui_ok m" "ui_ok (m\<lparr>m_err := e\<rparr>) = ui_ok m" "ui_ok (m\<lparr>m_errorTime := t\<rparr>) = ui_ok m"
  "ui_ok (m\<lparr>m_successMsg := s\<rparr>) = ui_ok m" "ui_ok (m\<lparr>m_successTime := t\<rparr>) = ui_ok m" "ui_ok (m\<lparr>m_selectedID := s\<rparr>) = ui_ok m"
  "ui_ok (m\<lparr>m_confirmState := c\<rparr>) = ui_ok m" "ui_ok (m\<lparr>m_clientDetail := d\<rparr>) = ui_ok m"
  "ui_ok (m\<lparr>m_cancelled := hs\<rparr>) = ui_ok m" "ui_ok (m\<lparr>m_droppedLogs := n\<rparr>) = ui_ok m" "ui_ok (m\<lparr>m_logChan := q\<rparr>) = ui_ok m"
  "ui_ok (m\<lparr>m_width := w\<rparr>) = ui_ok m" "ui_ok (m\<lparr>m_height := h\<rparr>) = ui_ok m" "ui_ok (m\<lparr>m_lastUpdate := t\<rparr>) = ui_ok m"
  by (simp_all add: ui_oks)

lemma ui_ok_parts [simp]:
  "ui_ok m \<Longrightarrow> ui_ok (m\<lparr>m_saveState := None\<rparr>)" "ui_ok m \<Longrightarrow> ui_ok (m\<lparr>m_probeState := None\<rparr>)"
  "ui_ok m \<Longrightarrow> save_ok sa \<Longrightarrow> ui_ok (m\<lparr>m_saveState := Some sa\<rparr>)"
  "ui_ok m \<Longrightarrow> probe_ok ps \<Longrightarrow> ui_ok (m\<lparr>m_probeState := Some ps\<rparr>)"
  "ui_ok m \<Longrightarrow> 0 \<le> n \<Longrightarrow> ui_ok (m\<lparr>m_detailScroll := n\<rparr>)"
  "ui_ok m \<Longrightarrow> ui_ok (m\<lparr>m_selectedIdx := 0, m_listScroll := 0\<rparr>)"
  "ui_ok m \<Longrightarrow> ui_ok (m\<lparr>m_serverLogsSelectedIdx := 0, m_serverLogsScroll := 0\<rparr>)"
  "ui_ok m \<Longrightarrow> ui_ok (m\<lparr>m_serverLogsScroll := 0\<rparr>)"
  by (simp_all add: ui_ok_def list_ok_def logs_ok_def)

lemma ui_ok_cancel [simp]: "ui_ok (cancel_ctx f m) = ui_ok m"
  by (simp add: cancel_ctx_def split: option.split)

lemma ui_ok_stop [simp]: "ui_ok m \<Longrightarrow> ui_ok (stopProbeStream m)"
  by (simp add: stopProbeStream_def split: option.split)

section \<open>Every handler keeps it\<close>

lemma adjust_ok:
  assumes "lib_ok lib" and "logs_ok m" and "0 \<le> m_detailScroll m"
    and "\<And>sa. m_saveState m = Some sa \<Longrightarrow> save_ok sa" and "\<And>ps. m_probeState m = Some ps \<Longrightarrow> probe_ok ps"
  shows "\<exists>m'. adjustScrollForSelection lib m = Some m' \<and> ui_ok m'"
proof -
  obtain rows where rows: "getVisibleRows lib m = Some rows" "5 \<le> rows"
    using getVisibleRows_total assms(1) by blast
  show ?thesis
    using assms(2-) rows clampScroll_range [of "m_listScroll m" "clamp (m_selectedIdx m) 0 (len (m_clients m) - 1)" rows "len (m_clients m)"]
      clamp_bounds [of 0 "len (m_clients m) - 1" "m_selectedIdx m"]
    by (auto simp: adjustScrollForSelection_def Let_def ui_ok_def list_ok_def logs_ok_def)
qed

lemma select_at_ok: "lib_ok lib \<Longrightarrow> ui_ok m \<Longrightarrow> ok_step (select_at lib i m)"
  using adjust_ok [of lib "m\<lparr>m_selectedIdx := i\<rparr>"] by (auto simp: select_at_def ui_ok_def logs_ok_def)

lemma show_server_logs_ok: "ui_ok m \<Longrightarrow> ui_ok (show_server_logs m)"
  by (auto simp: show_server_logs_def Let_def ui_ok_def list_ok_def logs_ok_def)

lemma handleListKeys_ok:
  assumes "lib_ok lib" and "ui_ok m"
  shows "ok_step (handleListKeys lib now key m)"
proof -
  obtain rows where "getVisibleRows lib m = Some rows"
    using getVisibleRows_total assms(1) by blast
  moreover have "index (m_clients m) (m_selectedIdx m) = Some (m_clients m ! nat (m_selectedIdx m))" if "len (m_clients m) > 0"
    using assms(2) that by (auto simp: ui_ok_def list_ok_def)
  ultimately show ?thesis
    using assms select_at_ok [OF assms] show_server_logs_ok [OF assms(2)]
    by (simp add: handleListKeys_def Let_def probe_selected_def startProbeStreamWithDisconnected_def resume_ok_def)
qed

lemma handleDetailKeys_ok: "ui_ok m \<Longrightarrow> ok_step (Some (handleDetailKeys key m))"
  by (auto simp: handleDetailKeys_def Let_def probe_selected_def startProbeStreamWithDisconnected_def resume_ok_def ui_ok_def
      list_ok_def logs_ok_def split: option.split)

lemma handleConfirmKeys_ok: "ui_ok m \<Longrightarrow> ok_step (Some (handleConfirmKeys key m))"
  by (auto simp: handleConfirmKeys_def Let_def split: option.split)

lemma probe_to_ok:
  assumes "probe_ok ps" and "-1 \<le> i" and "i \<le> max 0 (len (pr_logs ps) - 1)" and "1 \<le> rows"
  shows "probe_ok (probe_to rows i ps)"
  using assms clampScroll_range [of "pr_scroll ps" i rows "len (pr_logs ps)"]
  by (auto simp: probe_to_def probe_ok_def)

lemma rows_pos: "5 \<le> getProbeVisibleRows m"
  by (simp add: getProbeVisibleRows_def)

lemma probe_moves_ok:
  assumes "probe_ok ps" and "5 \<le> rows"
  shows "probe_ok (probe_top ps)" and "pr_logs ps \<noteq> [] \<Longrightarrow> probe_ok (probe_bottom rows ps)"
    and "probe_ok (probe_up rows ps)" and "probe_ok (probe_down rows ps)" and "probe_ok (probe_pgup rows ps)"
    and "pr_logs ps \<noteq> [] \<Longrightarrow> probe_ok (probe_pgdn rows ps)"
proof -
  have auto: "probe_ok (qs\<lparr>pr_autoScroll := b\<rparr>) = probe_ok qs" for qs b by (simp add: probe_ok_def)
  show "probe_ok (probe_top ps)" "pr_logs ps \<noteq> [] \<Longrightarrow> probe_ok (probe_bottom rows ps)"
    using assms by (auto simp: probe_ok_def probe_top_def probe_bottom_def)
  show "probe_ok (probe_up rows ps)" "probe_ok (probe_down rows ps)" "probe_ok (probe_pgup rows ps)"
      "pr_logs ps \<noteq> [] \<Longrightarrow> probe_ok (probe_pgdn rows ps)"
    unfolding probe_up_def probe_down_def probe_pgup_def probe_pgdn_def auto
    by (rule probe_to_ok [OF assms(1)]; use assms in \<open>auto simp: probe_ok_def\<close>)+
qed

lemma on_logs_ok:
  "ui_ok m \<Longrightarrow> (\<And>ps. probe_ok ps \<Longrightarrow> pr_logs ps \<noteq> [] \<Longrightarrow> probe_ok (f ps)) \<Longrightarrow> ui_ok (on_logs f m)"
  by (auto simp: on_logs_def ui_ok_def list_ok_def logs_ok_def split: option.split)

lemma on_probe_ok: "ui_ok m \<Longrightarrow> (\<And>ps. probe_ok ps \<Longrightarrow> probe_ok (f ps)) \<Longrightarrow> ui_ok (on_probe f m)"
  by (auto simp: on_probe_def ui_ok_def list_ok_def logs_ok_def)

lemma updateAutoScroll_ok: "ui_ok m \<Longrightarrow> ui_ok (updateAutoScroll m)"
  by (auto simp: updateAutoScroll_def ui_oks split: option.split)

lemma toggle_ok: "ui_ok m \<Longrightarrow> ui_ok (toggle_auto_scroll now m)"
  using rows_pos [of m] by (auto simp: toggle_auto_scroll_def Let_def ui_oks split: option.split)

lemma ask_for_file_ok: "ui_ok m \<Longrightarrow> ui_ok (ask_for_file lib now m)"
  by (auto simp: ask_for_file_def Let_def ui_oks split: option.split)

lemma handleProbeKeys_ok:
  assumes "ui_ok m"
  shows "ui_ok (handleProbeKeys lib now key m)"
proof -
  let ?rows = "getProbeVisibleRows m"
  have top: "ui_ok (on_probe probe_top m)"
    using assms by (rule on_probe_ok) (rule probe_moves_ok(1) [OF _ rows_pos])
  have moves: "ui_ok (on_logs (probe_bottom ?rows) m)" "ui_ok (on_logs (probe_up ?rows) m)"
      "ui_ok (on_logs (probe_down ?rows) m)" "ui_ok (on_logs (probe_pgup ?rows) m)" "ui_ok (on_logs (probe_pgdn ?rows) m)"
    by (rule on_logs_ok [OF assms], rule probe_moves_ok, assumption, rule rows_pos, (assumption)?)+
  then show ?thesis
    using assms top toggle_ok [OF assms] ask_for_file_ok [OF assms] updateAutoScroll_ok [OF moves(3)]
      updateAutoScroll_ok [OF moves(5)]
    unfolding handleProbeKeys_def Let_def by (auto split: option.split)
qed

lemma adjustServerLogs_ok:
  assumes "ui_ok m"
  shows "ui_ok (adjustServerLogsScroll (m\<lparr>m_serverLogsSelectedIdx := i\<rparr>))"
proof -
  let ?n = "len (m_logEntries m)"
  have "getServerLogsVisibleRows (m\<lparr>m_serverLogsSelectedIdx := i\<rparr>) = getServerLogsVisibleRows m"
    by (simp add: getServerLogsVisibleRows_def)
  then show ?thesis
    using assms clamp_bounds [of 0 "?n - 1" i]
      clampScroll_range [of "m_serverLogsScroll m" "clamp i 0 (?n - 1)" "getServerLogsVisibleRows m" ?n]
    by (auto simp: adjustServerLogsScroll_def Let_def ui_ok_def list_ok_def logs_ok_def)
qed

lemma handleServerLogsKeys_ok: "ui_ok m \<Longrightarrow> ui_ok (handleServerLogsKeys now key m)"
  unfolding handleServerLogsKeys_def Let_def by (simp add: adjustServerLogs_ok)

lemma insert_runes_at:
  "insert_runes rs (a @ b) (len a) = Some (a @ string_of_runes rs @ b, len (a @ string_of_runes rs))"
proof (induction rs arbitrary: a)
  case (Cons r rs)
  have "subslice (a @ b) 0 (len a) = Some a" "subslice (a @ b) (len a) (len (a @ b)) = Some b"
    by (simp_all add: subslice_def)
  then show ?case
    using Cons.IH [of "a @ encode_rune r"] by (simp add: string_of_runes_def Let_def)
qed (simp add: string_of_runes_def)

text \<open>
  The path being edited is the text before the cursor and the text after it. On that pair every key has the
  effect one expects of an editor.
\<close>

definition around :: "saveState \<Rightarrow> string \<times> string" where
  "around sa = (take (nat (sa_cursorPos sa)) (sa_filePath sa), drop (nat (sa_cursorPos sa)) (sa_filePath sa))"

fun edit_around :: "KeyType \<Rightarrow> nat list \<Rightarrow> string \<times> string \<Rightarrow> string \<times> string" where
  "edit_around KeyBackspace rs (a, b) = (butlast a, b)"
| "edit_around KeyDelete rs (a, b) = (a, tl b)"
| "edit_around KeyLeft rs (a, b) = (if a = [] then (a, b) else (butlast a, last a # b))"
| "edit_around KeyRight rs (a, b) = (if b = [] then (a, b) else (a @ [hd b], tl b))"
| "edit_around KeyHome rs (a, b) = ([], a @ b)"
| "edit_around KeyEnd rs (a, b) = (a @ b, [])"
| "edit_around KeyRunes rs (a, b) = (a @ string_of_runes rs, b)"
| "edit_around _ rs (a, b) = (a, b)"

lemma around_split:
  assumes "save_ok sa"
  obtains a b where "around sa = (a, b)" "sa_filePath sa = a @ b" "sa_cursorPos sa = len a"
proof (rule that)
  show "around sa = (take (nat (sa_cursorPos sa)) (sa_filePath sa), drop (nat (sa_cursorPos sa)) (sa_filePath sa))"
    by (simp add: around_def)
qed (use assms in \<open>auto simp: save_ok_def\<close>)

lemma around_at: "sa_filePath sa = a @ b \<Longrightarrow> sa_cursorPos sa = len a \<Longrightarrow> around sa = (a, b) \<and> save_ok sa"
  by (simp add: around_def save_ok_def)

lemma edit_path_around:
  assumes "save_ok sa"
  shows "\<exists>sa'. edit_path key sa = Some sa' \<and> save_ok sa' \<and> around sa' = edit_around (k_Type key) (k_Runes key) (around sa)"
proof -
  obtain a b where ab: "around sa = (a, b)" "sa_filePath sa = a @ b" "sa_cursorPos sa = len a"
    using around_split [OF assms] .
  have "\<exists>sa'. edit_path key sa = Some sa' \<and>
      (case edit_around (k_Type key) (k_Runes key) (a, b) of (c, d) \<Rightarrow> sa_filePath sa' = c @ d \<and> sa_cursorPos sa' = len c)"
  proof (cases "k_Type key")
    case KeyBackspace
    then show ?thesis
      using ab by (cases a rule: rev_cases) (auto simp: edit_path_def Let_def subslice_def nat_add_distrib)
  next
    case KeyDelete
    then show ?thesis
      using ab by (cases b) (auto simp: edit_path_def Let_def subslice_def nat_add_distrib)
  next
    case KeyLeft
    then show ?thesis
      using ab by (cases a rule: rev_cases) (auto simp: edit_path_def Let_def)
  next
    case KeyRight
    then show ?thesis
      using ab by (cases b) (auto simp: edit_path_def Let_def)
  qed (use ab in \<open>auto simp: edit_path_def Let_def insert_runes_at\<close>)
  then show ?thesis
    using around_at ab(1) by (fastforce split: prod.splits)
qed

lemma handleSaveConfirmKeys_ok:
  assumes "ui_ok m"
  shows "ok_step (handleSaveConfirmKeys stat key m)"
proof (cases "m_saveState m")
  case None
  then show ?thesis using assms by (simp add: handleSaveConfirmKeys_def)
next
  case (Some sa)
  then have sa: "save_ok sa" using assms by (simp add: ui_ok_def)
  then obtain sa' where "edit_path key sa = Some sa'" "save_ok sa'"
    using edit_path_around by blast
  moreover have "save_ok (sa\<lparr>sa_editing := True, sa_overwriteConfirm := False\<rparr>)" "save_ok (sa\<lparr>sa_overwriteConfirm := True\<rparr>)"
    using sa by (simp_all add: save_ok_def)
  ultimately show ?thesis
    using Some assms by (simp add: handleSaveConfirmKeys_def Let_def)
qed

lemma handleKeyPress_ok:
  assumes "lib_ok lib" and "ui_ok m"
  shows "ok_step (handleKeyPress lib now stat key m)"
  using handleListKeys_ok [OF assms] handleDetailKeys_ok [OF assms(2)] handleConfirmKeys_ok [OF assms(2)]
    handleProbeKeys_ok [OF assms(2)] handleServerLogsKeys_ok [OF assms(2)] handleSaveConfirmKeys_ok [OF assms(2)] assms(2)
  by (simp add: handleKeyPress_def split: ViewMode.split)

lemma clients_arrive_ok:
  assumes "lib_ok lib" and "ui_ok m"
  shows "ok_step (clients_arrive lib now clients m)"
proof -
  have step: "ok_step (adjustScrollForSelection lib (m\<lparr>m_clients := cs, m_lastUpdate := now, m_selectedIdx := i\<rparr>) \<bind>
      (\<lambda>m. Some (m, NoCmd)))" for cs i
    using adjust_ok [OF assms(1), of "m\<lparr>m_clients := cs, m_lastUpdate := now, m_selectedIdx := i\<rparr>"] assms(2)
    by (auto simp: ui_ok_def logs_ok_def)
  have "m\<lparr>m_clients := cs, m_lastUpdate := now\<rparr> = m\<lparr>m_clients := cs, m_lastUpdate := now, m_selectedIdx := m_selectedIdx m\<rparr>" for cs
    by simp
  then have "ok_step (adjustScrollForSelection lib (m\<lparr>m_clients := cs, m_lastUpdate := now\<rparr>) \<bind> (\<lambda>m. Some (m, NoCmd)))" for cs
    using step by metis
  then show ?thesis
    using step by (simp add: clients_arrive_def Let_def last_if_beyond_def split: option.split)
qed

lemma keep_selection_bounds:
  "0 \<le> n \<Longrightarrow> -1 \<le> keep_selection s n \<and> keep_selection s n \<le> max 0 (n - 1) \<and> (0 < n \<longrightarrow> 0 \<le> keep_selection s n)"
  by (auto simp: keep_selection_def clamp_def)

lemma probe_log_arrives_ok:
  assumes "ui_ok m"
  shows "ok_step (Some (probe_log_arrives entry m))"
proof (cases "m_probeState m")
  case (Some ps)
  define logs where "logs = keep_last probeLogKeep (pr_logs ps @ [entry])"
  have "0 < length logs" "length logs \<le> probeLogKeep" by (simp_all add: logs_def probeLogKeep_def)
  moreover have "probe_ok ps" using Some assms by (simp add: ui_ok_def)
  ultimately have "probe_ok (ps\<lparr>pr_logs := logs, pr_selectedIdx := len logs - 1, pr_scroll := maxScroll (len logs) (getProbeVisibleRows m)\<rparr>)"
      "probe_ok (ps\<lparr>pr_logs := logs, pr_selectedIdx := keep_selection (pr_selectedIdx ps) (len logs),
         pr_scroll := clamp (pr_scroll ps) 0 (maxScroll (len logs) (getProbeVisibleRows m))\<rparr>)"
    using keep_selection_bounds [of "len logs" "pr_selectedIdx ps"] rows_pos [of m]
      clamp_bounds [of 0 "maxScroll (len logs) (getProbeVisibleRows m)" "pr_scroll ps"]
      maxScroll_bounds [of "getProbeVisibleRows m" "len logs"]
    by (auto simp: probe_ok_def)
  then show ?thesis
    using Some assms by (simp add: probe_log_arrives_def Let_def logs_def)
qed (simp add: probe_log_arrives_def assms)

lemma probe_ends_ok:
  assumes "ui_ok m"
  shows "ok_step (Some (probe_ends now m))"
proof (cases "m_probeState m")
  case (Some ps)
  then have "probe_ok ps" using assms by (simp add: ui_ok_def)
  then have "probe_ok (ps\<lparr>pr_cancelFunc := None\<rparr>)"
      "\<not> 5 \<le> pr_reconnectCount ps \<Longrightarrow> resume_ok (Some (pr_logs ps)) (pr_reconnectCount ps + 1)"
    by (simp_all add: probe_ok_def resume_ok_def)
  then show ?thesis
    using Some assms by (simp add: probe_ends_def)
qed (simp add: probe_ends_def assms)

lemma stream_starts_ok:
  assumes "ui_ok m" and "resume_ok logs n"
  shows "ok_step (Some (stream_starts clientID ctx cancelFunc logs n disconnected m))"
  using assms rows_pos [of m]
  by (auto simp: stream_starts_def Let_def stream_started_def resume_ok_def probe_ok_def split: option.split)

lemma logs_kept_ok:
  assumes "ui_ok m" and "logs = keep_last serverLogKeep (m_logEntries m @ [e])"
  shows "ui_ok (m\<lparr>m_logEntries := logs\<rparr>)"
    and "ui_ok (m\<lparr>m_logEntries := logs, m_serverLogsSelectedIdx := keep_selection s (len logs),
      m_serverLogsScroll := clampScrollToContain t u v (len logs)\<rparr>)"
proof -
  have "length logs = min serverLogKeep (Suc (length (m_logEntries m)))"
    using assms(2) by simp
  then have l: "0 < length logs" "length (m_logEntries m) \<le> length logs" "length logs \<le> serverLogKeep"
    using assms(1) by (auto simp: serverLogKeep_def ui_ok_def logs_ok_def)
  then have "max 0 (len (m_logEntries m) - 1) \<le> max 0 (len logs - 1)"
    by linarith
  moreover have "m_serverLogsSelectedIdx m \<le> max 0 (len (m_logEntries m) - 1)"
      "m_serverLogsScroll m \<le> max 0 (len (m_logEntries m) - 1)"
    using assms(1) by (simp_all add: ui_ok_def logs_ok_def)
  ultimately have "m_serverLogsSelectedIdx m \<le> max 0 (len logs - 1)" "m_serverLogsScroll m \<le> max 0 (len logs - 1)"
    by linarith+
  then have "logs_ok (m\<lparr>m_logEntries := logs\<rparr>)"
    using assms(1) l(3) by (simp add: ui_ok_def logs_ok_def)
  then show "ui_ok (m\<lparr>m_logEntries := logs\<rparr>)"
    using assms(1) by (simp add: ui_ok_def list_ok_def)
  show "ui_ok (m\<lparr>m_logEntries := logs, m_serverLogsSelectedIdx := keep_selection s (len logs),
      m_serverLogsScroll := clampScrollToContain t u v (len logs)\<rparr>)"
    using assms(1) l keep_selection_bounds [of "len logs" s] clampScroll_range [of t u v "len logs"]
    by (auto simp: ui_ok_def list_ok_def logs_ok_def)
qed

lemma log_arrives_ok: "ui_ok m \<Longrightarrow> ok_step (Some (log_arrives lib entry m))"
  unfolding log_arrives_def Let_def by (simp del: length_keep_last add: logs_kept_ok)

lemma resize_ok:
  assumes "lib_ok lib" and "ui_ok m"
  shows "ok_step (resize lib w h m)"
proof -
  let ?m = "m\<lparr>m_width := w, m_height := h\<rparr>"
  have m: "ui_ok ?m" using assms(2) by simp
  then obtain m' where "adjustScrollForSelection lib ?m = Some m'" "ui_ok m'"
    using adjust_ok [OF assms(1), of ?m] by (auto simp: ui_ok_def)
  moreover have "ui_ok (on_probe (\<lambda>ps. probe_to (getProbeVisibleRows ?m) (keep_selection (pr_selectedIdx ps) (len (pr_logs ps))) ps) ?m)"
    using m
  proof (rule on_probe_ok)
    fix ps :: "'a probeState"
    assume "probe_ok ps"
    then show "probe_ok (probe_to (getProbeVisibleRows ?m) (keep_selection (pr_selectedIdx ps) (len (pr_logs ps))) ps)"
      using keep_selection_bounds [of "len (pr_logs ps)" "pr_selectedIdx ps"] rows_pos [of ?m] by (intro probe_to_ok) auto
  qed
  moreover have "ui_ok (?m\<lparr>m_serverLogsSelectedIdx := keep_selection (m_serverLogsSelectedIdx m) (len (m_logEntries m)),
      m_serverLogsScroll := clampScrollToContain (m_serverLogsScroll m)
        (keep_selection (m_serverLogsSelectedIdx m) (len (m_logEntries m))) (getServerLogsVisibleRows ?m) (len (m_logEntries m))\<rparr>)"
    if "m_logEntries m \<noteq> []"
    using m that keep_selection_bounds [of "len (m_logEntries m)" "m_serverLogsSelectedIdx m"]
      clampScroll_range [of "m_serverLogsScroll m" "keep_selection (m_serverLogsSelectedIdx m) (len (m_logEntries m))"
        "getServerLogsVisibleRows ?m" "len (m_logEntries m)"]
    by (auto simp: ui_ok_def list_ok_def logs_ok_def)
  moreover have "clamp (len (m_logEntries m)) 0 (len (m_logEntries m)) = len (m_logEntries m)"
    by (simp add: clamp_def)
  ultimately show ?thesis
    using m by (auto simp: resize_def Let_def split: ViewMode.split)
qed

lemma Update_ok:
  assumes "lib_ok lib" and "ui_ok m" and "msg_ok msg"
  shows "ok_step (Update lib now stat msg m)"
proof (cases msg)
  case (ProbeStreamStartedMsg clientID ctx cancelFunc)
  then show ?thesis
    using assms by (simp add: Update_def stream_started_def probe_ok_def)
qed (use assms in \<open>auto simp: Update_def Let_def resize_ok handleKeyPress_ok clients_arrive_ok probe_log_arrives_ok
    probe_ends_ok stream_starts_ok log_arrives_ok split: option.split\<close>)

section \<open>Every view can be drawn\<close>

lemma fill_page_total:
  assumes "\<forall>i \<in> set is. \<forall>b. \<exists>s. formatFunc i b = Some s"
  shows "\<exists>pg'. fill_page maxDisplayLines selectedIdx formatFunc is pg = Some pg'"
  using assms
proof (induction "is" arbitrary: pg)
  case Nil
  show ?case by (rule exI) (rule fill_page.simps(1))
next
  case (Cons i "is")
  obtain s t where "formatFunc i False = Some s" "formatFunc i True = Some t" using Cons.prems by force
  moreover obtain ls js n e where "pg = (ls, js, n, e)" using prod_cases4 by blast
  moreover have "\<exists>pg'. fill_page maxDisplayLines selectedIdx formatFunc is qg = Some pg'" for qg
    using Cons by simp
  ultimately show ?case
    by (cases "i = selectedIdx") (simp_all add: Let_def)
qed

lemma take_fitting_total:
  assumes "\<forall>i \<in> set is. \<exists>s. formatFunc i False = Some s"
  shows "\<exists>r. take_fitting maxDisplayLines formatFunc is n = Some r"
  using assms
proof (induction "is" arbitrary: n)
  case (Cons i "is")
  then obtain s where s: "formatFunc i False = Some s" by auto
  obtain ls js k where "take_fitting maxDisplayLines formatFunc is (n + line_count s) = Some ((ls, js), k)"
    using Cons by (metis list.set_intros(2) prod.exhaust)
  then show ?case
    using s by (simp add: Let_def)
qed simp

lemma page_range:
  assumes "0 < logCount"
  shows "0 \<le> page_selected logCount selectedIdx" "page_selected logCount selectedIdx < logCount"
    "0 \<le> page_start logCount scrollPos (page_selected logCount selectedIdx)"
    "page_start logCount scrollPos (page_selected logCount selectedIdx) \<le> page_selected logCount selectedIdx"
  using assms by (auto simp: page_selected_def page_start_def Let_def)

lemma page_around_total:
  assumes "\<And>i b. 0 \<le> i \<Longrightarrow> i < logCount \<Longrightarrow> \<exists>s. formatFunc i b = Some s" and "0 \<le> sel" and "sel < logCount"
  shows "\<exists>r. page_around logCount maxDisplayLines sel formatFunc = Some r"
proof -
  obtain l where l: "formatFunc sel True = Some l" using assms by blast
  obtain as us k where up: "take_fitting maxDisplayLines formatFunc [sel + 1..logCount - 1] (line_count l) = Some ((as, us), k)"
    using take_fitting_total [of "[sel + 1..logCount - 1]" formatFunc maxDisplayLines "line_count l"] assms by fastforce
  obtain bs us' k' where "take_fitting maxDisplayLines formatFunc (rev [0..sel - 1]) k = Some ((bs, us'), k')"
    using take_fitting_total [of "rev [0..sel - 1]" formatFunc maxDisplayLines k] assms by fastforce
  then show ?thesis
    using l up by (simp add: page_around_def Let_def)
qed

lemma render_page_total:
  assumes "\<And>i b. 0 \<le> i \<Longrightarrow> i < logCount \<Longrightarrow> \<exists>s. formatFunc i b = Some s" and "0 \<le> logCount"
  shows "\<exists>r. render_page logCount maxDisplayLines scrollPos selectedIdx formatFunc = Some r"
proof (cases "logCount = 0")
  case False
  define sel where "sel = page_selected logCount selectedIdx"
  define start where "start = page_start logCount scrollPos sel"
  have sel: "0 \<le> sel" "sel < logCount" "0 \<le> start"
    using page_range [of logCount] False assms(2) by (auto simp: sel_def start_def)
  obtain ls js n e where fill: "fill_page maxDisplayLines sel formatFunc [start..logCount - 1] ([], [], 0, start) = Some (ls, js, n, e)"
    using fill_page_total [of "[start..logCount - 1]" formatFunc maxDisplayLines sel "([], [], 0, start)"] assms(1) sel by fastforce
  obtain r where "page_around logCount maxDisplayLines sel formatFunc = Some r"
    using page_around_total [of logCount formatFunc sel] assms(1) sel by blast
  then show ?thesis
    using False fill sel by (simp add: render_page_def Let_def flip: sel_def start_def)
qed (simp add: render_page_def)

lemma render_logs_total:
  assumes "\<And>x b. \<exists>s. f x b = Some s"
  shows "\<exists>r. renderLogsWithWrapping (len xs) most scroll sel (\<lambda>idx b. index xs idx \<bind> (\<lambda>x. f x b)) = Some r"
proof -
  have "\<exists>r. render_page (len xs) most scroll sel (\<lambda>idx b. index xs idx \<bind> (\<lambda>x. f x b)) = Some r"
    by (rule render_page_total) (use assms in auto)
  then show ?thesis
    by (auto simp: renderLogsWithWrapping_def)
qed

lemma renderTable_total:
  assumes "lib_ok lib" and "list_ok m"
  shows "\<exists>s. renderTable lib now m = Some s"
proof -
  obtain rows where rows: "getVisibleRows lib m = Some rows"
    using getVisibleRows_total assms(1) by blast
  let ?f = "\<lambda>i. index (m_clients m) i \<bind> (\<lambda>client. formatClientRow lib now client (i = m_selectedIdx m) \<bind>
      (\<lambda>row. Some (if i = m_selectedIdx m then Render lib selectedRowStyle row else row)))"
  have "\<exists>y. ?f i = Some y" if "0 \<le> i" "i < len (m_clients m)" for i
    using formatClientRow_total [of lib now "m_clients m ! nat i" "i = m_selectedIdx m"] that by auto
  then have "\<exists>ys. those (map ?f [m_listScroll m..min (m_listScroll m + rows) (len (m_clients m)) - 1]) = Some ys"
    using those_total [of "[m_listScroll m..min (m_listScroll m + rows) (len (m_clients m)) - 1]" ?f] assms(2)
    by (auto simp: list_ok_def)
  then show ?thesis
    using rows by (auto simp: renderTable_def Let_def)
qed

lemma renderListView_ok:
  assumes "lib_ok lib" and "ui_ok m"
  shows "\<exists>s m'. renderListView lib now m = Some (s, m') \<and> ui_ok m'"
proof -
  obtain t where "renderTable lib now m = Some t"
    using renderTable_total [OF assms(1), of m now] assms(2) unfolding ui_ok_def by blast
  moreover obtain ls where "those (map (\<lambda>entry. formatLogEntry lib (m_width m) entry False) (keep_last 3 (m_logEntries m))) = Some ls"
    using those_total [of "keep_last 3 (m_logEntries m)" "\<lambda>entry. formatLogEntry lib (m_width m) entry False"]
      formatLogEntry_total [OF assms(1)] by blast
  then have "\<exists>l. renderLogPane lib m = Some l"
    by (auto simp: renderLogPane_def)
  ultimately show ?thesis
    using assms(2) by (auto simp: renderListView_def Let_def split: option.split)
qed

lemma renderDetailView_ok:
  assumes "ui_ok m"
  shows "\<exists>s m'. renderDetailView lib now m = Some (s, m') \<and> ui_ok m'"
proof (cases "m_clientDetail m")
  case (Some client)
  let ?lines = "split_on newline (detail_text lib now client)" and ?h = "max (m_height m - 4) 10"
  let ?m = "if m_detailScroll m > max (len ?lines - ?h) 0 then m\<lparr>m_detailScroll := max (len ?lines - ?h) 0\<rparr> else m"
  have m: "ui_ok ?m" "0 \<le> m_detailScroll ?m" "m_detailScroll ?m \<le> max (len ?lines - ?h) 0"
    using assms by (auto simp: ui_ok_def list_ok_def logs_ok_def)
  then have "m_detailScroll ?m \<le> min (m_detailScroll ?m + ?h) (len ?lines)" by auto
  then have "subslice ?lines (m_detailScroll ?m) (min (m_detailScroll ?m + ?h) (len ?lines)) \<noteq> None"
    using m(2) by (simp add: subslice_def)
  then show ?thesis
    using Some m(1) by (auto simp: renderDetailView_def Let_def)
qed (simp add: renderDetailView_def assms)

lemma renderSaveConfirmView_total:
  assumes "ui_ok m"
  shows "\<exists>s. renderSaveConfirmView lib m = Some s"
  using assms by (auto simp: renderSaveConfirmView_def Let_def ui_ok_def save_ok_def split: option.split)

lemma renderProbeView_total: "\<exists>s. renderProbeView lib now m = Some s"
proof (cases "m_probeState m")
  case (Some ps)
  have "\<exists>r. renderLogsWithWrapping (len (pr_logs ps)) (getProbeVisibleRows m) (pr_scroll ps) (pr_selectedIdx ps)
      (probe_line lib (m_width m) (pr_logs ps)) = Some r"
    unfolding probe_line_def by (intro render_logs_total bind_total formatProbeLogLine_total)
  then show ?thesis
    using Some by (auto simp: renderProbeView_def Let_def)
qed (simp add: renderProbeView_def)

lemma renderServerLogsView_total: "lib_ok lib \<Longrightarrow> \<exists>s. renderServerLogsView lib m = Some s"
proof -
  assume "lib_ok lib"
  then have "\<exists>r. renderLogsWithWrapping (len (m_logEntries m)) (getServerLogsVisibleRows m) (m_serverLogsScroll m)
      (m_serverLogsSelectedIdx m) (log_line lib (m_width m) (m_logEntries m)) = Some r"
    unfolding log_line_def by (intro render_logs_total formatLogEntry_total)
  then show ?thesis
    by (auto simp: renderServerLogsView_def Let_def)
qed

lemma View_ok:
  assumes "lib_ok lib" and "ui_ok m"
  shows "\<exists>s m'. View lib now m = Some (s, m') \<and> ui_ok m'"
  using assms renderListView_ok [OF assms] renderDetailView_ok [OF assms(2)] renderSaveConfirmView_total [OF assms(2)]
    renderProbeView_total [of lib now m] renderServerLogsView_total [OF assms(1), of m]
  by (cases "m_viewMode m") (auto simp: View_def)

section \<open>The event loop\<close>

text \<open>
  What a command may answer, for every outcome of the API, of the streams and of the file system. The model may
  have changed since the command was given: a command runs in its own goroutine.
\<close>

inductive answers :: "'v cmd \<Rightarrow> 'v TUIModel \<Rightarrow> 'v msg \<Rightarrow> 'v TUIModel \<Rightarrow> bool" where
  clients: "answers FetchClients m (fetchClients r) m"
| detail: "answers (FetchClientDetail clientID) m (fetchClientDetail r) m"
| shutdown: "answers (ShutdownClientCmd clientID) m (shutdownClient r) m"
| start: "startProbeStreamWithState ctx r clientID logs n disconnected m = (msg, m') \<Longrightarrow>
    answers (StartProbeStream clientID logs n disconnected) m msg m'"
| probe: "answers ListenForProbeLog m (listenForProbeLog log prefer_done m) m"
| logs: "listenForLogs False m = (Some msg, m') \<Longrightarrow> answers ListenForLogs m msg m'"
| tick: "answers Tick m tick m"
| reconnect: "answers (ReconnectLater clientID logs n) m (ReconnectProbeMsg clientID logs n) m"
| save: "saveProbeLogsToFile dir_of mkdir create encode m = (msg, file) \<Longrightarrow> answers SaveProbeLogs m msg m"

text \<open>
  The state of the program is its model and the commands that have not answered yet. A step is a key or a new
  window size, an answer, the start of the commands of a batch, a redraw, or an entry of the server's log
  arriving. The program ends at \<^verbatim>\<open>Quit\<close>; the relation allows it to go on.
\<close>

type_synonym 'v ui = "'v TUIModel \<times> 'v cmd list"

fun is_input :: "'v msg \<Rightarrow> bool" where
  "is_input (KeyPress key) = True"
| "is_input (WindowSizeMsg w h) = True"
| "is_input _ = False"

inductive ui_step :: "'v tui_lib \<Rightarrow> 'v ui \<Rightarrow> 'v ui \<Rightarrow> bool" for lib where
  input: "is_input msg \<Longrightarrow> Update lib now stat msg m = Some (m', c) \<Longrightarrow> ui_step lib (m, cs) (m', c # cs)"
| answer: "c \<in> set cs \<Longrightarrow> answers c m msg m1 \<Longrightarrow> Update lib now stat msg m1 = Some (m', c') \<Longrightarrow>
    ui_step lib (m, cs) (m', c' # remove1 c cs)"
| batch: "Batch ds \<in> set cs \<Longrightarrow> ui_step lib (m, cs) (m, ds @ remove1 (Batch ds) cs)"
| redraw: "View lib now m = Some (s, m') \<Longrightarrow> ui_step lib (m, cs) (m', cs)"
| forward: "ui_step lib (m, cs) (forward_log string_of log m, cs)"

inductive_cases answersE: "answers c m msg m'"

definition ui_start :: "'v ui" where
  "ui_start = (NewModel, [Init])"

lemma ui_ok_NewModel: "ui_ok NewModel"
  by (simp add: NewModel_def ui_oks serverLogKeep_def)

lemma answers_ok:
  assumes "answers c m msg m'" and "ui_ok m" and "cmd_ok c"
  shows "ui_ok m' \<and> msg_ok msg"
  using assms
  by (cases rule: answers.cases)
    (auto simp: fetchClients_def fetchClientDetail_def shutdownClient_def startProbeStreamWithState_def listenForProbeLog_def
      listenForLogs_def tick_def saveProbeLogsToFile_def Let_def split: sum.splits option.splits list.splits prod.splits if_splits)

lemma cmd_ok_remove: "list_all cmd_ok cs \<Longrightarrow> list_all cmd_ok (remove1 c cs)"
  unfolding list_all_iff using set_remove1_subset by fast

lemma ui_step_keeps:
  assumes "lib_ok lib" and "ui_step lib s t" and "ui_ok (fst s) \<and> list_all cmd_ok (snd s)"
  shows "ui_ok (fst t) \<and> list_all cmd_ok (snd t)"
  using assms(2,3)
proof (cases rule: ui_step.cases)
  case (input msg now stat m m' c cs)
  then have "msg_ok msg" by (cases msg) auto
  then show ?thesis
    using input assms(3) Update_ok [OF assms(1), of m msg now stat] by simp
next
  case (answer c cs m msg m1 now stat m' c')
  then have "cmd_ok c" using assms(3) by (simp add: list_all_iff)
  then have "ui_ok m1" "msg_ok msg" using answers_ok answer assms(3) by auto
  then show ?thesis
    using answer assms(3) Update_ok [OF assms(1), of m1 msg now stat] cmd_ok_remove by auto
next
  case (batch ds cs m)
  then have "cmd_ok (Batch ds)" using assms(3) by (auto simp: list_all_iff)
  then show ?thesis
    using batch assms(3) cmd_ok_remove by auto
next
  case (redraw now m s m' cs)
  then show ?thesis
    using View_ok [OF assms(1), of m now] assms(3) by auto
next
  case (forward m cs string_of log)
  then show ?thesis
    using assms(3) by (simp add: forward_log_def)
qed

lemma ui_reachable_ok:
  assumes "lib_ok lib" and "(ui_step lib)\<^sup>*\<^sup>* ui_start s"
  shows "ui_ok (fst s) \<and> list_all cmd_ok (snd s)"
  using assms(2)
proof (induction rule: rtranclp_induct)
  case base
  show ?case by (simp add: ui_start_def Init_def ui_ok_NewModel)
next
  case (step t u)
  then show ?case using ui_step_keeps [OF assms(1)] by blast
qed

text \<open>C27. The terminal user interface never panics: in every state that any interleaving of keys, window sizes,
  API answers and failures, stream events, log entries and redraws can lead to, every message can be handled
  and the view can be drawn, so no index or slice is ever out of range. In all these states the selection and
  the scroll position are within the list of clients, the interface keeps at most 100 server logs and 1000
  probe logs, the cursor is within the path being edited, and a stream has been restarted at most five times.\<close>

theorem ui_never_panics:
  assumes "lib_ok lib" and "(ui_step lib)\<^sup>*\<^sup>* ui_start (m, cs)"
  shows "Update lib now stat msg m \<noteq> None \<and> View lib now m \<noteq> None \<and>
    0 \<le> m_selectedIdx m \<and> (m_clients m \<noteq> [] \<longrightarrow> m_selectedIdx m < len (m_clients m) \<and> m_listScroll m < len (m_clients m)) \<and>
    0 \<le> m_listScroll m \<and> length (m_logEntries m) \<le> 100 \<and>
    (\<forall>sa. m_saveState m = Some sa \<longrightarrow> 0 \<le> sa_cursorPos sa \<and> sa_cursorPos sa \<le> len (sa_filePath sa)) \<and>
    (\<forall>ps. m_probeState m = Some ps \<longrightarrow> length (pr_logs ps) \<le> 1000 \<and> pr_reconnectCount ps \<le> 5)"
proof -
  have ok: "ui_ok m"
    using ui_reachable_ok [OF assms] by simp
  have "Update lib now stat msg m \<noteq> None"
  proof (cases "msg_ok msg")
    case True
    then show ?thesis using Update_ok [OF assms(1) ok True, of now stat] by (auto simp: ok_step_def)
  next
    case False
    then show ?thesis by (cases msg) (simp_all add: Update_def)
  qed
  moreover have "View lib now m \<noteq> None"
    using View_ok [OF assms(1) ok, of now] by auto
  ultimately show ?thesis
    using ok by (auto simp: ui_oks serverLogKeep_def probeLogKeep_def)
qed

definition sample_lib :: "'v tui_lib" where
  "sample_lib = \<lparr>Render = (\<lambda>_ s. s), RuneWidth = (\<lambda>_. 1), Marshal = (\<lambda>_. None), TimeFormat = (\<lambda>_ _. ''00:00:00''),
     Sprint = (\<lambda>_. []), StableMany = insertion_sort\<rparr>"

definition key_named :: "string \<Rightarrow> KeyMsg" where
  "key_named s = \<lparr>k_String = s, k_Type = KeyOther, k_Runes = []\<rparr>"

lemma lib_ok_sample [simp]: "lib_ok sample_lib"
  by (simp add: lib_ok_def sample_lib_def)

theorem ui_never_panics_witness:
  "\<exists>m :: nat TUIModel. Update sample_lib 0 (\<lambda>_. False) (KeyPress (key_named ''l'')) NewModel = Some (m, NoCmd) \<and>
    m_viewMode m = ViewServerLogs \<and> View sample_lib 0 m \<noteq> None"
proof -
  have u: "Update sample_lib 0 (\<lambda>_. False) (KeyPress (key_named ''l'')) NewModel =
      Some (show_server_logs (NewModel :: nat TUIModel), NoCmd)"
    by (simp add: Update_def handleKeyPress_def handleListKeys_def key_named_def NewModel_def Let_def)
  then have "ui_step sample_lib ui_start (show_server_logs (NewModel :: nat TUIModel), [NoCmd, Init])"
    unfolding ui_start_def by (intro ui_step.input [where msg = "KeyPress (key_named ''l'')"]) auto
  from ui_never_panics [OF lib_ok_sample r_into_rtranclp [of "ui_step sample_lib", OF this], of 0 "\<lambda>_. False" TickMsg] u show ?thesis
    by (simp add: show_server_logs_def NewModel_def)
qed

section \<open>The selection follows the client\<close>

lemma position_of_Some:
  "position_of i cs = Some n \<Longrightarrow> n < length cs \<and> ci_ID (cs ! n) = i"
  by (induction cs arbitrary: n) (auto split: if_splits)

lemma position_of_None: "position_of i cs = None \<longleftrightarrow> (\<forall>c \<in> set cs. ci_ID c \<noteq> i)"
  by (induction cs) auto

lemma adjust_shows:
  assumes "adjustScrollForSelection lib n = Some n'" and "0 \<le> m_selectedIdx n"
    and "m_selectedIdx n < len (m_clients n)" and "getVisibleRows lib n = Some rows" and "5 \<le> rows"
  shows "n' = n\<lparr>m_listScroll := m_listScroll n'\<rparr> \<and> m_listScroll n' \<le> m_selectedIdx n' \<and>
    m_selectedIdx n' < m_listScroll n' + rows"
proof -
  have "clamp (m_selectedIdx n) 0 (len (m_clients n) - 1) = m_selectedIdx n"
    using assms(2,3) by (simp add: clamp_def)
  moreover have "let s = clampScrollToContain (m_listScroll n) (m_selectedIdx n) rows (len (m_clients n)) in
      s \<le> m_selectedIdx n \<and> m_selectedIdx n < s + rows"
    using assms(2,3,5) by (auto simp: clampScrollToContain_def Let_def clamp_def maxScroll_def)
  ultimately show ?thesis
    using assms(1,2,3,4) by (auto simp: adjustScrollForSelection_def Let_def)
qed

text \<open>When a new list of clients arrives, the client that was selected stays selected if it is still in the
  list, wherever the new order puts it, and its row is on the screen; no client is lost or invented by the
  reordering. The library's stable sort, used above twenty clients, is assumed to permute.\<close>

theorem selection_kept:
  assumes "lib_ok lib" and "\<And>cs. mset (StableMany lib client_less cs) = mset cs"
    and "0 \<le> m_selectedIdx m" and "m_selectedIdx m < len (m_clients m)"
    and "i = ci_ID (m_clients m ! nat (m_selectedIdx m))" and "i \<noteq> []" and "\<exists>c \<in> set clients. ci_ID c = i"
    and "Update lib now stat (ClientsMsg clients) m = Some (m', c)" and "getVisibleRows lib m' = Some rows"
  shows "mset (m_clients m') = mset clients \<and> ci_ID (m_clients m' ! nat (m_selectedIdx m')) = i \<and>
    0 \<le> m_selectedIdx m' \<and> m_selectedIdx m' < len (m_clients m') \<and>
    m_listScroll m' \<le> m_selectedIdx m' \<and> m_selectedIdx m' < m_listScroll m' + rows"
proof -
  let ?cs = "order_clients lib clients"
  have ms: "mset ?cs = mset clients"
    by (simp add: order_clients_def mset_insertion_sort assms(2))
  then have "set ?cs = set clients"
    by (rule mset_eq_setD)
  then obtain n where n: "position_of i ?cs = Some n"
    using assms(7) position_of_None [of i ?cs] by fastforce
  let ?m = "m\<lparr>m_clients := ?cs, m_lastUpdate := now, m_selectedIdx := int n\<rparr>"
  have adj: "adjustScrollForSelection lib ?m = Some m'"
    using assms(3-6,8) n by (auto simp: Update_def clients_arrive_def Let_def bind_eq_Some_conv)
  obtain r where r: "getVisibleRows lib ?m = Some r" "5 \<le> r"
    using getVisibleRows_total assms(1) by blast
  note p = position_of_Some [OF n]
  have m': "m' = ?m\<lparr>m_listScroll := m_listScroll m'\<rparr>" and v: "m_listScroll m' \<le> m_selectedIdx m'" "m_selectedIdx m' < m_listScroll m' + r"
    using p adjust_shows [OF adj _ _ r] by auto
  have "getVisibleRows lib m' = getVisibleRows lib ?m"
    by (subst m') (simp add: getVisibleRows_def estimateLogPaneLines_def)
  then have "rows = r" using r(1) assms(9) by simp
  moreover have "m_clients m' = ?cs" "m_selectedIdx m' = int n"
    by (subst m', simp)+
  ultimately show ?thesis
    using v ms p by simp
qed

definition sample_client :: "string \<Rightarrow> nat \<Rightarrow> string \<Rightarrow> nat \<Rightarrow> ClientInfo" where
  "sample_client i connected status gone = \<lparr>ci_ID = i, ci_ClientAddress = ''10.0.0.1:5000'', ci_User = ''guest'', ci_VirtualHost = ''/'',
     ci_ClientBanner = [], ci_ClientProperties = None, ci_ConnectedAt = connected, ci_DisconnectedAt = gone, ci_Status = status,
     ci_ShutdownReason = [], ci_Stats = None\<rparr>"

theorem selection_kept_witness:
  "\<exists>m'. Update sample_lib 0 (\<lambda>_. False)
      (ClientsMsg [sample_client ''b'' 9 ''active'' 0, sample_client ''a'' 5 ''active'' 0])
      ((NewModel :: nat TUIModel)\<lparr>m_clients := [sample_client ''b'' 9 ''active'' 0]\<rparr>) = Some (m', NoCmd) \<and>
    m_selectedIdx m' = 1 \<and> ci_ID (m_clients m' ! 1) = ''b''"
proof -
  let ?m = "(NewModel :: nat TUIModel)\<lparr>m_clients := [sample_client ''b'' 9 ''active'' 0]\<rparr>"
  let ?new = "[sample_client ''b'' 9 ''active'' 0, sample_client ''a'' 5 ''active'' 0]"
  have "ui_ok ?m" by (simp add: NewModel_def ui_oks serverLogKeep_def)
  from Update_ok [OF lib_ok_sample this, of "ClientsMsg ?new" 0 "\<lambda>_. False"]
  obtain m' c where u: "Update sample_lib 0 (\<lambda>_. False) (ClientsMsg ?new) ?m = Some (m', c)"
    by (auto simp: ok_step_def)
  then have c: "c = NoCmd" "m_clients m' = [sample_client ''a'' 5 ''active'' 0, sample_client ''b'' 9 ''active'' 0]"
    by (auto simp: Update_def clients_arrive_def NewModel_def Let_def sample_client_def order_clients_def insertion_sort_def
        client_less_def adjustScrollForSelection_def split: bind_splits)
  obtain rows where r: "getVisibleRows sample_lib m' = Some rows" "5 \<le> rows"
    by (rule getVisibleRows_total [OF lib_ok_sample])
  have "mset (StableMany (sample_lib :: nat tui_lib) client_less cs) = mset cs" for cs
    by (simp add: sample_lib_def mset_insertion_sort)
  note kept = selection_kept [of "sample_lib :: nat tui_lib", OF lib_ok_sample this _ _ refl _ _ u r(1)]
  have "m_selectedIdx m' = 1"
  proof -
    have "ci_ID (m_clients m' ! nat (m_selectedIdx m')) = ''b''" "m_selectedIdx m' < 2" "0 \<le> m_selectedIdx m'"
      using kept c by (simp_all add: NewModel_def sample_client_def)
    moreover from this have "m_selectedIdx m' = 0 \<or> m_selectedIdx m' = 1" by auto
    ultimately show ?thesis using c by (auto simp: sample_client_def)
  qed
  moreover have "ci_ID (m_clients m' ! 1) = ''b''"
    using c(2) by (simp add: sample_client_def)
  ultimately show ?thesis
    using u c(1) by blast
qed

section \<open>The order of the list\<close>

definition older_first :: "ClientInfo \<Rightarrow> ClientInfo \<Rightarrow> bool" where
  "older_first a b \<longleftrightarrow> ci_ConnectedAt a \<le> ci_ConnectedAt b"

definition newer_gone_first :: "ClientInfo \<Rightarrow> ClientInfo \<Rightarrow> bool" where
  "newer_gone_first a b \<longleftrightarrow> ci_DisconnectedAt a \<ge> ci_DisconnectedAt b"

text \<open>What the list is meant to be, backwards as the insertion sort builds it.\<close>

definition arranged :: "ClientInfo list \<Rightarrow> bool" where
  "arranged ds \<longleftrightarrow> (\<exists>closed act. ds = closed @ act \<and> (\<forall>c \<in> set act. ci_Status c = ''active'') \<and>
     (\<forall>c \<in> set closed. ci_Status c = ''disconnected'') \<and>
     sorted_wrt (\<lambda>a b. older_first b a) act \<and> sorted_wrt (\<lambda>a b. newer_gone_first b a) closed)"

lemma insert_active:
  assumes "\<forall>d \<in> set act. ci_Status d = ''active''" and "sorted_wrt (\<lambda>a b. older_first b a) act" and "ci_Status c = ''active''"
  shows "(\<forall>d \<in> set (insert_by client_less c act). ci_Status d = ''active'') \<and>
    sorted_wrt (\<lambda>a b. older_first b a) (insert_by client_less c act)"
  using assms
proof (induction act)
  case (Cons d act)
  have "set (insert_by client_less c act) = insert c (set act)"
    by (metis mset_insert_by set_mset_add_mset_insert set_mset_mset)
  moreover have "client_less c d = (ci_ConnectedAt c < ci_ConnectedAt d)"
    using Cons.prems by (simp add: client_less_def)
  ultimately show ?case
    using Cons by (auto simp: older_first_def)
qed simp

lemma insert_closed:
  assumes "\<forall>d \<in> set closed. ci_Status d = ''disconnected''" and "sorted_wrt (\<lambda>a b. newer_gone_first b a) closed"
    and "\<forall>d \<in> set act. ci_Status d = ''active''" and "ci_Status c = ''disconnected''"
  shows "\<exists>closed'. insert_by client_less c (closed @ act) = closed' @ act \<and> set closed' = insert c (set closed) \<and>
    sorted_wrt (\<lambda>a b. newer_gone_first b a) closed'"
  using assms
proof (induction closed)
  case Nil
  then show ?case by (cases act) (auto simp: client_less_def intro: exI [of _ "[c]"])
next
  case (Cons d closed)
  then obtain cl where cl: "insert_by client_less c (closed @ act) = cl @ act" "set cl = insert c (set closed)"
      "sorted_wrt (\<lambda>a b. newer_gone_first b a) cl" by auto
  show ?case
  proof (cases "client_less c d")
    case True
    then have "ci_DisconnectedAt d < ci_DisconnectedAt c" using Cons.prems by (simp add: client_less_def)
    then show ?thesis
      using True Cons.prems cl by (intro exI [of _ "d # cl"]) (auto simp: newer_gone_first_def)
  next
    case False
    then have "ci_DisconnectedAt c \<le> ci_DisconnectedAt d" using Cons.prems by (simp add: client_less_def)
    then show ?thesis
      using False Cons.prems by (intro exI [of _ "c # d # closed"]) (auto simp: newer_gone_first_def)
  qed
qed

lemma insert_active_past:
  "\<forall>d \<in> set closed. ci_Status d = ''disconnected'' \<Longrightarrow> ci_Status c = ''active'' \<Longrightarrow>
    insert_by client_less c (closed @ act) = closed @ insert_by client_less c act"
  by (induction closed) (auto simp: client_less_def)

lemma insert_arranged:
  assumes "arranged ds" and "ci_Status c = ''active'' \<or> ci_Status c = ''disconnected''"
  shows "arranged (insert_by client_less c ds)"
proof -
  obtain closed act where ds: "ds = closed @ act" "\<forall>d \<in> set act. ci_Status d = ''active''"
      "\<forall>d \<in> set closed. ci_Status d = ''disconnected''" "sorted_wrt (\<lambda>a b. older_first b a) act"
      "sorted_wrt (\<lambda>a b. newer_gone_first b a) closed"
    using assms(1) unfolding arranged_def by blast
  show ?thesis
  proof (cases "ci_Status c = ''active''")
    case True
    then show ?thesis
      using ds insert_active [OF ds(2,4) True] insert_active_past [OF ds(3) True, of act] unfolding arranged_def by metis
  next
    case False
    then have "ci_Status c = ''disconnected''" using assms(2) by simp
    with insert_closed [OF ds(3,5,2) this] ds show ?thesis
      unfolding arranged_def by (metis insert_iff)
  qed
qed

text \<open>Up to twenty clients that are connected or gone are listed as the interface means to: the connected
  ones first, the oldest connection on top, then those that are gone, the last to leave first.\<close>

theorem clients_ordered:
  assumes "length cs \<le> 20" and "\<And>c. c \<in> set cs \<Longrightarrow> ci_Status c = ''active'' \<or> ci_Status c = ''disconnected''"
  shows "\<exists>act closed. order_clients lib cs = act @ closed \<and> mset (act @ closed) = mset cs \<and>
    (\<forall>c \<in> set act. ci_Status c = ''active'') \<and> (\<forall>c \<in> set closed. ci_Status c = ''disconnected'') \<and>
    sorted_wrt (\<lambda>a b. ci_ConnectedAt a \<le> ci_ConnectedAt b) act \<and>
    sorted_wrt (\<lambda>a b. ci_DisconnectedAt a \<ge> ci_DisconnectedAt b) closed"
proof -
  have "arranged ds \<Longrightarrow> arranged (fold (insert_by client_less) cs ds)" for ds
    using assms(2) by (induction cs arbitrary: ds) (auto intro: insert_arranged)
  moreover have "arranged []" by (simp add: arranged_def)
  ultimately have "arranged (fold (insert_by client_less) cs [])" .
  then obtain closed act where a: "fold (insert_by client_less) cs [] = closed @ act" "\<forall>d \<in> set act. ci_Status d = ''active''"
      "\<forall>d \<in> set closed. ci_Status d = ''disconnected''" "sorted_wrt (\<lambda>a b. older_first b a) act"
      "sorted_wrt (\<lambda>a b. newer_gone_first b a) closed"
    unfolding arranged_def by blast
  then have o: "order_clients lib cs = rev act @ rev closed"
    using assms(1) by (simp add: order_clients_def insertion_sort_def)
  moreover have "mset (order_clients lib cs) = mset cs"
    using assms(1) by (simp add: order_clients_def mset_insertion_sort)
  ultimately show ?thesis
    using a(2-) by (intro exI [of _ "rev act"] exI [of _ "rev closed"])
      (simp add: sorted_wrt_rev older_first_def newer_gone_first_def)
qed

theorem clients_ordered_witness:
  "map ci_ID (order_clients sample_lib [sample_client ''a'' 5 ''disconnected'' 7, sample_client ''b'' 9 ''active'' 0,
     sample_client ''c'' 3 ''disconnected'' 8]) = [''b'', ''c'', ''a'']"
proof -
  let ?cs = "[sample_client ''a'' 5 ''disconnected'' 7, sample_client ''b'' 9 ''active'' 0, sample_client ''c'' 3 ''disconnected'' 8]"
  have "\<exists>act closed. order_clients sample_lib ?cs = act @ closed"
    using clients_ordered [of ?cs sample_lib] by (auto simp: sample_client_def)
  then show ?thesis
    by (simp add: order_clients_def insertion_sort_def client_less_def sample_client_def)
qed

text \<open>
  A client that is being shut down is equal to every client that is gone: between two of them it keeps the
  sort from moving the later departure to the front.
\<close>

lemma leaving_client_hides_order:
  "map ci_ID (order_clients lib [sample_client ''old'' 1 ''disconnected'' 5, sample_client ''leaving'' 2 ''shutting_down'' 0,
     sample_client ''new'' 3 ''disconnected'' 9]) = [''old'', ''leaving'', ''new'']"
  by (simp add: order_clients_def insertion_sort_def client_less_def sample_client_def)

section \<open>Editing and saving\<close>

fun edit_keys :: "KeyMsg list \<Rightarrow> saveState \<Rightarrow> saveState option" where
  "edit_keys [] sa = Some sa"
| "edit_keys (key # keys) sa = do { sa \<leftarrow> edit_path key sa; edit_keys keys sa }"

text \<open>C32. The editor of the file path implements the usual one on the texts before and after the cursor: any
  sequence of keys on a path whose cursor is within it leads to the texts that typing, deleting and moving on
  that pair lead to, and the cursor stays within the path.\<close>

theorem editor_refines:
  assumes "0 \<le> sa_cursorPos sa" and "sa_cursorPos sa \<le> len (sa_filePath sa)"
  shows "\<exists>sa'. edit_keys keys sa = Some sa' \<and>
    around sa' = fold (\<lambda>key. edit_around (k_Type key) (k_Runes key)) keys (around sa) \<and>
    sa_filePath sa' = fst (around sa') @ snd (around sa') \<and> sa_cursorPos sa' = len (fst (around sa'))"
proof -
  have "save_ok sa" using assms by (simp add: save_ok_def)
  then have "\<exists>sa'. edit_keys keys sa = Some sa' \<and> save_ok sa' \<and>
      around sa' = fold (\<lambda>key. edit_around (k_Type key) (k_Runes key)) keys (around sa)"
  proof (induction keys arbitrary: sa)
    case (Cons key keys)
    then obtain sa1 where "edit_path key sa = Some sa1" "save_ok sa1"
        "around sa1 = edit_around (k_Type key) (k_Runes key) (around sa)"
      using edit_path_around by blast
    then show ?case using Cons.IH [of sa1] by simp
  qed simp
  then show ?thesis
    by (auto simp: around_def save_ok_def)
qed

definition typed :: "nat list \<Rightarrow> KeyMsg" where
  "typed rs = \<lparr>k_String = [], k_Type = KeyRunes, k_Runes = rs\<rparr>"

definition pressed :: "KeyType \<Rightarrow> KeyMsg" where
  "pressed t = \<lparr>k_String = [], k_Type = t, k_Runes = []\<rparr>"

definition sample_save :: saveState where
  "sample_save = \<lparr>sa_clientID = ''c'', sa_filePath = ''a.log'', sa_editing = True, sa_cursorPos = 5, sa_previousView = ViewProbe,
     sa_overwriteConfirm = False\<rparr>"

theorem editor_refines_witness:
  "\<exists>sa'. edit_keys [pressed KeyBackspace, pressed KeyHome, pressed KeyDelete, typed [98]] sample_save = Some sa' \<and>
    sa_filePath sa' = ''b.lo'' \<and> sa_cursorPos sa' = 1"
proof -
  let ?keys = "[pressed KeyBackspace, pressed KeyHome, pressed KeyDelete, typed [98]]"
  have b: "string_of_runes [98] = ''b''"
    by (simp add: string_of_runes_def encode_rune_def rune_ok_def char_of_eq_iff)
  have s: "0 \<le> sa_cursorPos sample_save" "sa_cursorPos sample_save \<le> len (sa_filePath sample_save)"
    by (simp_all add: sample_save_def)
  have "around sample_save = (''a.log'', [])"
    by (simp add: around_def sample_save_def)
  then have "fold (\<lambda>key. edit_around (k_Type key) (k_Runes key)) ?keys (around sample_save) = (''b'', ''.lo'')"
    by (simp add: pressed_def typed_def b)
  moreover obtain sa' where "edit_keys ?keys sample_save = Some sa'"
      "around sa' = fold (\<lambda>key. edit_around (k_Type key) (k_Runes key)) ?keys (around sample_save)"
      "sa_filePath sa' = fst (around sa') @ snd (around sa')" "sa_cursorPos sa' = len (fst (around sa'))"
    using editor_refines [of sample_save ?keys] s by blast
  ultimately show ?thesis by (intro exI [of _ sa']) simp
qed

text \<open>
  The stream of a client may end while the dialog for saving its logs is open. The logs are forgotten then and
  saving them fails.
\<close>

lemma save_after_end_fails:
  assumes "m_viewMode m = ViewSaveConfirm" and "m_probeState m = Some ps" and "pr_cancelFunc ps = Some h"
    and "Update lib now stat ProbeEndMsg m = Some (m', c)"
  shows "m_probeState m' = None \<and>
    saveProbeLogsToFile dir_of mkdir create encode m' = (ErrorMsg ''save state or probe state not initialized'', None)"
  using assms
  by (auto simp: Update_def probe_ends_def stopProbeStream_def cancel_ctx_def saveProbeLogsToFile_def split: option.split)

end
