(* ===== verification/Tui_Layout.thy ===== *)
theory Tui_Layout
  imports Tui_Text
begin

text \<open>
  What the layout of text guarantees: wrapped lines fit and lose nothing, and a page of log entries shows the
  selected one.
\<close>

section \<open>Wrapping\<close>

definition width_of :: "(nat \<Rightarrow> int) \<Rightarrow> nat list \<Rightarrow> int" where
  "width_of rw rs = sum_list (map rw rs)"

lemma width_of_simps [simp]:
  "width_of rw [] = 0" "width_of rw (r # rs) = rw r + width_of rw rs" "width_of rw (a @ b) = width_of rw a + width_of rw b"
  by (simp_all add: width_of_def)

lemma concat_wrap_runes: "concat (wrap_runes rw width cur lw rs) = cur @ rs"
  by (induction rw width cur lw rs rule: wrap_runes.induct) auto

lemma wrap_runes_fit:
  assumes "width_of rw cur = lw" and "lw \<le> width" and "\<forall>r \<in> set rs. rw r \<le> width" and "l \<in> set (wrap_runes rw width cur lw rs)"
  shows "width_of rw l \<le> width"
  using assms by (induction rw width cur lw rs rule: wrap_runes.induct) (auto split: if_splits)

lemma wrap_runes_start:
  "cur \<noteq> [] \<Longrightarrow> \<exists>rest ls. wrap_runes rw width cur lw rs = (cur @ rest) # ls"
proof (induction rw width cur lw rs rule: wrap_runes.induct)
  case (2 rw width cur lw ch rs)
  show ?case
  proof (cases "lw + rw ch > width")
    case False
    then obtain rest ls where "wrap_runes rw width (cur @ [ch]) (lw + rw ch) rs = ((cur @ [ch]) @ rest) # ls"
      using 2(2) by blast
    then show ?thesis using False by auto
  qed auto
qed auto

lemma wrap_runes_nonempty: "cur \<noteq> [] \<Longrightarrow> [] \<notin> set (wrap_runes rw width cur lw rs)"
  by (induction rw width cur lw rs rule: wrap_runes.induct) auto

lemma wrap_runes_greedy:
  assumes "cur \<noteq> []" and "width_of rw cur = lw"
  shows "successively (\<lambda>l l'. width < width_of rw l + rw (hd l')) (wrap_runes rw width cur lw rs)"
  using assms
proof (induction rw width cur lw rs rule: wrap_runes.induct)
  case (2 rw width cur lw ch rs)
  obtain rest ls where w: "wrap_runes rw width [ch] (rw ch) rs = ([ch] @ rest) # ls"
    using wrap_runes_start by blast
  show ?case
    using 2 w by (auto simp: successively_Cons)
qed simp

lemma newline_absent: "rune_ok r \<Longrightarrow> r \<noteq> 10 \<Longrightarrow> newline \<notin> set (encode_rune r)"
proof
  assume r: "rune_ok r" "r \<noteq> 10" and "newline \<in> set (encode_rune r)"
  then obtain b where b: "newline = char_of b" and
      bs: "b \<in> set (if r < 0x80 then [r]
        else if r < 0x800 then [0xC0 + r div 64, 0x80 + r mod 64]
        else if r < 0x10000 then [0xE0 + r div 4096, 0x80 + r div 64 mod 64, 0x80 + r mod 64]
        else [0xF0 + r div 262144, 0x80 + r div 4096 mod 64, 0x80 + r div 64 mod 64, 0x80 + r mod 64])"
    by (auto simp: encode_rune_def Let_def)
  from b have "of_char newline = (of_char (char_of b :: char) :: nat)" by simp
  then have m: "b mod 256 = 10" by simp
  have q: "r < 0x800 \<Longrightarrow> r div 64 < 32" "r < 0x10000 \<Longrightarrow> r div 4096 < 16" "r div 262144 < 5"
    using r(1) by (auto simp: rune_ok_def)
  have "b < 256" using bs q by (auto split: if_splits)
  then have "b = 10" using m by simp
  then show False
    using bs r(2) by (auto split: if_splits)
qed

lemma string_of_runes_newline: "\<forall>r \<in> set rs. rune_ok r \<and> r \<noteq> 10 \<Longrightarrow> newline \<notin> set (string_of_runes rs)"
  using newline_absent by (auto simp: string_of_runes_def)

text \<open>C31. A line of text is wrapped without loss and without waste: the pieces are not empty, put together they
  are the text, rune by rune; none is wider than the screen; and each is as long as possible, the first rune
  of the next would not have fitted. The text may hold every rune that has an encoding, except a line break;
  a rune is taken not to be wider than the screen.\<close>

theorem wrapText_lossless:
  assumes "0 < width" and "rs \<noteq> []"
    and "\<And>r. r \<in> set rs \<Longrightarrow> rune_ok r \<and> r \<noteq> 10 \<and> rw r \<le> width"
  shows "\<exists>ls. wrapText rw (string_of_runes rs) width = map string_of_runes ls \<and> concat ls = rs \<and>
    (\<forall>l \<in> set ls. l \<noteq> [] \<and> width_of rw l \<le> width) \<and> successively (\<lambda>l l'. width < width_of rw l + rw (hd l')) ls"
proof -
  obtain r rest where rs: "rs = r # rest" using assms(2) by (cases rs) auto
  let ?ls = "wrap_runes rw width [] 0 rs"
  have first: "?ls = wrap_runes rw width [r] (rw r) rest"
    using assms(3) [of r] rs by simp
  have "string_of_runes rs \<noteq> []"
    using runes_of_runes [of rs] assms(3) rs by fastforce
  then have "wrapText rw (string_of_runes rs) width = map string_of_runes ?ls"
    using assms(1,3) string_of_runes_newline [of rs] runes_of_runes [of rs]
    by (simp add: wrapText_def split_on_absent wrap_segment_def)
  moreover have "concat ?ls = rs" by (simp add: concat_wrap_runes)
  moreover have "l \<noteq> [] \<and> width_of rw l \<le> width" if "l \<in> set ?ls" for l
    using that first wrap_runes_nonempty [of "[r]" rw width "rw r" rest] wrap_runes_fit [of rw "[]" 0 width rs l] assms by auto
  moreover have "successively (\<lambda>l l'. width < width_of rw l + rw (hd l')) ?ls"
    unfolding first by (rule wrap_runes_greedy) auto
  ultimately show ?thesis by blast
qed

theorem wrapText_lossless_witness:
  "\<exists>ls. wrapText (\<lambda>_. 1) ''abc'' 2 = map string_of_runes ls \<and> concat ls = [97, 98, 99] \<and>
    (\<forall>l \<in> set ls. l \<noteq> [] \<and> width_of (\<lambda>_. 1) l \<le> 2)"
proof -
  have s: "string_of_runes [97, 98, 99] = ''abc''"
    by (simp add: string_of_runes_def encode_rune_def rune_ok_def char_of_eq_iff)
  have r: "rune_ok r \<and> r \<noteq> 10 \<and> (1 :: int) \<le> 2" if "r \<in> set [97, 98, 99]" for r
    using that by (auto simp: rune_ok_def)
  obtain ls where "wrapText (\<lambda>_. 1) (string_of_runes [97, 98, 99]) 2 = map string_of_runes ls \<and> concat ls = [97, 98, 99] \<and>
      (\<forall>l \<in> set ls. l \<noteq> [] \<and> width_of (\<lambda>_. 1) l \<le> 2) \<and> successively (\<lambda>l l'. 2 < width_of (\<lambda>_. 1) l + 1) ls"
    using wrapText_lossless [of 2 "[97, 98, 99]" "\<lambda>_. 1", OF _ _ r] by auto
  then show ?thesis
    unfolding s by blast
qed

section \<open>A page of entries\<close>

lemma line_count_pos: "1 \<le> line_count s"
  by (simp add: line_count_def)

text \<open>How many lines the entries other than the selected one take.\<close>

definition other_lines :: "(int \<Rightarrow> int) \<Rightarrow> int \<Rightarrow> int list \<Rightarrow> int" where
  "other_lines lc sel is = sum_list (map lc (filter (\<lambda>i. i \<noteq> sel) is))"

lemma other_lines_simps [simp]:
  "other_lines lc sel [] = 0"
  "other_lines lc sel (i # is) = (if i = sel then 0 else lc i) + other_lines lc sel is"
  "other_lines lc sel (a @ b) = other_lines lc sel a + other_lines lc sel b"
  "other_lines lc sel (rev a) = other_lines lc sel a"
  by (simp_all add: other_lines_def rev_filter [symmetric] rev_map [symmetric])

text \<open>An entry put on the page before others that fit behind it: the others fit beside the selected one.\<close>

lemma other_lines_fit:
  assumes "n < most" and "n + lc i \<le> most \<or> i = sel" and "1 \<le> lc i"
    and "n + lc i + other_lines lc sel ks \<le> max (n + lc i) most"
    and "sel \<in> set ks \<longrightarrow> n + lc i + other_lines lc sel ks < most"
  shows "n + other_lines lc sel (i # ks) \<le> max n most \<and> (sel \<in> set (i # ks) \<longrightarrow> n + other_lines lc sel (i # ks) < most)"
proof (cases "i = sel")
  case True
  then have "other_lines lc sel ks \<le> max 0 (most - n - lc i)" using assms(4) by linarith
  then show ?thesis using True assms(1,3) by auto
next
  case False
  then have "n + lc i \<le> most" using assms(2) by auto
  then show ?thesis using False assms(4,5) by auto
qed

lemma fill_page_spec:
  assumes "\<And>i. i \<in> set is \<Longrightarrow> formatFunc i False = Some (t i) \<and> formatFunc i True = Some (u i)"
    and "sorted_wrt R is" and "distinct is" and "fill_page most sel formatFunc is (ls, js, n, e) = Some (ls', js', n', e')"
  shows "\<exists>ks. js' = js @ ks \<and> ls' = ls @ map (\<lambda>k. if k = sel then u k else t k) ks \<and> set ks \<subseteq> set is \<and> sorted_wrt R ks \<and>
    n + other_lines (\<lambda>i. line_count (t i)) sel ks \<le> max n most \<and>
    (sel \<in> set ks \<longrightarrow> n + other_lines (\<lambda>i. line_count (t i)) sel ks < most)"
  using assms
proof (induction "is" arbitrary: ls js n e)
  case (Cons i "is")
  let ?lc = "\<lambda>i. line_count (t i)"
  note ih = Cons.IH [OF Cons.prems(1)]
  have R: "sorted_wrt R is" "distinct is" "\<forall>j \<in> set is. R i j" "i \<notin> set is" using Cons.prems by auto
  have f: "formatFunc i False = Some (t i)" "formatFunc i True = Some (u i)" using Cons.prems(1) by auto
  consider (full) "\<not> n < most" | (skip) "n < most" "n + ?lc i > most" "i \<noteq> sel" | (take) "n < most" "n + ?lc i \<le> most \<or> i = sel"
    by linarith
  then show ?case
  proof cases
    case full
    then show ?thesis using Cons.prems(4) by (intro exI [of _ "[]"]) auto
  next
    case skip
    then have "sel > i \<Longrightarrow> fill_page most sel formatFunc is (ls, js, n, e) = Some (ls', js', n', e')"
        "\<not> sel > i \<Longrightarrow> ls' = ls \<and> js' = js"
      using Cons.prems(4) f by (auto simp: Let_def)
    then show ?thesis
      using ih [OF _ R(1,2), of ls js n e] skip(1) by (cases "sel > i") (fastforce, auto intro: exI [of _ "[]"])
  next
    case take
    let ?v = "if i = sel then u i else t i"
    have "fill_page most sel formatFunc is (ls @ [?v], js @ [i], n + ?lc i, i + 1) = Some (ls', js', n', e')"
      using take Cons.prems(4) f by (auto simp: Let_def split: if_splits)
    from ih [OF _ R(1,2) this] obtain ks where ks: "js' = (js @ [i]) @ ks"
        "ls' = (ls @ [?v]) @ map (\<lambda>k. if k = sel then u k else t k) ks" "set ks \<subseteq> set is" "sorted_wrt R ks"
        "n + ?lc i + other_lines ?lc sel ks \<le> max (n + ?lc i) most"
        "sel \<in> set ks \<longrightarrow> n + ?lc i + other_lines ?lc sel ks < most"
      by auto
    have "n + other_lines ?lc sel (i # ks) \<le> max n most \<and> (sel \<in> set (i # ks) \<longrightarrow> n + other_lines ?lc sel (i # ks) < most)"
      using take line_count_pos ks(5,6) by (rule other_lines_fit)
    then show ?thesis
      using ks(1-4) R(3) by (intro exI [of _ "i # ks"]) auto
  qed
qed simp

lemma take_fitting_spec:
  assumes "\<And>i. i \<in> set is \<Longrightarrow> formatFunc i False = Some (t i)" and "sorted_wrt R is" and "sel \<notin> set is"
    and "take_fitting most formatFunc is n = Some ((ls, ks), n')"
  shows "ls = map t ks \<and> set ks \<subseteq> set is \<and> sorted_wrt R ks \<and> n' = n + other_lines (\<lambda>i. line_count (t i)) sel ks \<and> n' \<le> max n most"
  using assms
proof (induction "is" arbitrary: n ls ks)
  case (Cons i "is")
  have f: "formatFunc i False = Some (t i)" using Cons.prems(1) by auto
  show ?case
  proof (cases "n < most \<and> n + line_count (t i) \<le> most")
    case True
    then obtain ls0 ks0 where "take_fitting most formatFunc is (n + line_count (t i)) = Some ((ls0, ks0), n')"
        "ls = t i # ls0" "ks = i # ks0"
      using Cons.prems(4) f by (auto simp: Let_def bind_eq_Some_conv split: if_splits)
    then show ?thesis
      using Cons.IH [of "n + line_count (t i)" ls0 ks0] Cons.prems(1-3) True by fastforce
  next
    case False
    then show ?thesis
      using Cons.prems(4) f by (auto simp: Let_def split: if_splits)
  qed
qed simp

lemma page_around_spec:
  assumes "\<And>i. 0 \<le> i \<Longrightarrow> i < n \<Longrightarrow> formatFunc i False = Some (t i) \<and> formatFunc i True = Some (u i)"
    and "0 \<le> sel" and "sel < n" and "page_around n most sel formatFunc = Some (res, ks)"
  shows "sel \<in> set ks \<and> sorted_wrt (<) ks \<and> (\<forall>k \<in> set ks. 0 \<le> k \<and> k < n) \<and>
    renderedLines res = map (\<lambda>k. if k = sel then u k else t k) ks \<and>
    other_lines (\<lambda>i. line_count (t i)) sel ks \<le> max 0 (most - 1) \<and> rr_startIdx res = hd ks \<and> rr_endIdx res = last ks + 1"
proof -
  let ?lc = "\<lambda>i. line_count (t i)" and ?l = "line_count (u sel)"
  have sel: "formatFunc sel True = Some (u sel)" using assms(1-3) by simp
  obtain as us m bs vs m' where
      up: "take_fitting most formatFunc [sel + 1..n - 1] ?l = Some ((as, us), m)" and
      down: "take_fitting most formatFunc (rev [0..sel - 1]) m = Some ((bs, vs), m')" and
      ks: "ks = rev vs @ sel # us" and res: "res = \<lparr>renderedLines = rev bs @ u sel # as, rr_startIdx = hd ks, rr_endIdx = last ks + 1\<rparr>"
    using assms(4) sel by (auto simp: page_around_def Let_def bind_eq_Some_conv)
  have u: "as = map t us \<and> set us \<subseteq> {sel + 1..n - 1} \<and> sorted_wrt (<) us \<and> m = ?l + other_lines ?lc sel us \<and> m \<le> max ?l most"
    using take_fitting_spec [OF _ _ _ up, of t "(<)" sel] assms(1,2) by simp
  have d: "bs = map t vs \<and> set vs \<subseteq> {0..sel - 1} \<and> sorted_wrt (>) vs \<and> m' = m + other_lines ?lc sel vs \<and> m' \<le> max m most"
    using take_fitting_spec [OF _ _ _ down, of t "(>)" sel] assms(1,3) by (simp add: sorted_wrt_rev)
  have "other_lines ?lc sel ks \<le> max 0 (most - 1)"
    using u d ks line_count_pos [of "u sel"] by auto
  moreover have "sorted_wrt (<) ks"
    using u d ks by (fastforce simp: sorted_wrt_append sorted_wrt_rev)
  moreover have "sel \<notin> set us" "sel \<notin> set vs"
    using u d by auto
  then have "renderedLines res = map (\<lambda>k. if k = sel then u k else t k) ks"
    using u d ks res by (auto simp: rev_map intro!: map_cong)
  ultimately show ?thesis
    using u d ks res assms(2,3) by auto
qed



text \<open>An entry too tall for the rest of the page is left out silently on the way to the selected one, although
  the range shown below the page includes it.\<close>

lemma page_leaves_gap:
  "map_option (\<lambda>(res, ks). (rr_startIdx res, rr_endIdx res, ks))
    (render_page 3 3 0 2 (\<lambda>i b. Some (if i = 1 then ''x'' @ replicate 2 newline else ''y''))) = Some (0, 3, [0, 2])"
  by code_simp

end
