(* ===== verification/Exporter.thy ===== *)
theory Exporter
  imports Metrics Config
begin

text \<open>
  How the metrics leave the program: the rest of \<^verbatim>\<open>src/metrics/instruments.go\<close>, the registration of the
  instruments in \<^verbatim>\<open>src/metrics/metrics.go\<close>, the choice of an exporter in
  \<^verbatim>\<open>src/metrics/exporter.go\<close> and \<^verbatim>\<open>src/metrics/store.go\<close>. The OpenTelemetry library is a record of
  functions; an observation is a value under the name of an instrument and, for a vector, a label.
\<close>

section \<open>Reading instruments\<close>

definition Counter_Value :: "counter \<Rightarrow> int" where
  "Counter_Value c = sint c"

definition Gauge_Inc :: "counter \<Rightarrow> counter" where "Gauge_Inc g = g + 1"
definition Gauge_Set :: "int \<Rightarrow> counter \<Rightarrow> counter" where "Gauge_Set v g = word_of_int v"

type_synonym observations = "string \<times> (string \<times> string) option \<rightharpoonup> int"

definition observe :: "string \<Rightarrow> counter \<Rightarrow> observations" where
  "observe inst c = [(inst, None) \<mapsto> Counter_Value c]"

text \<open>\<^verbatim>\<open>each\<close> with \<^verbatim>\<open>observeVec\<close>: one observation for every label of the vector.\<close>

definition each :: "string \<Rightarrow> string \<Rightarrow> counter_vec \<Rightarrow> observations" where
  "each inst key v = (\<lambda>(i, attr). case attr of
       None \<Rightarrow> None
     | Some (k, lv) \<Rightarrow> if i = inst \<and> k = key then map_option Counter_Value (v lv) else None)"

definition observe_metrics :: "Metrics \<Rightarrow> observations" where
  "observe_metrics m =
     observe ''trabbits_client_connections'' (ClientConnections m) ++
     observe ''trabbits_client_connections_total'' (ClientTotalConnections m) ++
     observe ''trabbits_client_connection_errors_total'' (ClientConnectionErrors m) ++
     observe ''trabbits_client_received_frames_total'' (ClientReceivedFrames m) ++
     observe ''trabbits_client_sent_frames_total'' (ClientSentFrames m) ++
     each ''trabbits_upstream_connections'' ''addr'' (UpstreamConnections m) ++
     each ''trabbits_upstream_connections_total'' ''addr'' (UpstreamTotalConnections m) ++
     each ''trabbits_upstream_connection_errors_total'' ''addr'' (UpstreamConnectionErrors m) ++
     each ''trabbits_upstream_healthy_nodes'' ''upstream'' (UpstreamHealthyNodes m) ++
     each ''trabbits_upstream_unhealthy_nodes'' ''upstream'' (UpstreamUnhealthyNodes m) ++
     each ''trabbits_processed_messages_total'' ''method'' (ProcessedMessages m) ++
     each ''trabbits_errored_messages_total'' ''method'' (ErroredMessages m) ++
     each ''trabbits_logger_stats_total'' ''level'' (LoggerStats m) ++
     each ''trabbits_panic_recoveries_total'' ''function'' (PanicRecoveries m)"

section \<open>Registering instruments\<close>

datatype instrument_kind = ObservableCounter | ObservableUpDownCounter | ObservableGauge

definition instruments :: "(instrument_kind \<times> string \<times> string) list" where
  "instruments =
     [(ObservableUpDownCounter, ''trabbits_client_connections'', ''Number of client connections.''),
      (ObservableCounter, ''trabbits_client_connections_total'', ''Total number of client connections.''),
      (ObservableCounter, ''trabbits_client_connection_errors_total'', ''Number of client connection errors.''),
      (ObservableCounter, ''trabbits_client_received_frames_total'', ''Number of received frames from clients.''),
      (ObservableCounter, ''trabbits_client_sent_frames_total'', ''Number of sent frames to clients.''),
      (ObservableUpDownCounter, ''trabbits_upstream_connections'', ''Number of upstream connections.''),
      (ObservableCounter, ''trabbits_upstream_connections_total'', ''Total number of upstream connections.''),
      (ObservableCounter, ''trabbits_upstream_connection_errors_total'', ''Number of upstream connection errors.''),
      (ObservableGauge, ''trabbits_upstream_healthy_nodes'', ''Number of healthy nodes in upstream cluster.''),
      (ObservableGauge, ''trabbits_upstream_unhealthy_nodes'', ''Number of unhealthy nodes in upstream cluster.''),
      (ObservableCounter, ''trabbits_processed_messages_total'', ''Number of processed messages by method.''),
      (ObservableCounter, ''trabbits_errored_messages_total'', ''Number of errored messages by method.''),
      (ObservableCounter, ''trabbits_logger_stats_total'', ''Number of logger stats by level.''),
      (ObservableCounter, ''trabbits_panic_recoveries_total'', ''Number of panic recoveries by function.'')]"

text \<open>
  \<^verbatim>\<open>NewMetrics\<close> with the meter of the library: all instruments are asked for, the errors are joined, and
  the callback is registered if there are none.
\<close>

record meter =
  mt_Instrument :: "instrument_kind \<Rightarrow> string \<Rightarrow> string \<Rightarrow> string option"
  mt_RegisterCallback :: "string list \<Rightarrow> string option"

definition join_errors :: "string list \<Rightarrow> string" where
  "join_errors errs = join_with CHR 0x0A errs"

definition register_metrics :: "meter \<Rightarrow> Metrics go" where
  "register_metrics mt =
     (let errs = List.map_filter (\<lambda>(kind, name, desc). mt_Instrument mt kind name desc) instruments in
      if errs \<noteq> [] then Inl (join_errors errs)
      else case mt_RegisterCallback mt (map (\<lambda>(kind, name, desc). name) instruments) of
        Some e \<Rightarrow> Inl e
      | None \<Rightarrow> Inr NewMetrics)"

section \<open>Choosing an exporter\<close>

text \<open>
  The constructors of exporters may fail; \<open>quote\<close> is \<^verbatim>\<open>%q\<close>, and an environment variable that is not set
  is the empty string.
\<close>

record 'x exporters =
  ex_console :: "'x go"
  ex_grpc :: "'x go"
  ex_http :: "'x go"
  ex_quote :: "string \<Rightarrow> string"

definition cmp_Or :: "string list \<Rightarrow> string" where
  "cmp_Or xs = (case filter (\<lambda>x. x \<noteq> []) xs of [] \<Rightarrow> [] | x # _ \<Rightarrow> x)"

definition exporter_name :: "(string \<Rightarrow> string) \<Rightarrow> string" where
  "exporter_name Getenv =
     (let name = Getenv ''OTEL_METRICS_EXPORTER'' in
      if name = []
      then (if Getenv ''OTEL_EXPORTER_OTLP_ENDPOINT'' \<noteq> [] \<or> Getenv ''OTEL_EXPORTER_OTLP_METRICS_ENDPOINT'' \<noteq> []
            then ''otlp'' else ''none'')
      else name)"

definition otlp_protocol :: "(string \<Rightarrow> string) \<Rightarrow> string" where
  "otlp_protocol Getenv =
     cmp_Or [Getenv ''OTEL_EXPORTER_OTLP_METRICS_PROTOCOL'', Getenv ''OTEL_EXPORTER_OTLP_PROTOCOL'', ''http/protobuf'']"

definition newReaderFromEnv :: "'x exporters \<Rightarrow> (string \<Rightarrow> string) \<Rightarrow> 'x option go" where
  "newReaderFromEnv ex Getenv =
     (let name = exporter_name Getenv; proto = otlp_protocol Getenv in
      if name = ''none'' then Inr None
      else if name = ''console''
      then (case ex_console ex of Inl e \<Rightarrow> Inl (''failed to create console metrics exporter: '' @ e) | Inr x \<Rightarrow> Inr (Some x))
      else if name = ''otlp''
      then (if proto \<noteq> ''grpc'' \<and> proto \<noteq> ''http/protobuf'' then Inl (''unsupported OTLP protocol: '' @ ex_quote ex proto)
            else case (if proto = ''grpc'' then ex_grpc ex else ex_http ex) of
              Inl e \<Rightarrow> Inl (''failed to create OTLP metrics exporter: '' @ e)
            | Inr x \<Rightarrow> Inr (Some x))
      else Inl (''unsupported OTEL_METRICS_EXPORTER: '' @ ex_quote ex name))"

section \<open>The store\<close>

definition GetAttributes :: "(string \<times> string) list option \<Rightarrow> (string \<times> string) list" where
  "GetAttributes m = (case m of None \<Rightarrow> [] | Some attrs \<Rightarrow> attrs)"

record 'x store_options =
  so_reader :: "'x option"
  so_attributes :: "(string \<times> string) list"
  so_serviceVersion :: string

definition WithReader :: "'x \<Rightarrow> 'x store_options \<Rightarrow> 'x store_options" where "WithReader r o' = o'\<lparr>so_reader := Some r\<rparr>"
definition WithAttributes :: "(string \<times> string) list \<Rightarrow> 'x store_options \<Rightarrow> 'x store_options" where
  "WithAttributes attrs o' = o'\<lparr>so_attributes := attrs\<rparr>"
definition WithServiceVersion :: "string \<Rightarrow> 'x store_options \<Rightarrow> 'x store_options" where
  "WithServiceVersion v o' = o'\<lparr>so_serviceVersion := v\<rparr>"

text \<open>
  The SDK: a resource from the environment and attributes, the resource of defaults overridden by it, and a provider
  for a resource and a reader with its meter.
\<close>

record ('x, 'r, 'p) sdk =
  sdk_Resource :: "(string \<times> string) list \<Rightarrow> 'r go"
  sdk_Merge :: "(string \<times> string) list \<Rightarrow> 'r \<Rightarrow> 'r go"
  sdk_Provider :: "'r \<Rightarrow> 'x option \<Rightarrow> 'p"
  sdk_Meter :: "'p \<Rightarrow> string \<Rightarrow> meter"

record 'p Store =
  st_metrics :: Metrics
  st_provider :: 'p

definition meterName :: string where "meterName = ''github.com/fujiwara/trabbits''"

definition default_attributes :: "string \<Rightarrow> (string \<times> string) list" where
  "default_attributes serviceVersion =
     (''service.name'', ''trabbits'') # (if serviceVersion \<noteq> [] then [(''service.version'', serviceVersion)] else [])"

text \<open>\<^verbatim>\<open>NewStore\<close>: the store or an error, and the providers that were shut down again.\<close>

definition NewStore :: "('x, 'r, 'p) sdk \<Rightarrow> 'x exporters \<Rightarrow> (string \<Rightarrow> string) \<Rightarrow> ('x store_options \<Rightarrow> 'x store_options) list \<Rightarrow>
    'p Store go \<times> 'p list" where
  "NewStore sdk ex Getenv opts =
     (let o' = fold (\<lambda>opt o'. opt o') opts \<lparr>so_reader = None, so_attributes = [], so_serviceVersion = []\<rparr> in
      case (case so_reader o' of Some r \<Rightarrow> Inr (Some r) | None \<Rightarrow> newReaderFromEnv ex Getenv) of
        Inl e \<Rightarrow> (Inl (''failed to configure metrics exporter: '' @ e), [])
      | Inr reader \<Rightarrow>
          (case sdk_Resource sdk (so_attributes o') of
             Inl e \<Rightarrow> (Inl (''failed to create resource: '' @ e), [])
           | Inr envRes \<Rightarrow>
               (case sdk_Merge sdk (default_attributes (so_serviceVersion o')) envRes of
                  Inl e \<Rightarrow> (Inl (''failed to merge resources: '' @ e), [])
                | Inr res \<Rightarrow>
                    (let provider = sdk_Provider sdk res reader in
                     case register_metrics (sdk_Meter sdk provider meterName) of
                       Inl e \<Rightarrow> (Inl (''failed to create metrics: '' @ e), [provider])
                     | Inr m \<Rightarrow> (Inr \<lparr>st_metrics = m, st_provider = provider\<rparr>, [])))))"

section \<open>What is exported\<close>

lemma each_at: "each inst key v (i, a) = (case a of None \<Rightarrow> None | Some (k, lv) \<Rightarrow> if i = inst \<and> k = key then map_option Counter_Value (v lv) else None)"
  by (simp add: each_def)

lemma observe_at: "observe inst c (i, a) = (if i = inst \<and> a = None then Some (Counter_Value c) else None)"
  by (auto simp: observe_def)

text \<open>The vectors with the names of their instruments and of their labels.\<close>

definition exported_vectors :: "Metrics \<Rightarrow> (string \<times> string \<times> counter_vec) list" where
  "exported_vectors m =
     [(''trabbits_upstream_connections'', ''addr'', UpstreamConnections m),
      (''trabbits_upstream_connections_total'', ''addr'', UpstreamTotalConnections m),
      (''trabbits_upstream_connection_errors_total'', ''addr'', UpstreamConnectionErrors m),
      (''trabbits_upstream_healthy_nodes'', ''upstream'', UpstreamHealthyNodes m),
      (''trabbits_upstream_unhealthy_nodes'', ''upstream'', UpstreamUnhealthyNodes m),
      (''trabbits_processed_messages_total'', ''method'', ProcessedMessages m),
      (''trabbits_errored_messages_total'', ''method'', ErroredMessages m),
      (''trabbits_logger_stats_total'', ''level'', LoggerStats m),
      (''trabbits_panic_recoveries_total'', ''function'', PanicRecoveries m)]"

definition exported_scalars :: "Metrics \<Rightarrow> (string \<times> counter) list" where
  "exported_scalars m =
     [(''trabbits_client_connections'', ClientConnections m), (''trabbits_client_connections_total'', ClientTotalConnections m),
      (''trabbits_client_connection_errors_total'', ClientConnectionErrors m),
      (''trabbits_client_received_frames_total'', ClientReceivedFrames m), (''trabbits_client_sent_frames_total'', ClientSentFrames m)]"

lemma each_all:
  "distinct (map fst xs) \<Longrightarrow> (\<And>n. n \<in> fst ` set xs \<Longrightarrow> f (n, Some (key, lv)) = None) \<Longrightarrow>
    foldl (\<lambda>f (n, k, v). f ++ each n k v) f xs (inst, Some (key, lv)) =
      (case map_of xs inst of
         Some (k, v) \<Rightarrow> if key = k then map_option sint (v lv) else None
       | None \<Rightarrow> f (inst, Some (key, lv)))"
proof (induction xs arbitrary: f)
  case (Cons x xs)
  obtain n k v where x: "x = (n, k, v)" by (cases x)
  let ?f = "f ++ each n k v"
  have "?f (n', Some (key, lv)) = None" if "n' \<in> fst ` set xs" for n'
    using that Cons.prems x by (auto simp: map_add_def each_at)
  then have "foldl (\<lambda>f (n, k, v). f ++ each n k v) ?f xs (inst, Some (key, lv)) =
      (case map_of xs inst of Some (k, v) \<Rightarrow> if key = k then map_option sint (v lv) else None | None \<Rightarrow> ?f (inst, Some (key, lv)))"
    using Cons by simp
  moreover have "map_of xs n = None" "f (n, Some (key, lv)) = None"
    using Cons.prems x by (auto simp: map_of_eq_None_iff)
  ultimately show ?case
    using x by (auto simp: map_add_def each_at Counter_Value_def [abs_def] split: option.splits)
qed simp

lemma observe_metrics_lists:
  "observe_metrics m = foldl (\<lambda>f (n, k, v). f ++ each n k v) (foldl (\<lambda>f (n, c). f ++ observe n c) Map.empty (exported_scalars m)) (exported_vectors m)"
  by (simp only: observe_metrics_def exported_scalars_def exported_vectors_def foldl.simps prod.case empty_map_add)

lemma observe_all: "foldl (\<lambda>f (n, c). f ++ observe n c) f xs (inst, Some a) = f (inst, Some a)"
proof (induction xs arbitrary: f)
  case (Cons x xs)
  then show ?case by (cases x) (simp add: map_add_def observe_at)
qed simp

lemma instrument_names: "distinct (map (\<lambda>(kind, name, desc). name) instruments)"
  by (simp add: instruments_def)

text \<open>What is exported is exactly what was counted: every counter and gauge is observed under a name of its own,
  one of the fourteen that were registered, with its signed value; every label of a vector is observed under the
  label of the vector; and nothing else is observed.\<close>

theorem metrics_exported:
  "distinct (map (\<lambda>(kind, name, desc). name) instruments) \<and>
   map (\<lambda>(kind, name, desc). name) instruments = map fst (exported_scalars m) @ map fst (exported_vectors m) \<and>
   observe_metrics m (inst, attr) =
     (case attr of
        None \<Rightarrow> map_option sint (map_of (exported_scalars m) inst)
      | Some (key, lv) \<Rightarrow>
          (case map_of (exported_vectors m) inst of
             Some (k, v) \<Rightarrow> if key = k then map_option sint (v lv) else None
           | None \<Rightarrow> None))"
proof (intro conjI)
  show "distinct (map (\<lambda>(kind, name, desc). name) instruments)"
    by (rule instrument_names)
  show "map (\<lambda>(kind, name, desc). name) instruments = map fst (exported_scalars m) @ map fst (exported_vectors m)"
    by (simp add: instruments_def exported_scalars_def exported_vectors_def)
  show "observe_metrics m (inst, attr) =
     (case attr of
        None \<Rightarrow> map_option sint (map_of (exported_scalars m) inst)
      | Some (key, lv) \<Rightarrow>
          (case map_of (exported_vectors m) inst of
             Some (k, v) \<Rightarrow> if key = k then map_option sint (v lv) else None
           | None \<Rightarrow> None))"
  proof (cases attr)
    case None
    then show ?thesis
      unfolding observe_metrics_def map_add_def each_at observe_at exported_scalars_def
      by (simp add: Counter_Value_def)
  next
    case (Some kl)
    have "map fst (exported_scalars m) @ map fst (exported_vectors m) = map (\<lambda>(kind, name, desc). name) instruments"
      by (simp add: instruments_def exported_scalars_def exported_vectors_def)
    then have d: "distinct (map fst (exported_vectors m))"
      using instrument_names by (metis distinct_append)
    obtain key lv where "attr = Some (key, lv)" using Some by (cases kl) auto
    then show ?thesis
      unfolding observe_metrics_lists using each_all [OF d] by (simp add: observe_all split: option.split)
  qed
qed

end
