(* ===== verification/Config_Json.thy ===== *)
theory Config_Json
  imports Config Exporter
begin

text \<open>
  How a configuration is written and compared: the JSON methods of \<^verbatim>\<open>Password\<close> and \<^verbatim>\<open>Duration\<close>,
  \<^verbatim>\<open>String\<close> and \<^verbatim>\<open>Hash\<close> of \<^verbatim>\<open>src/config/config.go\<close>. The encoder of the library is a record of
  functions: on strings, on durations as text, and on a struct whose fields have been encoded by their own methods.
\<close>

record json_lib =
  js_string :: "string \<Rightarrow> string"
  js_read_string :: "string \<Rightarrow> string go"
  js_show_duration :: "duration \<Rightarrow> string"
  js_ParseDuration :: "string \<Rightarrow> duration go"

definition Password_UnmarshalJSON :: "json_lib \<Rightarrow> string \<Rightarrow> string go" where
  "Password_UnmarshalJSON js data = js_read_string js data"

definition Password_MarshalJSON :: "json_lib \<Rightarrow> string \<Rightarrow> string" where
  "Password_MarshalJSON js p = (if p = [] then js_string js [] else js_string js ''********'')"

definition Duration_UnmarshalJSON :: "json_lib \<Rightarrow> string \<Rightarrow> duration go" where
  "Duration_UnmarshalJSON js data = gobind (js_read_string js data) (js_ParseDuration js)"

definition Duration_String :: "json_lib \<Rightarrow> duration \<Rightarrow> string" where
  "Duration_String js d = js_show_duration js d"

definition Duration_MarshalJSON :: "json_lib \<Rightarrow> duration \<Rightarrow> string" where
  "Duration_MarshalJSON js d = js_string js (Duration_String js d)"

text \<open>
  \<^verbatim>\<open>json.MarshalIndent\<close> of a configuration: the encoder calls the method of every field that has one; the
  only such fields besides durations are the passwords of the health checks.
\<close>

definition marshalled :: "json_lib \<Rightarrow> ConfigData \<Rightarrow> ConfigData" where
  "marshalled js c = c\<lparr>c_Upstreams := map (\<lambda>u. u\<lparr>uc_HealthCheck :=
     map_option (\<lambda>h. h\<lparr>hc_Password := Password_MarshalJSON js (hc_Password h)\<rparr>) (uc_HealthCheck u)\<rparr>) (c_Upstreams c)\<rparr>"

definition Config_String :: "json_lib \<Rightarrow> (ConfigData \<Rightarrow> string) \<Rightarrow> ConfigData \<Rightarrow> string" where
  "Config_String js encode c = encode (marshalled js c)"

text \<open>\<^verbatim>\<open>Hash\<close>: the digest of the gob encoding in hexadecimal; gob sees the plain fields. An encoding error gives
  the empty string.\<close>

definition Config_Hash :: "(ConfigData \<Rightarrow> bytes go) \<Rightarrow> (bytes \<Rightarrow> bytes) \<Rightarrow> (bytes \<Rightarrow> string) \<Rightarrow> ConfigData \<Rightarrow> string" where
  "Config_Hash gob sha256 hex c = (case gob c of Inl e \<Rightarrow> [] | Inr data \<Rightarrow> hex (sha256 data))"

section \<open>Passwords stay inside\<close>

definition same_shown :: "HealthCheck option \<Rightarrow> HealthCheck option \<Rightarrow> bool" where
  "same_shown a b \<longleftrightarrow>
     (case (a, b) of
        (None, None) \<Rightarrow> True
      | (Some x, Some y) \<Rightarrow> x\<lparr>hc_Password := []\<rparr> = y\<lparr>hc_Password := []\<rparr> \<and> (hc_Password x = [] \<longleftrightarrow> hc_Password y = [])
      | _ \<Rightarrow> False)"

definition differ_in_passwords :: "ConfigData \<Rightarrow> ConfigData \<Rightarrow> bool" where
  "differ_in_passwords a b \<longleftrightarrow>
     a\<lparr>c_Upstreams := []\<rparr> = b\<lparr>c_Upstreams := []\<rparr> \<and>
     list_all2 (\<lambda>u v. u\<lparr>uc_HealthCheck := None\<rparr> = v\<lparr>uc_HealthCheck := None\<rparr> \<and> same_shown (uc_HealthCheck u) (uc_HealthCheck v))
       (c_Upstreams a) (c_Upstreams b)"

text \<open>C33. The text of a configuration, which the API and the logs show, says nothing about passwords but whether they
  are set: two configurations that differ in nothing but the values of passwords have the same text.\<close>

theorem passwords_masked:
  assumes "differ_in_passwords a b"
  shows "Config_String js encode a = Config_String js encode b"
proof -
  let ?m = "\<lambda>u. u\<lparr>uc_HealthCheck := map_option (\<lambda>h. h\<lparr>hc_Password := Password_MarshalJSON js (hc_Password h)\<rparr>) (uc_HealthCheck u)\<rparr>"
  have pw: "x\<lparr>hc_Password := Password_MarshalJSON js (hc_Password x)\<rparr> = y\<lparr>hc_Password := Password_MarshalJSON js (hc_Password y)\<rparr>"
    if "x\<lparr>hc_Password := []\<rparr> = y\<lparr>hc_Password := []\<rparr>" "hc_Password x = [] \<longleftrightarrow> hc_Password y = []" for x y
    using that by (cases x; cases y) (simp add: Password_MarshalJSON_def)
  have m: "?m u = ?m v"
    if "u\<lparr>uc_HealthCheck := None\<rparr> = v\<lparr>uc_HealthCheck := None\<rparr>" "same_shown (uc_HealthCheck u) (uc_HealthCheck v)" for u v
    using that pw by (cases u; cases v) (auto simp: same_shown_def split: option.splits)
  have "list_all2 (\<lambda>u v. u\<lparr>uc_HealthCheck := None\<rparr> = v\<lparr>uc_HealthCheck := None\<rparr> \<and>
      same_shown (uc_HealthCheck u) (uc_HealthCheck v)) (c_Upstreams a) (c_Upstreams b)"
    using assms by (simp add: differ_in_passwords_def)
  then have "map ?m (c_Upstreams a) = map ?m (c_Upstreams b)"
  proof (induction rule: list_all2_induct)
    case (Cons u us v vs)
    then show ?case using m [of u v] by simp
  qed simp
  moreover have "a\<lparr>c_Upstreams := []\<rparr> = b\<lparr>c_Upstreams := []\<rparr>"
    using assms by (simp add: differ_in_passwords_def)
  ultimately show ?thesis
    unfolding Config_String_def marshalled_def by (cases a; cases b) simp
qed

text \<open>What is read back from the text of a password that is set is the mask.\<close>

lemma password_read_back:
  assumes "\<And>s. js_read_string js (js_string js s) = Inr s"
  shows "Password_UnmarshalJSON js (Password_MarshalJSON js p) = Inr (if p = [] then [] else ''********'')"
  using assms by (simp add: Password_UnmarshalJSON_def Password_MarshalJSON_def)

lemma duration_read_back:
  assumes "\<And>s. js_read_string js (js_string js s) = Inr s" and "js_ParseDuration js (js_show_duration js d) = Inr d"
  shows "Duration_UnmarshalJSON js (Duration_MarshalJSON js d) = Inr d"
  using assms by (simp add: Duration_UnmarshalJSON_def Duration_MarshalJSON_def Duration_String_def)

definition sample_health :: "string \<Rightarrow> ConfigData" where
  "sample_health p = sample_config\<lparr>c_Upstreams := map (\<lambda>u. u\<lparr>uc_HealthCheck := Some \<lparr>hc_Interval = 0, hc_Timeout = 0,
     hc_UnhealthyThreshold = 3, hc_RecoveryInterval = 0, hc_Username = ''probe'', hc_Password = p\<rparr>\<rparr>) (c_Upstreams sample_config)\<rparr>"

definition sample_json :: json_lib where
  "sample_json = \<lparr>js_string = id, js_read_string = Inr, js_show_duration = (\<lambda>_. ''0s''), js_ParseDuration = (\<lambda>_. Inr 0)\<rparr>"

text \<open>An encoder that writes nothing but the passwords.\<close>

definition shown_passwords :: "ConfigData \<Rightarrow> string" where
  "shown_passwords c = concat (map (\<lambda>u. case uc_HealthCheck u of Some h \<Rightarrow> hc_Password h | None \<Rightarrow> []) (c_Upstreams c))"

theorem passwords_masked_witness:
  "Config_String sample_json shown_passwords (sample_health ''secret'') = Config_String sample_json shown_passwords (sample_health ''other'') \<and>
   Config_String sample_json shown_passwords (sample_health ''other'') = ''********''"
proof -
  have "differ_in_passwords (sample_health ''secret'') (sample_health ''other'')"
    by (simp add: differ_in_passwords_def sample_health_def sample_config_def same_shown_def)
  note passwords_masked [OF this, of sample_json shown_passwords]
  moreover have "Config_String sample_json shown_passwords (sample_health ''other'') = ''********''"
    by (simp add: Config_String_def marshalled_def sample_health_def sample_config_def shown_passwords_def sample_json_def
        Password_MarshalJSON_def)
  ultimately show ?thesis ..
qed

end
