(* ===== verification/Commands.thy ===== *)
theory Commands
  imports Api_Client Tui Topic_Pattern Config_Json
begin

text \<open>
  The command line: \<^verbatim>\<open>src/cli.go\<close>, \<^verbatim>\<open>src/manage.go\<close> and \<^verbatim>\<open>src/test.go\<close>. A command prints text
  and returns an error or nothing. The options come from the library that parses the command line; a command
  is known by the text that library gives for it.
\<close>

section \<open>Options\<close>

record CLI =
  cl_Config :: string
  cl_Port :: int
  cl_APISocket :: string
  cl_Debug :: bool
  cl_PidFile :: string
  cl_ConfigCommand :: string
  cl_ConfigFile :: string
  cl_ShutdownProxyID :: string
  cl_ShutdownReason :: string
  cl_InfoProxyID :: string
  cl_ProbeProxyID :: string
  cl_ProbeFormat :: string
  cl_Pattern :: string
  cl_Key :: string

type_synonym outcome = "string \<times> unit go"

definition failed :: "string \<Rightarrow> outcome" where "failed e = ([], Inl e)"

section \<open>Configuration\<close>

definition manageConfigGet :: "'u net \<Rightarrow> (http_body \<Rightarrow> 'k go) \<Rightarrow> ('k \<Rightarrow> string) \<Rightarrow> CLI \<Rightarrow> outcome" where
  "manageConfigGet nt decode_cfg show_cfg opt =
     (case GetConfig nt decode_cfg (New (nt_url nt) (cl_APISocket opt)) of
        Inl e \<Rightarrow> failed (''failed to get config: '' @ e)
      | Inr cfg \<Rightarrow> (show_cfg cfg, Inr ()))"

text \<open>The colours of the terminal, \<open>red\<close> and \<open>green\<close>, are the library's.\<close>

definition colored_line :: "(string \<Rightarrow> string) \<Rightarrow> (string \<Rightarrow> string) \<Rightarrow> string \<Rightarrow> string" where
  "colored_line red green l =
     (if has_prefix l ''-'' then red l else if has_prefix l ''+'' then green l else l) @ [CHR 0x0A]"

definition ColoredDiff :: "(string \<Rightarrow> string) \<Rightarrow> (string \<Rightarrow> string) \<Rightarrow> string \<Rightarrow> string" where
  "ColoredDiff red green txt = concat (map (colored_line red green) (split_on CHR 0x0A txt))"

definition manageConfigDiff :: "'u net \<Rightarrow> (string \<Rightarrow> string) \<Rightarrow> (string \<Rightarrow> string) \<Rightarrow> CLI \<Rightarrow> outcome" where
  "manageConfigDiff nt red green opt =
     (if cl_ConfigFile opt = [] then failed ''configuration file is required for diff command''
      else case DiffConfigFromFile nt (New (nt_url nt) (cl_APISocket opt)) (cl_ConfigFile opt) of
        Inl e \<Rightarrow> failed (''failed to get diff: '' @ e)
      | Inr diff \<Rightarrow> (if diff \<noteq> [] then ColoredDiff red green diff else [], Inr ()))"

definition manageConfigPut :: "'u net \<Rightarrow> CLI \<Rightarrow> outcome" where
  "manageConfigPut nt opt =
     (if cl_ConfigFile opt = [] then failed ''configuration file is required for put command''
      else ([], PutConfigFromFile nt (New (nt_url nt) (cl_APISocket opt)) (cl_ConfigFile opt)))"

definition manageConfigReload :: "'u net \<Rightarrow> (http_body \<Rightarrow> 'k go) \<Rightarrow> ('k \<Rightarrow> string) \<Rightarrow> CLI \<Rightarrow> outcome" where
  "manageConfigReload nt decode_cfg show_cfg opt =
     (case ReloadConfig nt decode_cfg (New (nt_url nt) (cl_APISocket opt)) of
        Inl e \<Rightarrow> failed (''failed to reload config: '' @ e)
      | Inr cfg \<Rightarrow> (show_cfg cfg, Inr ()))"

definition manageConfig :: "'u net \<Rightarrow> (http_body \<Rightarrow> 'k go) \<Rightarrow> ('k \<Rightarrow> string) \<Rightarrow> (string \<Rightarrow> string) \<Rightarrow> (string \<Rightarrow> string) \<Rightarrow> CLI \<Rightarrow> outcome" where
  "manageConfig nt decode_cfg show_cfg red green opt =
     (let command = cl_ConfigCommand opt in
      if command = ''get'' then manageConfigGet nt decode_cfg show_cfg opt
      else if command = ''diff'' then manageConfigDiff nt red green opt
      else if command = ''put'' then manageConfigPut nt opt
      else if command = ''reload'' then manageConfigReload nt decode_cfg show_cfg opt
      else failed (''unknown config command: '' @ command))"

section \<open>Clients\<close>

definition id_less :: "ClientInfo \<Rightarrow> ClientInfo \<Rightarrow> bool" where
  "id_less a b = string_less (ci_ID a) (ci_ID b)"

text \<open>\<^verbatim>\<open>sort.Slice\<close>: an insertion sort up to twelve elements, above that the result of the library.\<close>

definition sort_by_id :: "(ClientInfo list \<Rightarrow> ClientInfo list) \<Rightarrow> ClientInfo list \<Rightarrow> ClientInfo list" where
  "sort_by_id pdq cs = (if length cs \<le> 12 then insertion_sort id_less cs else pdq cs)"

definition client_line :: "ClientInfo \<Rightarrow> string" where
  "client_line c =
     ''ID: '' @ ci_ID c @ '', User: '' @ ci_User c @ '', Address: '' @ ci_ClientAddress c @ '', Status: '' @ ci_Status c @ [CHR 0x0A]"

definition manageClients :: "'u net \<Rightarrow> (http_body \<Rightarrow> ClientInfo list go) \<Rightarrow> (ClientInfo list \<Rightarrow> ClientInfo list) \<Rightarrow> CLI \<Rightarrow> outcome" where
  "manageClients nt decode_clients pdq opt =
     (case GetClients nt decode_clients (New (nt_url nt) (cl_APISocket opt)) of
        Inl e \<Rightarrow> failed (''failed to get clients: '' @ e)
      | Inr clients \<Rightarrow> (concat (map client_line (sort_by_id pdq clients)), Inr ()))"

definition manageClientShutdown :: "'u net \<Rightarrow> CLI \<Rightarrow> outcome" where
  "manageClientShutdown nt opt =
     ([], ShutdownClient nt (New (nt_url nt) (cl_APISocket opt)) (cl_ShutdownProxyID opt) (cl_ShutdownReason opt))"

definition manageClientInfo :: "'u net \<Rightarrow> (http_body \<Rightarrow> FullClientInfo go) \<Rightarrow> (string \<Rightarrow> nat \<Rightarrow> string) \<Rightarrow> CLI \<Rightarrow> outcome" where
  "manageClientInfo nt decode_client format opt =
     (case GetClientDetail nt decode_client (New (nt_url nt) (cl_APISocket opt)) (cl_InfoProxyID opt) of
        Inl e \<Rightarrow> failed (''failed to get client detail: '' @ e)
      | Inr info \<Rightarrow>
          (line (''Proxy ID: '' @ fi_ID info) @ line (''Client Address: '' @ fi_ClientAddress info) @
           line (''Virtual Host: '' @ fi_VirtualHost info) @ line (''User: '' @ fi_User info) @
           line (''Connected At: '' @ format ''2006-01-02 15:04:05'' (fi_ConnectedAt info)), Inr ()))"

text \<open>\<^verbatim>\<open>formatProbeLogEntry\<close>; the text format ignores an error of the encoder.\<close>

definition formatProbeLogEntry :: "('v ProbeLogEntry \<Rightarrow> string go) \<Rightarrow> ((string \<times> 'v) list \<Rightarrow> string) \<Rightarrow> (string \<Rightarrow> nat \<Rightarrow> string) \<Rightarrow>
    'v ProbeLogEntry \<Rightarrow> string \<Rightarrow> outcome" where
  "formatProbeLogEntry marshal marshal_attrs format entry fmt =
     (if fmt = ''json''
      then (case marshal entry of Inl e \<Rightarrow> failed e | Inr data \<Rightarrow> (line data, Inr ()))
      else (line (format ''2006-01-02T15:04:05.000Z07:00'' (le_Timestamp entry) @ '' '' @ le_Message entry @ '' '' @
              marshal_attrs (le_Attrs entry)), Inr ()))"

fun print_entries :: "('v ProbeLogEntry \<Rightarrow> outcome) \<Rightarrow> 'v ProbeLogEntry list \<Rightarrow> outcome" where
  "print_entries show_entry [] = ([], Inr ())"
| "print_entries show_entry (entry # es) =
     (case show_entry entry of
        (out, Inl e) \<Rightarrow> (out, Inl e)
      | (out, Inr _) \<Rightarrow> (case print_entries show_entry es of (rest, r) \<Rightarrow> (out @ rest, r)))"

definition manageClientProbe :: "'u net \<Rightarrow> (string \<Rightarrow> 'v ProbeLogEntry go) \<Rightarrow> (nat \<Rightarrow> bool) \<Rightarrow> (nat \<Rightarrow> bool) \<Rightarrow> bool \<Rightarrow> string \<Rightarrow>
    ('v ProbeLogEntry \<Rightarrow> string go) \<Rightarrow> ((string \<times> 'v) list \<Rightarrow> string) \<Rightarrow> (string \<Rightarrow> nat \<Rightarrow> string) \<Rightarrow> CLI \<Rightarrow> outcome" where
  "manageClientProbe nt unmarshal cancelled stop ctxDone ctxErr marshal marshal_attrs format opt =
     (let fmt = (if cl_ProbeFormat opt = [] then ''text'' else cl_ProbeFormat opt) in
      print_entries (\<lambda>entry. formatProbeLogEntry marshal marshal_attrs format entry fmt)
        (fst (StreamProbeLogEntries nt unmarshal cancelled stop ctxDone ctxErr (New (nt_url nt) (cl_APISocket opt)) (cl_ProbeProxyID opt))))"

section \<open>Testing a pattern\<close>

definition check_mark :: string where "check_mark = [CHR 0xE2, CHR 0x9C, CHR 0x93]"
definition ballot_x :: string where "ballot_x = [CHR 0xE2, CHR 0x9C, CHR 0x97]"

definition in_quotes :: "string \<Rightarrow> string" where "in_quotes s = CHR 0x27 # s @ [CHR 0x27]"

definition testMatchRouting :: "CLI \<Rightarrow> outcome" where
  "testMatchRouting cli =
     (let bindingPattern = cl_Pattern cli; key = cl_Key cli in
      if Match key bindingPattern
      then (line (check_mark @ '' MATCHED: pattern '' @ in_quotes bindingPattern @ '' matches key '' @ in_quotes key), Inr ())
      else (line (ballot_x @ '' NOT MATCHED: pattern '' @ in_quotes bindingPattern @ '' does not match key '' @ in_quotes key),
            Inl ''pattern did not match''))"

section \<open>Choosing the command\<close>

datatype command =
    RunServer
  | ManageConfig
  | ManageClients
  | ManageTUI
  | ManageShutdown
  | ManageInfo
  | ManageProbe
  | TestMatchRouting

definition Run_command :: "string \<Rightarrow> command go" where
  "Run_command k =
     (if k = ''run'' then Inr RunServer
      else if k = ''manage config <command>'' \<or> k = ''manage config <command> <file>'' then Inr ManageConfig
      else if k = ''manage clients list'' then Inr ManageClients
      else if k = ''manage clients tui'' then Inr ManageTUI
      else if k = ''manage clients shutdown <proxy-id>'' then Inr ManageShutdown
      else if k = ''manage clients info <proxy-id>'' then Inr ManageInfo
      else if k = ''manage clients probe <proxy-id>'' then Inr ManageProbe
      else if k = ''test match-routing <pattern> <key>'' then Inr TestMatchRouting
      else Inl (''unknown command: '' @ k))"

section \<open>What the commands print\<close>

lemma split_on_lines: "\<forall>w \<in> set ws. c \<notin> set w \<Longrightarrow> split_on c (concat (map (\<lambda>w. w @ [c]) ws)) = ws @ [[]]"
  by (induction ws) (simp_all add: split_on_append)

text \<open>The lines of a coloured diff are those of the diff, one for one: a removed line red, an added line green.\<close>

lemma ColoredDiff_lines:
  assumes "\<And>l. CHR 0x0A \<notin> set l \<Longrightarrow> CHR 0x0A \<notin> set (red l) \<and> CHR 0x0A \<notin> set (green l)"
  shows "split_on CHR 0x0A (ColoredDiff red green txt) =
    map (\<lambda>l. if has_prefix l ''-'' then red l else if has_prefix l ''+'' then green l else l) (split_on CHR 0x0A txt) @ [[]]"
proof -
  let ?f = "\<lambda>l. if has_prefix l ''-'' then red l else if has_prefix l ''+'' then green l else l"
  have eq: "ColoredDiff red green txt = concat (map (\<lambda>w. w @ [CHR 0x0A]) (map ?f (split_on CHR 0x0A txt)))"
    by (simp add: ColoredDiff_def comp_def colored_line_def [abs_def])
  have "\<forall>w \<in> set (map ?f (split_on CHR 0x0A txt)). CHR 0x0A \<notin> set w"
    using assms split_on_no_sep by auto
  then show ?thesis
    unfolding eq by (rule split_on_lines)
qed

interpretation ids: comparison id_less
  unfolding id_less_def by unfold_locales (use keys.asym keys.not_less_trans in blast)+

text \<open>The list of clients on the command line: every client the server knows on one line, in the order of the ids.\<close>

theorem clients_printed:
  assumes "GetClients nt decode_clients (New (nt_url nt) (cl_APISocket opt)) = Inr clients"
    and "\<And>xs. mset (pdq xs) = mset xs \<and> sorted_wrt (\<lambda>a b. \<not> id_less b a) (pdq xs)"
  shows "\<exists>cs. manageClients nt decode_clients pdq opt = (concat (map client_line cs), Inr ()) \<and>
    mset cs = mset clients \<and> sorted_wrt (\<lambda>a b. \<not> id_less b a) cs"
proof -
  have "mset (sort_by_id pdq clients) = mset clients \<and> sorted_wrt (\<lambda>a b. \<not> id_less b a) (sort_by_id pdq clients)"
    using assms(2) [of clients] by (simp add: sort_by_id_def mset_insertion_sort ids.sorts)
  then show ?thesis
    using assms(1) by (auto simp: manageClients_def)
qed

end
