(* ===== verification/Logging.thy ===== *)
theory Logging
  imports Log_Buffer Metrics
begin

text \<open>
  How the log records of the program travel: \<^verbatim>\<open>src/logger.go\<close>, and the chain of handlers that
  \<^verbatim>\<open>run\<close> in \<^verbatim>\<open>src/server.go\<close> installs. A handler of the library passes its records on to the
  output; \<^verbatim>\<open>MetricSlogHandler\<close> counts them by level, \<^verbatim>\<open>ServerLogHandler\<close> copies them to the
  server log. \<^verbatim>\<open>MetricSlogHandler\<close> embeds the handler it wraps, so it has the methods
  \<^verbatim>\<open>Enabled\<close>, \<^verbatim>\<open>WithAttrs\<close> and \<^verbatim>\<open>WithGroup\<close> of that handler.
\<close>

section \<open>Handlers\<close>

record 'v log_record =
  r_Time :: nat
  r_Level :: string
  r_Message :: string
  r_Attrs :: "(string \<times> 'v) list"

datatype ('v, 'b) slog_handler =
    Base 'b
  | MetricSlogHandler "('v, 'b) slog_handler"
  | BufferingHandler "'v ServerLogHandler" "('v, 'b) slog_handler"

text \<open>The methods of the library's handler; \<open>bs_Handle\<close> gives its output, or the error of writing it.\<close>

record ('v, 'b) base_lib =
  bs_Enabled :: "'b \<Rightarrow> string \<Rightarrow> bool"
  bs_Handle :: "'b \<Rightarrow> 'v log_record \<Rightarrow> string option \<times> string"
  bs_WithAttrs :: "(string \<times> 'v) list \<Rightarrow> 'b \<Rightarrow> 'b"
  bs_WithGroup :: "string \<Rightarrow> 'b \<Rightarrow> 'b"

text \<open>
  What the handlers share: the counter of log records, \<open>None\<close> for the nil pointer, the server log, and what
  was written. \<open>level_value\<close> makes the level a value for the attributes.
\<close>

record 'v log_state =
  ls_counter :: "counter_vec option"
  ls_buffer :: "'v ProbeLogEntry LogBuffer"
  ls_out :: "string list"

definition Counter_Add :: "u64 \<Rightarrow> counter \<Rightarrow> counter" where
  "Counter_Add d c = c + d"

definition NewMetricSlogHandler :: "('v, 'b) slog_handler \<Rightarrow> 'v log_state \<Rightarrow> ('v, 'b) slog_handler \<times> 'v log_state" where
  "NewMetricSlogHandler base st =
     (MetricSlogHandler base,
      st\<lparr>ls_counter := map_option (\<lambda>v. on_label ''ERROR'' (Counter_Add 0) (on_label ''WARN'' (Counter_Add 0) (on_label ''INFO'' (Counter_Add 0) v)))
         (ls_counter st)\<rparr>)"

fun Handler_Enabled :: "('v, 'b) base_lib \<Rightarrow> ('v, 'b) slog_handler \<Rightarrow> string \<Rightarrow> bool" where
  "Handler_Enabled bs (Base b) level = bs_Enabled bs b level"
| "Handler_Enabled bs (MetricSlogHandler h) level = Handler_Enabled bs h level"
| "Handler_Enabled bs (BufferingHandler own h) level = Handler_Enabled bs h level"

fun Handler_Handle :: "('v, 'b) base_lib \<Rightarrow> (string \<Rightarrow> 'v) \<Rightarrow> ('v, 'b) slog_handler \<Rightarrow> 'v log_record \<Rightarrow> 'v log_state \<Rightarrow>
    string option \<times> 'v log_state" where
  "Handler_Handle bs level_value (Base b) r st =
     (case bs_Handle bs b r of (err, out) \<Rightarrow> (err, st\<lparr>ls_out := ls_out st @ [out]\<rparr>))"
| "Handler_Handle bs level_value (MetricSlogHandler h) r st =
     Handler_Handle bs level_value h r (st\<lparr>ls_counter := map_option (on_label (r_Level r) Counter_Inc) (ls_counter st)\<rparr>)"
| "Handler_Handle bs level_value (BufferingHandler own h) r st =
     Handler_Handle bs level_value h r
       (st\<lparr>ls_buffer := ServerLogHandler_Handle (r_Time r) (r_Message r) (r_Attrs r) (level_value (r_Level r)) own (ls_buffer st)\<rparr>)"

fun Handler_WithAttrs :: "('v, 'b) base_lib \<Rightarrow> (string \<times> 'v) list \<Rightarrow> ('v, 'b) slog_handler \<Rightarrow> ('v, 'b) slog_handler" where
  "Handler_WithAttrs bs attrs (Base b) = Base (bs_WithAttrs bs attrs b)"
| "Handler_WithAttrs bs attrs (MetricSlogHandler h) = Handler_WithAttrs bs attrs h"
| "Handler_WithAttrs bs attrs (BufferingHandler own h) = BufferingHandler (WithAttrs attrs own) (Handler_WithAttrs bs attrs h)"

fun Handler_WithGroup :: "('v, 'b) base_lib \<Rightarrow> string \<Rightarrow> ('v, 'b) slog_handler \<Rightarrow> ('v, 'b) slog_handler" where
  "Handler_WithGroup bs name (Base b) = Base (bs_WithGroup bs name b)"
| "Handler_WithGroup bs name (MetricSlogHandler h) = Handler_WithGroup bs name h"
| "Handler_WithGroup bs name (BufferingHandler own h) = BufferingHandler (WithGroup name own) (Handler_WithGroup bs name h)"

text \<open>The default logger after \<^verbatim>\<open>run\<close> has set it up around the handler found before.\<close>

definition default_handler :: "('v, 'b) slog_handler \<Rightarrow> 'v log_state \<Rightarrow> ('v, 'b) slog_handler \<times> 'v log_state" where
  "default_handler originalHandler st =
     (case NewMetricSlogHandler originalHandler st of
        (metricHandler, st) \<Rightarrow> (BufferingHandler NewServerLogHandler metricHandler, st))"

text \<open>
  \<^verbatim>\<open>Logger.With\<close> of the library derives a handler for the attributes, if there are any; the loggers of proxies,
  upstreams and health managers are made like this.
\<close>

definition Logger_With :: "('v, 'b) base_lib \<Rightarrow> (string \<times> 'v) list \<Rightarrow> ('v, 'b) slog_handler \<Rightarrow> ('v, 'b) slog_handler" where
  "Logger_With bs attrs h = (if attrs = [] then h else Handler_WithAttrs bs attrs h)"

definition Log :: "('v, 'b) base_lib \<Rightarrow> (string \<Rightarrow> 'v) \<Rightarrow> ('v, 'b) slog_handler \<Rightarrow> 'v log_record \<Rightarrow> 'v log_state \<Rightarrow> 'v log_state" where
  "Log bs level_value h r st = (if Handler_Enabled bs h (r_Level r) then snd (Handler_Handle bs level_value h r st) else st)"

section \<open>Where a record arrives\<close>

definition logged :: "'v log_state \<Rightarrow> string \<Rightarrow> counter" where
  "logged st level = (case ls_counter st of None \<Rightarrow> 0 | Some v \<Rightarrow> WithLabelValues v level)"

text \<open>The entry of the server log that a record of a logger with attributes becomes.\<close>

definition buffered_entry :: "(string \<Rightarrow> 'v) \<Rightarrow> (string \<times> 'v) list \<Rightarrow> 'v log_record \<Rightarrow> 'v ProbeLogEntry" where
  "buffered_entry level_value attrs r =
     \<lparr>le_Timestamp = r_Time r, le_Message = r_Message r, le_ProxyID = [],
       le_Attrs = handle_attrs attrs (r_Attrs r) (level_value (r_Level r))\<rparr>"

lemma default_handler_eq:
  "fst (default_handler h st) = BufferingHandler NewServerLogHandler (MetricSlogHandler h)"
  by (simp add: default_handler_def NewMetricSlogHandler_def)

text \<open>C34. A record logged with the default logger of the server is written, kept in the server log with its
  attributes, and counted once under its level and no other; a record below the level of the output leaves
  no trace. The labels \<^verbatim>\<open>INFO\<close>, \<^verbatim>\<open>WARN\<close> and \<^verbatim>\<open>ERROR\<close> exist from the start.\<close>

theorem default_logger_logs:
  assumes "default_handler (Base b) st = (h, st0)" and "ls_counter st = Some v"
  shows "(\<forall>level \<in> {''INFO'', ''WARN'', ''ERROR''}. (\<exists>c. the (ls_counter st0) level = Some c) \<and> logged st0 level = logged st level) \<and>
    (let t = Log bs level_value h r st0 in
     if bs_Enabled bs b (r_Level r)
     then ls_out t = ls_out st @ [snd (bs_Handle bs b r)] \<and>
       ls_buffer t = LogBuffer_Add (buffered_entry level_value [] r) (ls_buffer st) \<and>
       (\<forall>level. logged t level = logged st0 level + (if level = r_Level r then 1 else 0))
     else t = st0)"
proof -
  have h: "h = BufferingHandler NewServerLogHandler (MetricSlogHandler (Base b))"
    and st0: "st0 = snd (NewMetricSlogHandler (Base b) st)"
    using assms(1) by (auto simp: default_handler_def NewMetricSlogHandler_def)
  have "\<forall>level \<in> {''INFO'', ''WARN'', ''ERROR''}. (\<exists>c. the (ls_counter st0) level = Some c) \<and> logged st0 level = logged st level"
    using assms(2)
    by (simp add: st0 NewMetricSlogHandler_def logged_def WithLabelValues_on_label Counter_Add_def) (simp add: on_label_def)
  moreover have "ls_out st0 = ls_out st" "ls_buffer st0 = ls_buffer st" "\<exists>v. ls_counter st0 = Some v"
    using assms(2) by (simp_all add: st0 NewMetricSlogHandler_def)
  ultimately show ?thesis
    by (auto simp: Let_def Log_def h logged_def WithLabelValues_on_label Counter_Inc_def ServerLogHandler_Handle_def
        NewServerLogHandler_def buffered_entry_def split: prod.split)
qed

text \<open>
  A record of a logger made by \<^verbatim>\<open>With\<close> is written and kept as well, with the attributes of the logger, but
  it is not counted: the derived handler no longer contains the one that counts. So the metric of log
  records does not see what proxies, upstreams and health managers log.
\<close>

theorem derived_logger_not_counted:
  assumes "attrs \<noteq> []"
  shows "let t = Log bs level_value (Logger_With bs attrs (fst (default_handler (Base b) st))) r st0 in
     ls_counter t = ls_counter st0 \<and>
     (if bs_Enabled bs (bs_WithAttrs bs attrs b) (r_Level r)
      then ls_out t = ls_out st0 @ [snd (bs_Handle bs (bs_WithAttrs bs attrs b) r)] \<and>
        ls_buffer t = LogBuffer_Add (buffered_entry level_value attrs r) (ls_buffer st0)
      else t = st0)"
  using assms
  by (simp add: Let_def Log_def Logger_With_def default_handler_eq ServerLogHandler_Handle_def NewServerLogHandler_def
      WithAttrs_def buffered_entry_def split: prod.split)

definition sample_base :: "(string, unit) base_lib" where
  "sample_base = \<lparr>bs_Enabled = (\<lambda>_ level. level \<noteq> ''DEBUG''), bs_Handle = (\<lambda>_ r. (None, r_Message r)),
     bs_WithAttrs = (\<lambda>_ b. b), bs_WithGroup = (\<lambda>_ b. b)\<rparr>"

definition sample_log_state :: "string log_state" where
  "sample_log_state = \<lparr>ls_counter = Some Map.empty, ls_buffer = NewLogBuffer 200, ls_out = []\<rparr>"

definition sample_record :: "string log_record" where
  "sample_record = \<lparr>r_Time = 1, r_Level = ''INFO'', r_Message = ''started'', r_Attrs = []\<rparr>"

theorem default_logger_logs_witness:
  "let (h, st0) = default_handler (Base ()) sample_log_state; t = Log sample_base id h sample_record st0 in
   ls_out t = [''started''] \<and> logged t ''INFO'' = 1 \<and> logged t ''WARN'' = 0"
proof -
  obtain h st0 where d: "default_handler (Base ()) sample_log_state = (h, st0)" by fastforce
  have c: "ls_counter sample_log_state = Some Map.empty" by (simp add: sample_log_state_def)
  have "logged sample_log_state level = 0" for level
    by (simp add: logged_def sample_log_state_def WithLabelValues_def)
  moreover have "r_Level sample_record = ''INFO''" "bs_Enabled sample_base () ''INFO''" "snd (bs_Handle sample_base () sample_record) = ''started''"
    "ls_out sample_log_state = []"
    by (simp_all add: sample_base_def sample_record_def sample_log_state_def)
  ultimately show ?thesis
    using default_logger_logs [OF d c, of sample_base id sample_record] by (simp add: d Let_def)
qed

end
