(* ===== verification/Startup.thy ===== *)
theory Startup
  imports Commands Exporter Logging Server
begin

text \<open>
  Starting and stopping the server: \<^verbatim>\<open>run\<close> and \<^verbatim>\<open>boot\<close> of \<^verbatim>\<open>src/server.go\<close>, the socket of the API
  from \<^verbatim>\<open>src/api.go\<close>, the listener of \<^verbatim>\<open>src/server_linux.go\<close> and the exit of
  \<^verbatim>\<open>src/cmd/trabbits/main.go\<close>. The state is what the operating system and the process hold; the calls that
  may fail are fields of \<open>sys\<close>. A deferred call runs when the function around it returns.
\<close>

section \<open>The process\<close>

record ('w, 'a, 'c, 'v, 'b) process =
  os_files :: "string \<rightharpoonup> string"
  os_store :: bool
  os_listening :: bool
  os_api :: "string list"
  os_handler :: "('v, 'b) slog_handler"
  os_log :: "'v log_state"
  os_server :: "('w, 'a, 'c) server option"

text \<open>
  The calls that may fail: loading the configuration, making the metrics store, the file calls, the two listeners, and
  serving on the API socket within the first 100 milliseconds.
\<close>

record sys =
  sy_load :: "string \<Rightarrow> ConfigData go"
  sy_store :: "string \<Rightarrow> (string \<times> string) list \<Rightarrow> unit go"
  sy_pid :: nat
  sy_WriteFile :: "string \<Rightarrow> string option"
  sy_Remove :: "string \<Rightarrow> string option"
  sy_ListenUnix :: "string \<Rightarrow> string option"
  sy_Chmod :: "string \<Rightarrow> string option"
  sy_Serve :: "string option"
  sy_Control :: "string option"
  sy_SetsockoptInt :: "string option"
  sy_Listen :: "string \<Rightarrow> string option"

text \<open>\<^verbatim>\<open>os.Remove\<close>: the file is gone if the call succeeds.\<close>

definition Remove :: "sys \<Rightarrow> string \<Rightarrow> ('w, 'a, 'c, 'v, 'b) process \<Rightarrow> ('w, 'a, 'c, 'v, 'b) process" where
  "Remove sy path s = (if sy_Remove sy path = None then s\<lparr>os_files := (os_files s)(path := None)\<rparr> else s)"

text \<open>
  A function returns (\<open>Some\<close>) or is still running (\<open>None\<close>); \<open>deferring\<close> is a deferred call and the rest of the function
  after it.
\<close>

definition deferring :: "('s \<Rightarrow> 's) \<Rightarrow> ('s \<Rightarrow> 'r option \<times> 's) \<Rightarrow> 's \<Rightarrow> 'r option \<times> 's" where
  "deferring cleanup rest s =
     (case rest s of (None, s) \<Rightarrow> (None, s) | (Some r, s) \<Rightarrow> (Some r, cleanup s))"

section \<open>The PID file\<close>

definition writePidFile :: "sys \<Rightarrow> string \<Rightarrow> ('w, 'a, 'c, 'v, 'b) process \<Rightarrow> unit go \<times> ('w, 'a, 'c, 'v, 'b) process" where
  "writePidFile sy pidFile s =
     (case sy_WriteFile sy pidFile of
        Some e \<Rightarrow> (Inl (''failed to write PID file '' @ pidFile @ '': '' @ e), s)
      | None \<Rightarrow> (Inr (), s\<lparr>os_files := (os_files s)(pidFile \<mapsto> show_nat (sy_pid sy))\<rparr>))"

definition removePidFile :: "sys \<Rightarrow> string \<Rightarrow> ('w, 'a, 'c, 'v, 'b) process \<Rightarrow> ('w, 'a, 'c, 'v, 'b) process" where
  "removePidFile sy pidFile s = Remove sy pidFile s"

section \<open>The socket of the API\<close>

text \<open>\<^verbatim>\<open>listenUnixSocket\<close>: the result and the function that removes the socket.\<close>

definition listenUnixSocket :: "sys \<Rightarrow> string \<Rightarrow> ('w, 'a, 'c, 'v, 'b) process \<Rightarrow>
    (unit go \<times> (('w, 'a, 'c, 'v, 'b) process \<Rightarrow> ('w, 'a, 'c, 'v, 'b) process)) \<times> ('w, 'a, 'c, 'v, 'b) process" where
  "listenUnixSocket sy socketPath s =
     (if socketPath = [] then ((Inl ''path to socket is empty'', \<lambda>s. s), s)
      else if os_files s socketPath \<noteq> None then ((Inl (''socket already exists: '' @ socketPath), \<lambda>s. s), s)
      else case sy_ListenUnix sy socketPath of
        Some e \<Rightarrow> ((Inl (''failed to listen on socket: '' @ e), Remove sy socketPath), s)
      | None \<Rightarrow>
          (let s = s\<lparr>os_files := (os_files s)(socketPath \<mapsto> ''socket'')\<rparr> in
           case sy_Chmod sy socketPath of
             Some e \<Rightarrow> ((Inl (''failed to set socket permissions: '' @ e), Remove sy socketPath), s)
           | None \<Rightarrow> ((Inr (), Remove sy socketPath), s)))"

text \<open>
  \<^verbatim>\<open>startAPIServer\<close>: the goroutine listens and serves; an error within 100 milliseconds is returned, and the
  goroutine has removed the socket then. The function returned removes the socket; the server it shuts down is not the
  one that serves.
\<close>

definition startAPIServer :: "sys \<Rightarrow> string \<Rightarrow> ('w, 'a, 'c, 'v, 'b) process \<Rightarrow>
    (('w, 'a, 'c, 'v, 'b) process \<Rightarrow> ('w, 'a, 'c, 'v, 'b) process) go \<times> ('w, 'a, 'c, 'v, 'b) process" where
  "startAPIServer sy apiSocket s =
     (if apiSocket = [] then (Inr (\<lambda>s. s), s)
      else case listenUnixSocket sy apiSocket s of
        ((Inl e, cancelFunc), s) \<Rightarrow> (Inl e, cancelFunc s)
      | ((Inr _, cancelFunc), s) \<Rightarrow>
          (case sy_Serve sy of
             Some e \<Rightarrow> (Inl e, cancelFunc s)
           | None \<Rightarrow> (Inr (Remove sy apiSocket), s\<lparr>os_api := apiSocket # os_api s\<rparr>)))"

section \<open>Accepting connections\<close>

definition newListener :: "sys \<Rightarrow> string \<Rightarrow> unit go" where
  "newListener sy addr =
     (case sy_Control sy of
        Some e \<Rightarrow> Inl e
      | None \<Rightarrow> (case sy_SetsockoptInt sy of
          Some e \<Rightarrow> Inl e
        | None \<Rightarrow> (case sy_Listen sy addr of Some e \<Rightarrow> Inl e | None \<Rightarrow> Inr ())))"

text \<open>
  What happens while \<^verbatim>\<open>boot\<close> runs: a connection is accepted, accepting fails, the context is cancelled, the signal
  to reload arrives, or another goroutine of the server does something.
\<close>

datatype 'a boot_event =
    Accepted nat "bytes option" string cwriter "(read_fail + frame) list"
  | AcceptFailed
  | CtxCancelled
  | Hangup nat int "string \<Rightarrow> bool"
  | Background "'a server_event"

text \<open>
  The goroutine that waits for the context closes the listener and disconnects the clients; the one that waits for
  \<^verbatim>\<open>SIGHUP\<close> may still take a signal before it sees that the context is done. The loop returns when accepting fails and the context is done.
\<close>

fun boot :: "('w, 'c) environment \<Rightarrow> string \<Rightarrow> bool \<Rightarrow> 'a boot_event list \<Rightarrow> ('w, 'a, 'c) server \<Rightarrow> unit go option \<times> ('w, 'a, 'c) server" where
  "boot en configPath ctxDone [] sv = (None, sv)"
| "boot en configPath ctxDone (Accepted now header addr out ins # es) sv =
     boot en configPath ctxDone es (server_step en (Accept now header addr out ins) sv)"
| "boot en configPath ctxDone (AcceptFailed # es) sv =
     (if ctxDone then (Some (Inr ()), sv) else boot en configPath ctxDone es sv)"
| "boot en configPath ctxDone (CtxCancelled # es) sv =
     boot en configPath True es (if ctxDone then sv else server_step en Stop sv)"
| "boot en configPath ctxDone (Hangup ctx now reachable # es) sv =
     boot en configPath ctxDone es (server_step en (Reload ctx now reachable configPath) sv)"
| "boot en configPath ctxDone (Background ev # es) sv =
     boot en configPath ctxDone es (server_step en ev sv)"

section \<open>Running the server\<close>

definition serve_clients :: "('w, 'c) environment \<Rightarrow> CLI \<Rightarrow> 'a boot_event list \<Rightarrow> ('w, 'a, 'c, 'v, 'b) process \<Rightarrow>
    unit go option \<times> ('w, 'a, 'c, 'v, 'b) process" where
  "serve_clients en opt es s =
     (case os_server s of
        None \<Rightarrow> (Some (Inr ()), s)
      | Some sv \<Rightarrow> (case boot en (cl_Config opt) False es sv of (r, sv) \<Rightarrow> (r, s\<lparr>os_server := Some sv\<rparr>)))"

definition listen_and_serve :: "sys \<Rightarrow> ('w, 'c) environment \<Rightarrow> CLI \<Rightarrow> 'a boot_event list \<Rightarrow> ('w, 'a, 'c, 'v, 'b) process \<Rightarrow>
    unit go option \<times> ('w, 'a, 'c, 'v, 'b) process" where
  "listen_and_serve sy en opt es s =
     (case newListener sy (CHR '':'' # itoa (cl_Port opt)) of
        Inl e \<Rightarrow> (Some (Inl (''failed to start AMQP server: '' @ e)), s)
      | Inr _ \<Rightarrow>
          deferring (\<lambda>s. s\<lparr>os_listening := False\<rparr>) (serve_clients en opt es) (s\<lparr>os_listening := True\<rparr>))"

definition with_api :: "sys \<Rightarrow> ('w, 'c) environment \<Rightarrow> nat \<Rightarrow> int \<Rightarrow> (string \<Rightarrow> bool) \<Rightarrow> CLI \<Rightarrow> 'a boot_event list \<Rightarrow>
    ('w, 'a, 'c, 'v, 'b) process \<Rightarrow> unit go option \<times> ('w, 'a, 'c, 'v, 'b) process" where
  "with_api sy en ctx now reachable opt es s =
     (let s = s\<lparr>os_server := map_option (initHealthManagers ctx now reachable) (os_server s)\<rparr> in
      case startAPIServer sy (cl_APISocket opt) s of
        (Inl e, s) \<Rightarrow> (Some (Inl (''failed to start API server: '' @ e)), s)
      | (Inr cancelAPI, s) \<Rightarrow> deferring cancelAPI (listen_and_serve sy en opt es) s)"

definition with_pid_file :: "sys \<Rightarrow> ('w, 'c) environment \<Rightarrow> nat \<Rightarrow> int \<Rightarrow> (string \<Rightarrow> bool) \<Rightarrow> CLI \<Rightarrow> 'a boot_event list \<Rightarrow>
    ('w, 'a, 'c, 'v, 'b) process \<Rightarrow> unit go option \<times> ('w, 'a, 'c, 'v, 'b) process" where
  "with_pid_file sy en ctx now reachable opt es s =
     (if cl_PidFile opt \<noteq> []
      then (case writePidFile sy (cl_PidFile opt) s of
              (Inl e, s) \<Rightarrow> (Some (Inl (''failed to write PID file: '' @ e)), s)
            | (Inr _, s) \<Rightarrow> deferring (removePidFile sy (cl_PidFile opt)) (with_api sy en ctx now reachable opt es) s)
      else with_api sy en ctx now reachable opt es s)"

definition run :: "sys \<Rightarrow> ('w, 'c) environment \<Rightarrow> 'w \<Rightarrow> nat \<Rightarrow> int \<Rightarrow> (string \<Rightarrow> bool) \<Rightarrow> CLI \<Rightarrow> 'a boot_event list \<Rightarrow>
    ('w, 'a, 'c, 'v, 'b) process \<Rightarrow> unit go option \<times> ('w, 'a, 'c, 'v, 'b) process" where
  "run sy en w ctx now reachable opt es s =
     (case sy_load sy (cl_Config opt) of
        Inl e \<Rightarrow> (Some (Inl (''failed to load config: '' @ e)), s)
      | Inr cfg \<Rightarrow>
          (case sy_store sy Version (GetAttributes (c_MetricsAttributes cfg)) of
             Inl e \<Rightarrow> (Some (Inl (''failed to setup metrics: '' @ e)), s)
           | Inr _ \<Rightarrow>
               deferring (\<lambda>s. s\<lparr>os_store := False\<rparr>)
                 (\<lambda>s. case default_handler (os_handler s) (os_log s) of
                    (h, log) \<Rightarrow>
                      with_pid_file sy en ctx now reachable opt es
                        (s\<lparr>os_handler := h, os_log := log, os_server := Some (NewServer (en_lru en) (en_Hash en) cfg w)\<rparr>))
                 (s\<lparr>os_store := True\<rparr>)))"

text \<open>\<^verbatim>\<open>main\<close>: the exit code.\<close>

definition exit_code :: "unit go \<Rightarrow> nat" where
  "exit_code r = (case r of Inl _ \<Rightarrow> 1 | Inr _ \<Rightarrow> 0)"

section \<open>Everything set up is torn down\<close>

text \<open>What a process leaves behind.\<close>

definition left_as :: "('w, 'a, 'c, 'v, 'b) process \<Rightarrow> ('w, 'a, 'c, 'v, 'b) process \<Rightarrow> bool" where
  "left_as s t \<longleftrightarrow> os_files t = os_files s \<and> os_store t = os_store s \<and> \<not> os_listening t"

lemma deferring_returns:
  assumes "deferring cleanup rest s = (Some r, t)"
  obtains t' where "rest s = (Some r, t')" "t = cleanup t'"
  using assms by (auto simp: deferring_def split: prod.splits option.splits)

lemma deferring_fst [simp]: "fst (deferring cleanup rest s) = fst (rest s)"
  by (auto simp: deferring_def split: prod.split option.split)

lemma serve_clients_frame:
  assumes "serve_clients en opt es s = (r, t)"
  shows "os_files t = os_files s \<and> os_store t = os_store s \<and> os_api t = os_api s"
  using assms by (auto simp: serve_clients_def split: option.splits prod.splits)

lemma listen_and_serve_leaves:
  assumes "listen_and_serve sy en opt es s = (Some r, t)" and "\<not> os_listening s"
  shows "left_as s t \<and> os_api t = os_api s"
  using assms unfolding listen_and_serve_def
  by (auto simp: left_as_def split: sum.splits elim!: deferring_returns dest!: serve_clients_frame)

lemma startAPIServer_leaves:
  assumes "startAPIServer sy socket s = (r, t)" and "sy_Remove sy socket = None"
  shows "case r of
      Inl e \<Rightarrow> os_files t = os_files s \<and> os_store t = os_store s \<and> os_listening t = os_listening s
    | Inr cancelAPI \<Rightarrow> os_store t = os_store s \<and> os_listening t = os_listening s \<and> (\<forall>t'. left_as t t' \<longrightarrow> left_as s (cancelAPI t'))"
proof (cases "socket = [] \<or> os_files s socket \<noteq> None")
  case True
  then show ?thesis
    using assms by (auto simp: startAPIServer_def listenUnixSocket_def left_as_def split: if_splits)
next
  case False
  then have "(os_files s)(socket := None) = os_files s" by auto
  then show ?thesis
    using False assms
    by (auto simp: startAPIServer_def listenUnixSocket_def left_as_def Remove_def Let_def split: option.splits)
qed

lemma with_api_leaves:
  assumes "with_api sy en ctx now reachable opt es s = (Some r, t)" and "sy_Remove sy (cl_APISocket opt) = None"
    and "\<not> os_listening s"
  shows "left_as s t"
proof -
  define s' where "s' = s\<lparr>os_server := map_option (initHealthManagers ctx now reachable) (os_server s)\<rparr>"
  obtain c s1 where api: "startAPIServer sy (cl_APISocket opt) s' = (c, s1)" by fastforce
  have frame: "left_as s = left_as s'" "\<not> os_listening s'"
    using assms(3) by (simp_all add: s'_def left_as_def fun_eq_iff)
  have run: "(case c of Inl e \<Rightarrow> (Some (Inl (''failed to start API server: '' @ e)), s1)
      | Inr cancelAPI \<Rightarrow> deferring cancelAPI (listen_and_serve sy en opt es) s1) = (Some r, t)"
    using assms(1) api by (simp add: with_api_def s'_def)
  show ?thesis
  proof (cases c)
    case (Inl e)
    then show ?thesis
      unfolding frame using run frame(2) startAPIServer_leaves [OF api assms(2)] by (auto simp: left_as_def)
  next
    case (Inr cancelAPI)
    then have "deferring cancelAPI (listen_and_serve sy en opt es) s1 = (Some r, t)" using run by simp
    then obtain t' where t': "listen_and_serve sy en opt es s1 = (Some r, t')" "t = cancelAPI t'"
      by (rule deferring_returns)
    have "\<not> os_listening s1" "left_as s1 t' \<longrightarrow> left_as s' (cancelAPI t')"
      using startAPIServer_leaves [OF api assms(2)] Inr frame(2) by simp_all
    then show ?thesis
      unfolding frame t'(2) using listen_and_serve_leaves [OF t'(1)] by blast
  qed
qed

lemma with_pid_file_leaves:
  assumes "with_pid_file sy en ctx now reachable opt es s = (Some r, t)"
    and "sy_Remove sy (cl_APISocket opt) = None" "sy_Remove sy (cl_PidFile opt) = None"
    and "os_files s (cl_PidFile opt) = None" "\<not> os_listening s"
  shows "left_as s t"
proof (cases "cl_PidFile opt = [] \<or> sy_WriteFile sy (cl_PidFile opt) \<noteq> None")
  case True
  then show ?thesis
    using assms with_api_leaves [OF _ assms(2,5)] by (auto simp: with_pid_file_def writePidFile_def left_as_def split: if_splits)
next
  case False
  let ?s = "s\<lparr>os_files := (os_files s)(cl_PidFile opt \<mapsto> show_nat (sy_pid sy))\<rparr>"
  have "deferring (removePidFile sy (cl_PidFile opt)) (with_api sy en ctx now reachable opt es) ?s = (Some r, t)"
    using False assms(1) by (auto simp: with_pid_file_def writePidFile_def)
  then obtain t' where t': "with_api sy en ctx now reachable opt es ?s = (Some r, t')" "t = removePidFile sy (cl_PidFile opt) t'"
    by (rule deferring_returns)
  have "left_as ?s t'"
    using with_api_leaves [OF t'(1) assms(2)] assms(5) by simp
  moreover have "(os_files s)(cl_PidFile opt := None) = os_files s" using assms(4) by auto
  ultimately show ?thesis
    using assms(3) by (simp add: t'(2) removePidFile_def Remove_def left_as_def)
qed


definition sample_sys :: sys where
  "sample_sys = \<lparr>sy_load = (\<lambda>_. Inr sample_config), sy_store = (\<lambda>_ _. Inr ()), sy_pid = 42, sy_WriteFile = (\<lambda>_. None),
     sy_Remove = (\<lambda>_. None), sy_ListenUnix = (\<lambda>_. None), sy_Chmod = (\<lambda>_. None), sy_Serve = None, sy_Control = None,
     sy_SetsockoptInt = None, sy_Listen = (\<lambda>_. None)\<rparr>"

definition sample_cli :: CLI where
  "sample_cli = \<lparr>cl_Config = ''config.json'', cl_Port = 6672, cl_APISocket = ''/tmp/trabbits.sock'', cl_Debug = False,
     cl_PidFile = ''/run/trabbits.pid'', cl_ConfigCommand = [], cl_ConfigFile = [], cl_ShutdownProxyID = [], cl_ShutdownReason = [],
     cl_InfoProxyID = [], cl_ProbeProxyID = [], cl_ProbeFormat = [], cl_Pattern = [], cl_Key = []\<rparr>"

definition sample_process :: "(lib_call list, nat, nat \<times> (string \<times> nat) list, string, unit) process" where
  "sample_process = \<lparr>os_files = Map.empty, os_store = False, os_listening = False, os_api = [], os_handler = Base (),
     os_log = sample_log_state, os_server = None\<rparr>"


text \<open>
  The function returned for the API shuts down a server that was never started: a server that serves still does
  so after the function has run.
\<close>

lemma api_server_not_shut_down:
  assumes "startAPIServer sy socket s = (Inr cancelAPI, t)" and "socket \<noteq> []"
  shows "socket \<in> set (os_api t) \<and> os_api (cancelAPI t') = os_api t'"
  using assms by (auto simp: startAPIServer_def Remove_def split: prod.splits sum.splits option.splits)

section \<open>The server stops\<close>

lemma boot_stops: "\<exists>sv'. boot en p True (ys @ AcceptFailed # zs) sv = (Some (Inr ()), sv')"
proof (induction ys arbitrary: sv)
  case (Cons y ys)
  then show ?case by (cases y) auto
qed simp

lemma boot_returns: "\<exists>sv'. boot en p d (xs @ CtxCancelled # ys @ AcceptFailed # zs) sv = (Some (Inr ()), sv')"
proof (induction xs arbitrary: d sv)
  case Nil
  then show ?case by (cases d) (simp_all add: boot_stops)
next
  case (Cons x xs)
  then show ?case by (cases x) auto
qed

text \<open>The steps of the start all succeed.\<close>

definition start_ok :: "sys \<Rightarrow> CLI \<Rightarrow> ('w, 'a, 'c, 'v, 'b) process \<Rightarrow> bool" where
  "start_ok sy opt s \<longleftrightarrow>
     (case sy_load sy (cl_Config opt) of
        Inl _ \<Rightarrow> False
      | Inr cfg \<Rightarrow> sy_store sy Version (GetAttributes (c_MetricsAttributes cfg)) = Inr ()) \<and>
     (cl_PidFile opt = [] \<or> sy_WriteFile sy (cl_PidFile opt) = None) \<and>
     (cl_APISocket opt = [] \<or> os_files s (cl_APISocket opt) = None \<and> cl_APISocket opt \<noteq> cl_PidFile opt \<and>
        sy_ListenUnix sy (cl_APISocket opt) = None \<and> sy_Chmod sy (cl_APISocket opt) = None \<and> sy_Serve sy = None) \<and>
     sy_Control sy = None \<and> sy_SetsockoptInt sy = None \<and> sy_Listen sy (CHR '':'' # itoa (cl_Port opt)) = None"

definition listens :: "sys \<Rightarrow> CLI \<Rightarrow> bool" where
  "listens sy opt \<longleftrightarrow> sy_Control sy = None \<and> sy_SetsockoptInt sy = None \<and> sy_Listen sy (CHR '':'' # itoa (cl_Port opt)) = None"

definition api_starts :: "sys \<Rightarrow> CLI \<Rightarrow> ('w, 'a, 'c, 'v, 'b) process \<Rightarrow> bool" where
  "api_starts sy opt s \<longleftrightarrow> cl_APISocket opt = [] \<or> os_files s (cl_APISocket opt) = None \<and>
     sy_ListenUnix sy (cl_APISocket opt) = None \<and> sy_Chmod sy (cl_APISocket opt) = None \<and> sy_Serve sy = None"

lemma listen_and_serve_returns:
  assumes "es = xs @ CtxCancelled # ys @ AcceptFailed # zs"
  shows "\<exists>r. fst (listen_and_serve sy en opt es s) = Some r \<and> (exit_code r = 0 \<longleftrightarrow> listens sy opt)"
proof -
  have serve: "fst (serve_clients en opt es s') = Some (Inr ())" for s'
    using boot_returns [of en "cl_Config opt" False xs ys zs] unfolding serve_clients_def assms
    by (auto split: option.split prod.split) (metis fst_conv)
  show ?thesis
    by (auto simp: serve listen_and_serve_def newListener_def listens_def exit_code_def split: option.split)
qed

lemma startAPIServer_result:
  assumes "startAPIServer sy (cl_APISocket opt) s = (c, t)"
  shows "(\<exists>f. c = Inr f) \<longleftrightarrow> api_starts sy opt s"
  using assms by (auto simp: startAPIServer_def listenUnixSocket_def api_starts_def Let_def split: if_splits option.splits)

lemma with_api_returns:
  assumes "es = xs @ CtxCancelled # ys @ AcceptFailed # zs"
  shows "\<exists>r. fst (with_api sy en ctx now reachable opt es s) = Some r \<and> (exit_code r = 0 \<longleftrightarrow> api_starts sy opt s \<and> listens sy opt)"
proof -
  define s' where "s' = s\<lparr>os_server := map_option (initHealthManagers ctx now reachable) (os_server s)\<rparr>"
  obtain c s1 where api: "startAPIServer sy (cl_APISocket opt) s' = (c, s1)" by fastforce
  have "api_starts sy opt s' = api_starts sy opt s" by (simp add: s'_def api_starts_def)
  then show ?thesis
    using startAPIServer_result [OF api] listen_and_serve_returns [OF assms, of sy en opt s1] api
    by (auto simp: with_api_def s'_def [symmetric] exit_code_def split: sum.splits)
qed

text \<open>C25. The server stops when it is told to: once the context is cancelled and the listener that is closed then fails
  to accept, \<^verbatim>\<open>run\<close> has returned, with exit code 0 exactly if all steps of the start had succeeded; otherwise it
  has returned the error of the first step that failed.\<close>

theorem run_returns:
  "\<exists>r t. run sy en w ctx now reachable opt (xs @ CtxCancelled # ys @ AcceptFailed # zs) s = (Some r, t) \<and>
    (exit_code r = 0 \<longleftrightarrow> start_ok sy opt s)"
proof -
  define es where es: "es = xs @ CtxCancelled # ys @ AcceptFailed # zs"
  have pid: "\<exists>r. fst (with_pid_file sy en ctx now reachable opt es s') = Some r \<and>
      (exit_code r = 0 \<longleftrightarrow> (cl_PidFile opt = [] \<or> sy_WriteFile sy (cl_PidFile opt) = None) \<and>
        (cl_APISocket opt = [] \<or> cl_APISocket opt \<noteq> cl_PidFile opt) \<and> api_starts sy opt s' \<and> listens sy opt)" for s'
    using with_api_returns [OF es, of sy en ctx now reachable opt s']
      with_api_returns [OF es, of sy en ctx now reachable opt "s'\<lparr>os_files := (os_files s')(cl_PidFile opt \<mapsto> show_nat (sy_pid sy))\<rparr>"]
    by (cases "cl_PidFile opt = []"; cases "sy_WriteFile sy (cl_PidFile opt)")
      (auto simp: with_pid_file_def writePidFile_def api_starts_def exit_code_def split: if_splits)
  have "\<exists>r. fst (run sy en w ctx now reachable opt es s) = Some r \<and> (exit_code r = 0 \<longleftrightarrow> start_ok sy opt s)"
  proof (cases "sy_load sy (cl_Config opt)")
    case (Inl e)
    then show ?thesis by (simp add: run_def start_ok_def exit_code_def)
  next
    case (Inr cfg)
    obtain h log where d: "default_handler (os_handler s) (os_log s) = (h, log)" by fastforce
    show ?thesis
      using pid [of "s\<lparr>os_store := True, os_handler := h, os_log := log, os_server := Some (NewServer (en_lru en) (en_Hash en) cfg w)\<rparr>"] Inr d
      by (cases "sy_store sy Version (GetAttributes (c_MetricsAttributes cfg))")
        (auto simp: run_def start_ok_def exit_code_def api_starts_def listens_def)
  qed
  then show ?thesis unfolding es by (metis prod.collapse)
qed

section \<open>The server that runs\<close>

definition server_good :: "('w, 'a, 'c, 'v, 'b) process \<Rightarrow> bool" where
  "server_good s \<longleftrightarrow> (case os_server s of None \<Rightarrow> True | Some sv \<Rightarrow> server_ok sv)"

lemma boot_ok: "server_ok sv \<Longrightarrow> server_ok (snd (boot en p d es sv))"
  by (induction en p d es sv rule: boot.induct) (simp_all add: server_step_ok del: server_step.simps)

lemma deferring_good:
  assumes "server_good (snd (rest s))" and "\<And>s. os_server (cleanup s) = os_server s"
  shows "server_good (snd (deferring cleanup rest s))"
  using assms by (auto simp: deferring_def server_good_def split: prod.split option.split)

lemma Remove_server [simp]: "os_server (Remove sy path s) = os_server s" "os_server (removePidFile sy path s) = os_server s"
  by (simp_all add: Remove_def removePidFile_def)

lemma serve_clients_good: "server_good s \<Longrightarrow> server_good (snd (serve_clients en opt es s))"
  by (auto simp: serve_clients_def server_good_def split: option.splits prod.splits) (metis boot_ok snd_conv)

lemma listen_and_serve_good:
  assumes "server_good s"
  shows "server_good (snd (listen_and_serve sy en opt es s))"
proof (cases "newListener sy (CHR '':'' # itoa (cl_Port opt))")
  case (Inr u)
  have "server_good (s\<lparr>os_listening := True\<rparr>)" using assms by (simp add: server_good_def)
  then show ?thesis
    unfolding listen_and_serve_def Inr by (simp add: deferring_good serve_clients_good)
qed (use assms in \<open>simp add: listen_and_serve_def\<close>)

lemma startAPIServer_server:
  assumes "startAPIServer sy socket s = (r, t)"
  shows "os_server t = os_server s \<and> (\<forall>f. r = Inr f \<longrightarrow> (\<forall>t. os_server (f t) = os_server t))"
  using assms by (auto simp: startAPIServer_def listenUnixSocket_def Let_def split: if_splits option.splits)

lemma with_api_good:
  assumes "server_good s"
  shows "server_good (snd (with_api sy en ctx now reachable opt es s))"
proof -
  define s' where "s' = s\<lparr>os_server := map_option (initHealthManagers ctx now reachable) (os_server s)\<rparr>"
  have s': "server_good s'"
    using assms same_books_ok [OF initHealthManagers_books] by (auto simp: s'_def server_good_def split: option.splits)
  obtain c s1 where api: "startAPIServer sy (cl_APISocket opt) s' = (c, s1)" by fastforce
  note srv = startAPIServer_server [OF api]
  then have s1: "server_good s1" using s' by (simp add: server_good_def)
  have w: "with_api sy en ctx now reachable opt es s = (case c of
      Inl e \<Rightarrow> (Some (Inl (''failed to start API server: '' @ e)), s1)
    | Inr cancelAPI \<Rightarrow> deferring cancelAPI (listen_and_serve sy en opt es) s1)"
    using api by (simp add: with_api_def s'_def)
  show ?thesis
    unfolding w using srv by (cases c) (simp_all add: s1 deferring_good listen_and_serve_good)
qed

lemma with_pid_file_good:
  assumes "server_good s"
  shows "server_good (snd (with_pid_file sy en ctx now reachable opt es s))"
proof -
  let ?s = "s\<lparr>os_files := (os_files s)(cl_PidFile opt \<mapsto> show_nat (sy_pid sy))\<rparr>"
  have "server_good ?s" using assms by (simp add: server_good_def)
  then show ?thesis
    using assms by (auto simp: with_pid_file_def writePidFile_def with_api_good deferring_good split: option.split)
qed



end
