(* ===== verification/Spec2Isabelle.thy ===== *)
theory Spec2Isabelle
  imports Topic_Pattern Amqp_Frames Amqp_Auth Config Log_Buffer Session Health Server Api_Client Tui Tui_Layout Startup
begin

text \<open>
  trabbits is a proxy for AMQP 0-9-1: clients connect to it as if it were a RabbitMQ broker, and for
  every client it keeps a connection to each of its upstream brokers. Publishing is routed to one
  upstream by the routing key, consuming and administration go to all of them. This development models
  the program under \<^verbatim>\<open>src/\<close> and proves what makes it correct.

  \<^bold>\<open>The program.\<close> A server (\<^verbatim>\<open>server.go\<close>) accepts connections and handles each in a goroutine: it
  reads the protocol header, makes a proxy, performs the handshake, registers the proxy, connects it to
  the upstreams and then processes one frame after the other (\<^verbatim>\<open>proxy.go\<close>). A frame is read and
  written by the AMQP codec (\<^verbatim>\<open>amqp091/\<close>), and its method is handled by \<^verbatim>\<open>methods.go\<close>, which
  calls the RabbitMQ client library on the channels of the upstreams (\<^verbatim>\<open>upstream.go\<close>). Deliveries
  and confirmations of the upstreams come back through further goroutines; delivery tags
  (\<^verbatim>\<open>delivery.go\<close>) and publisher confirms (\<^verbatim>\<open>confirm.go\<close>) are renumbered on the way. Routing uses
  the patterns of \<^verbatim>\<open>pattern/match.go\<close>, the upstreams come from \<^verbatim>\<open>config/config.go\<close>, cluster nodes
  are checked by \<^verbatim>\<open>health/health.go\<close>, and operators use the HTTP interface of \<^verbatim>\<open>api.go\<close>, which
  also shows the logs of \<^verbatim>\<open>probe.go\<close> and \<^verbatim>\<open>log_buffer.go\<close>. The same program is the client of this
  interface: \<^verbatim>\<open>apiclient/\<close> makes the requests, the commands of \<^verbatim>\<open>cli.go\<close>, \<^verbatim>\<open>manage.go\<close> and
  \<^verbatim>\<open>test.go\<close> print the answers, and \<^verbatim>\<open>tui/\<close> is a terminal interface with a list of the clients, their
  details and their live logs. \<^verbatim>\<open>run\<close> in \<^verbatim>\<open>server.go\<close> starts everything: the metrics and their exporter
  (\<^verbatim>\<open>metrics/\<close>), the chain of log handlers (\<^verbatim>\<open>logger.go\<close>), the PID file, the sockets and the server.

  \<^bold>\<open>The theories.\<close>
  \<^item> \<open>Trabbits_Prelude\<close>: lemmas on lists, bytes, strings and the reader monad that the codec shares.
  \<^item> \<open>Containers\<close>: the contracts of a keyed store and of a bounded log as locales. They are interpreted
    on the channel table, the confirm states and the two log buffers.
  \<^item> \<open>Topic_Pattern\<close>: \<^verbatim>\<open>Match\<close> decides the language of a pattern.
  \<^item> \<open>Amqp_Wire\<close>, \<open>Amqp_Messages\<close>, \<open>Amqp_Frames\<close>, \<open>Amqp_Auth\<close>: the codec on finite byte sequences. Values,
    messages and frames are read back as they were written; readers return on every input.
  \<^item> \<open>Config\<close>: configuration records, validation, defaults and loading.
  \<^item> \<open>Metrics\<close>: instruments, statistics and their snapshots; counters are 64-bit words.
  \<^item> \<open>Delivery\<close>, \<open>Confirm_State\<close>: the two renumberings. The tag table of confirms refines a ledger of
    publishes, confirms each publish at most once and none that was not made.
  \<^item> \<open>Broker\<close>: the interface of the RabbitMQ client library, a record of functions on an abstract world.
  \<^item> \<open>Upstream\<close>: one upstream connection with its channels, queue declaration and destructors.
  \<^item> \<open>Client_IO\<close>: sending and receiving messages over the client's connection.
  \<^item> \<open>Proxy\<close>, \<open>Proxy_Methods\<close>: the proxy's state, routing, one definition per handler, and the dispatcher.
    Handlers are functions from a proxy to an error or a value and the proxy.
  \<^item> \<open>Proxy_Observers\<close>, \<open>Proxy_Termination\<close>: what a turn leaves alone, as a locale that is interpreted on the
    observations the other theories need, and that every turn returns.
  \<^item> \<open>Proxy_Correctness\<close>: end-to-end properties of publishing, acknowledging, confirming and binding.
  \<^item> \<open>Connect\<close>: choosing and dialling cluster nodes.
  \<^item> \<open>Session\<close>: the handshake and the life of a connection as a state machine whose events (a turn of the
    loop, a cancellation, a lost upstream, a confirmation, a delivery, a tick of the heartbeat) come in
    any order.
  \<^item> \<open>Health\<close>: node states and the rounds of a health manager.
  \<^item> \<open>Log_Buffer\<close>: probe logs, and the server log with its subscribers as an inductive step relation.
  \<^item> \<open>Server\<close>: the server as a state machine over connections, registry, retained logs, configuration and
    health managers.
  \<^item> \<open>Client_Types\<close>: what the server tells about its clients (\<^verbatim>\<open>types/client.go\<close>).
  \<^item> \<open>Api\<close>, \<open>Api_Stream\<close>: the handlers of the HTTP interface, its routes and its event streams.
  \<^item> \<open>Api_Client\<close>: the client of the interface. Its requests reach the handlers they are meant for, and the logs
    that the server puts on a stream are the logs the reader hands on, in order.
  \<^item> \<open>Go_Text\<close>: strings, slices and numbers as Go prints and cuts them; an index out of range is \<open>None\<close>.
  \<^item> \<open>Tui_Text\<close>, \<open>Tui_Model\<close>, \<open>Tui_View\<close>: formats and wrapped text, the model with one definition per
    message and per key handler, and the views.
  \<^item> \<open>Tui_Sorting\<close>: the contract of a comparison as a locale, interpreted on the comparisons the program sorts by;
    a comparison that tells all elements apart has one sorted arrangement, whichever algorithm finds it.
  \<^item> \<open>Tui_Layout\<close>, \<open>Tui\<close>: wrapped lines fit and lose nothing, a page shows the selected entry, the file name
    editor refines a text with a cursor, and no order of keys, answers, ticks and window sizes makes the
    interface panic.
  \<^item> \<open>Logging\<close>, \<open>Exporter\<close>, \<open>Config_Json\<close>: where a log record goes, how the metrics are registered and
    observed, and that no text of a configuration depends on its passwords.
  \<^item> \<open>Commands\<close>, \<open>Startup\<close>: the commands as output and error; \<^verbatim>\<open>run\<close> with its deferred calls. The program
    returns after it is told to stop, removes what it has put into the file system, and the server it has
    started keeps the invariant of \<open>Server\<close>.

  \<^bold>\<open>How the model corresponds to the code.\<close> Definitions have the names of the functions they translate;
  the body of a loop or a branch that is a definition of its own is named after what it does. Structs
  are records, pointers to shared objects are numbers in a store (\<open>p_heap\<close> for confirm states,
  \<open>sv_conns\<close> for connections), Go maps that are iterated over are association lists. Errors are values:
  \<open>perr\<close> has the AMQP errors of \<^verbatim>\<open>error.go\<close>, other errors, panics and endless loops. Integers whose
  overflow matters are words. Time is a number that the caller passes. What is not code of the
  repository is an argument: the client library (\<open>rabbitmq\<close>), random choices and the library's sort
  for more than twelve elements (\<open>runtime\<close>), the file system, the JSON decoder and the jsonnet
  evaluator (\<open>Load\<close>), the hash of a configuration, the LRU cache, the rate limiter, the dialler of the
  health checks, the exporters of OpenTelemetry, JSON, URLs and HTTP (\<open>net\<close>), the handler of \<^verbatim>\<open>slog\<close> that
  writes, the operating system (\<open>sys\<close>), and of the terminal library the widths, colours and time formats
  (\<open>tui_lib\<close>). The terminal library runs the commands that \<^verbatim>\<open>Update\<close> returns and gives their messages back in
  any order. A goroutine is an event that may happen at any moment between two steps of the others;
  a step is one call of \<^verbatim>\<open>send\<close>, of a buffer's operation or of a handler, each of which runs under
  a lock in the code.

  \<^bold>\<open>Bounds and fuel.\<close> The loop of \<^verbatim>\<open>send\<close> over a body has one unit of fuel more than the body has
  bytes: every frame takes at least one byte unless frames have eight bytes, and \<open>Proxy_Termination\<close> shows
  that fuel runs out in no other case. The readers of tables and the loop of the AMQPLAIN parser have
  as much fuel as there are bytes, and \<open>Amqp_Wire.readers_return\<close> shows that this is enough. All other
  recursions are structural or have a termination proof.

  \<^bold>\<open>What is not modelled.\<close> The parser of the command line, the profiler and the delivery of signals, which are
  libraries and the operating system: the commands and \<^verbatim>\<open>run\<close> are modelled from the parsed options on, and
  signals are events. Drawing on the terminal: a view is a text in which the style of each part is written by a
  function of the library. TCP options and dead lines of sockets: a dead line shows as a read time-out that may
  come at any place of the input. The generator of \<^verbatim>\<open>spec091.go\<close>, since the file it makes is modelled itself.
  The fixtures that only tests use, such as \<^verbatim>\<open>NewTestStore\<close>. The calls of \<^verbatim>\<open>probeLog\<close> inside the handlers are
  events of the connection and not part of the handlers. Locks are not modelled as such: the code between
  locking and unlocking is one step.
\<close>

end
